(* ===== verification/Domain.thy ===== *)
theory Domain
  imports Prelude
begin

text \<open>
  The data transfer objects of \<open>interfaces/dtos\<close> and the enums of \<open>interfaces/enums\<close> that
  the stages pass to each other: the request schema (\<open>Field\<close>, \<open>FieldGroup\<close>,
  \<open>DocumentTypeSpec\<close>, \<open>RuleSpec\<close>), the extraction tree (\<open>ExtractedField\<close>), and their
  pydantic validators. Scores a model bounds to \<open>[0, 1]\<close> are rationals.
\<close>

section \<open>Enums\<close>

datatype field_type = T_STRING | T_NUMBER | T_INTEGER | T_BOOLEAN | T_ARRAY | T_OBJECT

datatype std_format = F_DATE | F_DATE_TIME | F_TIME | F_EMAIL | F_URI | F_UUID | F_CURRENCY

datatype validation_rule = R_TYPE | R_PATTERN | R_FORMAT | R_ENUM | R_MINIMUM | R_MAXIMUM | R_VALIDATOR

datatype judge_status = J_PASS | J_FAIL | J_UNCERTAIN

datatype bbox_quality = Q_GOOD | Q_POOR | Q_SUSPICIOUS | Q_INVALID

datatype bbox_source = S_LLM | S_PDF_TEXT | S_OCR

datatype validator_type =
    V_EMAIL | V_URI | V_URL | V_IPV4 | V_IPV6 | V_DOMAIN | V_SLUG
  | V_DATE | V_DATETIME | V_TIME | V_ISO_8601
  | V_UUID | V_JSON | V_HEX_COLOR
  | V_IBAN | V_BIC | V_CREDIT_CARD | V_CURRENCY_CODE | V_AMOUNT
  | V_PHONE_E164 | V_COUNTRY_CODE | V_LANGUAGE_CODE | V_POSTAL_CODE | V_LATITUDE | V_LONGITUDE
  | V_NIF | V_NIE | V_CIF | V_VAT_ID | V_SSN | V_PASSPORT_NUMBER

datatype severity = SEV_ERROR | SEV_WARNING

section \<open>The request schema\<close>

record validator_spec =
  vs_name :: validator_type
  vs_params :: "(string \<times> pyval) list"
  vs_severity :: severity

datatype field_spec = FieldSpec
  (fs_name: string)
  (fs_type: field_type)
  (fs_required: bool)
  (fs_pattern: "string option")
  (fs_format: "std_format option")
  (fs_enum: "pyval list option")
  (fs_minimum: "pyfloat option")
  (fs_maximum: "pyfloat option")
  (fs_items: "field_spec option")
  (fs_fields: "field_spec list option")
  (fs_validators: "validator_spec list")

text \<open>\<open>Field._check_constraints\<close>: the message of the \<open>ValueError\<close>, or \<open>None\<close>.\<close>

datatype field_error = MinAboveMax | ArrayNeedsItems | ArrayHasFields | ObjectNeedsFields
  | ObjectHasItems | PrimitiveHasItems field_type | PrimitiveHasFields field_type

definition check_constraints :: "field_spec \<Rightarrow> field_error option" where
  "check_constraints f =
     (if (case (fs_minimum f, fs_maximum f) of (Some a, Some b) \<Rightarrow> fl_lt b a | _ \<Rightarrow> False)
      then Some MinAboveMax
      else case fs_type f of
        T_ARRAY \<Rightarrow> (if fs_items f = None then Some ArrayNeedsItems
          else if fs_fields f \<noteq> None then Some ArrayHasFields else None)
      | T_OBJECT \<Rightarrow> (if fs_fields f = None \<or> fs_fields f = Some [] then Some ObjectNeedsFields
          else if fs_items f \<noteq> None then Some ObjectHasItems else None)
      | t \<Rightarrow> (if fs_items f \<noteq> None then Some (PrimitiveHasItems t)
          else if fs_fields f \<noteq> None then Some (PrimitiveHasFields t) else None))"

record field_group =
  fg_name :: string
  fg_fields :: "field_spec list"

record doc_type =
  dt_id :: string
  dt_description :: "string option"
  dt_groups :: "field_group list"
  dt_visual_checks :: "string list"

datatype rule_parent =
    RuleFieldParent (rp_doc: string) (rp_fields: "string list")
  | RuleValidatorParent (rp_doc: string) (rp_validator: string)
  | RuleRuleParent (rp_rule: string)

record rule_output =
  ro_type :: string
  ro_valid_outputs :: "string list option"

record rule_spec =
  ru_id :: string
  ru_predicate :: string
  ru_parents :: "rule_parent list"
  ru_output :: rule_output

section \<open>The extraction tree\<close>

record bounding_box =
  bb_xmin :: rat
  bb_ymin :: rat
  bb_xmax :: rat
  bb_ymax :: rat
  bb_quality :: "bbox_quality option"
  bb_score :: rat
  bb_source :: "bbox_source option"
  bb_refinement :: "rat option"

text \<open>\<open>BoundingBox._validate_corners\<close> with the field bounds.\<close>

definition unit_interval :: "rat \<Rightarrow> bool" where
  "unit_interval x \<longleftrightarrow> 0 \<le> x \<and> x \<le> 1"

definition bbox_valid :: "bounding_box \<Rightarrow> bool" where
  "bbox_valid b \<longleftrightarrow> unit_interval (bb_xmin b) \<and> unit_interval (bb_ymin b) \<and> unit_interval (bb_xmax b)
     \<and> unit_interval (bb_ymax b) \<and> bb_xmin b < bb_xmax b \<and> bb_ymin b < bb_ymax b"

record judge_outcome =
  jo_status :: judge_status
  jo_confidence :: rat
  jo_evidence :: "string option"
  jo_notes :: "string option"
  jo_flag :: bool

definition default_judge :: judge_outcome where
  "default_judge = \<lparr>jo_status = J_UNCERTAIN, jo_confidence = 0, jo_evidence = None, jo_notes = None, jo_flag = False\<rparr>"

text \<open>The messages of the field validator, one constructor per f-string template. A checker's
  message quotes the value and says what it is not.\<close>

datatype vmessage =
    NeedNonEmptyStr
  | NotA string pyval
  | OutOfRange string pyfloat
  | UnknownValidator validator_type

datatype fmessage =
    MExpected field_type pyval
  | MInvalidRegex string string
  | MNoMatch pyval string
  | MBadFormat pyval std_format string
  | MNotInEnum pyval "pyval list"
  | MNotNumber pyval
  | MBelow pyval pyfloat
  | MAbove pyval pyfloat
  | MValidator validator_type vmessage bool

record field_validation =
  fv_valid :: bool
  fv_errors :: "(validation_rule \<times> fmessage) list"

definition default_validation :: field_validation where
  "default_validation = \<lparr>fv_valid = True, fv_errors = []\<rparr>"

text \<open>\<open>ExtractedField\<close>: everything but the recursive value is a record.\<close>

record xmeta =
  xm_name :: string
  xm_pages :: "int list"
  xm_confidence :: rat
  xm_bbox :: "bounding_box option"
  xm_validation :: field_validation
  xm_judge :: judge_outcome
  xm_notes :: "string option"
  xm_source :: "string option"

datatype xfield = XField (xf_meta: xmeta) (xf_value: xvalue)
and xvalue = VNone | VStr string | VInt int | VFloat pyfloat | VBool bool | VList "xfield list"

abbreviation xf_name :: "xfield \<Rightarrow> string" where
  "xf_name f \<equiv> xm_name (xf_meta f)"

definition upd_meta :: "(xmeta \<Rightarrow> xmeta) \<Rightarrow> xfield \<Rightarrow> xfield" where
  "upd_meta g f = XField (g (xf_meta f)) (xf_value f)"

definition set_value :: "xvalue \<Rightarrow> xfield \<Rightarrow> xfield" where
  "set_value v f = XField (xf_meta f) v"

lemma upd_meta_simps [simp]:
  "xf_meta (upd_meta g f) = g (xf_meta f)" "xf_value (upd_meta g f) = xf_value f"
  "xf_meta (set_value v f) = xf_meta f" "xf_value (set_value v f) = v"
  by (simp_all add: upd_meta_def set_value_def)

definition rows_of :: "xvalue \<Rightarrow> xfield list" where
  "rows_of v = (case v of VList rs \<Rightarrow> rs | _ \<Rightarrow> [])"

definition is_rows :: "xvalue \<Rightarrow> bool" where
  "is_rows v \<longleftrightarrow> (case v of VList rs \<Rightarrow> True | _ \<Rightarrow> False)"

record xgroup =
  xg_name :: string
  xg_fields :: "xfield list"

definition plain_meta :: "string \<Rightarrow> xmeta" where
  "plain_meta n = \<lparr>xm_name = n, xm_pages = [], xm_confidence = 0, xm_bbox = None, xm_validation = default_validation,
     xm_judge = default_judge, xm_notes = None, xm_source = None\<rparr>"

end
