(* ===== verification/PyRegex.thy ===== *)
theory PyRegex
  imports Prelude
begin

text \<open>
  The regular expressions the code writes as literals (module \<open>re\<close>), as syntax trees with a
  derivative matcher. \<open>re.fullmatch\<close> on such a pattern is membership in its language, which is
  the lemma \<open>fullmatch_lang\<close>; backtracking order does not matter for a full match.
\<close>

section \<open>Patterns\<close>

datatype crange = One char | Rng char char

text \<open>\<open>Cls False\<close> is a class \<open>[...]\<close>, \<open>Cls True\<close> a complemented class \<open>[^...]\<close>;
  \<open>Rep r lo hi\<close> is \<open>r{lo,hi}\<close>, with no upper bound for \<open>None\<close>.\<close>

datatype rx = Nope | Eps | Cls bool "crange list" | Seq rx rx | Alt rx rx | Rep rx nat "nat option"

fun in_crange :: "crange \<Rightarrow> char \<Rightarrow> bool" where
  "in_crange (One a) c = (c = a)"
| "in_crange (Rng a b) c = in_range a b c"

definition in_class :: "crange list \<Rightarrow> char \<Rightarrow> bool" where
  "in_class rs c \<longleftrightarrow> list_ex (\<lambda>r. in_crange r c) rs"

abbreviation "digit_rx \<equiv> Cls False [Rng CHR ''0'' CHR ''9'']"
abbreviation "upper_rx \<equiv> Cls False [Rng CHR ''A'' CHR ''Z'']"
abbreviation "upper_digit_rx \<equiv> Cls False [Rng CHR ''A'' CHR ''Z'', Rng CHR ''0'' CHR ''9'']"
abbreviation "alnum_rx \<equiv> Cls False [Rng CHR ''A'' CHR ''Z'', Rng CHR ''a'' CHR ''z'', Rng CHR ''0'' CHR ''9'']"
abbreviation "space_rx \<equiv> Cls False [Rng CHR 0x09 CHR 0x0D, Rng CHR 0x1C CHR 0x20]"

definition times_rx :: "rx \<Rightarrow> nat \<Rightarrow> rx" where
  "times_rx r n = Rep r n (Some n)"

definition opt_rx :: "rx \<Rightarrow> rx" where
  "opt_rx r = Rep r 0 (Some 1)"

definition plus_rx :: "rx \<Rightarrow> rx" where
  "plus_rx r = Rep r 1 None"

definition star_rx :: "rx \<Rightarrow> rx" where
  "star_rx r = Rep r 0 None"

definition lit_rx :: "char \<Rightarrow> rx" where
  "lit_rx c = Cls False [One c]"

fun seq_rx :: "rx list \<Rightarrow> rx" where
  "seq_rx [] = Eps"
| "seq_rx [r] = r"
| "seq_rx (r # r' # rs) = Seq r (seq_rx (r' # rs))"

section \<open>Languages\<close>

fun power_lang :: "string set \<Rightarrow> nat \<Rightarrow> string set" where
  "power_lang L 0 = {[]}"
| "power_lang L (Suc n) = {u @ v |u v. u \<in> L \<and> v \<in> power_lang L n}"

definition in_bounds :: "nat \<Rightarrow> nat option \<Rightarrow> nat \<Rightarrow> bool" where
  "in_bounds lo hi n \<longleftrightarrow> lo \<le> n \<and> (case hi of None \<Rightarrow> True | Some h \<Rightarrow> n \<le> h)"

fun lang :: "rx \<Rightarrow> string set" where
  "lang Nope = {}"
| "lang Eps = {[]}"
| "lang (Cls neg rs) = {[c] |c. in_class rs c \<noteq> neg}"
| "lang (Seq r q) = {u @ v |u v. u \<in> lang r \<and> v \<in> lang q}"
| "lang (Alt r q) = lang r \<union> lang q"
| "lang (Rep r lo hi) = (\<Union>n\<in>{n. in_bounds lo hi n}. power_lang (lang r) n)"

section \<open>Matching\<close>

fun nullable :: "rx \<Rightarrow> bool" where
  "nullable Nope = False"
| "nullable Eps = True"
| "nullable (Cls neg rs) = False"
| "nullable (Seq r q) = (nullable r \<and> nullable q)"
| "nullable (Alt r q) = (nullable r \<or> nullable q)"
| "nullable (Rep r lo hi) = (in_bounds lo hi lo \<and> (lo = 0 \<or> nullable r))"

fun mk_seq :: "rx \<Rightarrow> rx \<Rightarrow> rx" where
  "mk_seq Nope q = Nope"
| "mk_seq Eps q = q"
| "mk_seq r q = Seq r q"

fun mk_alt :: "rx \<Rightarrow> rx \<Rightarrow> rx" where
  "mk_alt Nope q = q"
| "mk_alt r Nope = r"
| "mk_alt r q = Alt r q"

fun deriv :: "char \<Rightarrow> rx \<Rightarrow> rx" where
  "deriv c Nope = Nope"
| "deriv c Eps = Nope"
| "deriv c (Cls neg rs) = (if in_class rs c \<noteq> neg then Eps else Nope)"
| "deriv c (Seq r q) = (if nullable r then mk_alt (mk_seq (deriv c r) q) (deriv c q) else mk_seq (deriv c r) q)"
| "deriv c (Alt r q) = mk_alt (deriv c r) (deriv c q)"
| "deriv c (Rep r lo hi) = (case hi of
     None \<Rightarrow> mk_seq (deriv c r) (Rep r (lo - 1) None)
   | Some 0 \<Rightarrow> Nope
   | Some (Suc h) \<Rightarrow> mk_seq (deriv c r) (Rep r (lo - 1) (Some h)))"

fun fullmatch :: "rx \<Rightarrow> string \<Rightarrow> bool" where
  "fullmatch r [] = nullable r"
| "fullmatch r (c # cs) = fullmatch (deriv c r) cs"

lemma lang_mk [simp]: "lang (mk_seq r q) = lang (Seq r q)" "lang (mk_alt r q) = lang (Alt r q)"
proof -
  show "lang (mk_seq r q) = lang (Seq r q)" by (cases "(r, q)" rule: mk_seq.cases) auto
  show "lang (mk_alt r q) = lang (Alt r q)" by (cases "(r, q)" rule: mk_alt.cases) auto
qed

lemma power_lang_null: "[] \<in> power_lang L n \<longleftrightarrow> n = 0 \<or> [] \<in> L"
  by (induction n) auto

lemma nullable_lang: "nullable r \<longleftrightarrow> [] \<in> lang r"
proof (induction r)
  case (Rep r lo hi)
  then show ?case by (auto simp: power_lang_null in_bounds_def split: option.splits)
qed auto

lemma power_lang_pad: "[] \<in> L \<Longrightarrow> v \<in> power_lang L n \<Longrightarrow> v \<in> power_lang L (n + k)"
  by (induction k) (auto intro: exI [of _ "[]"])

text \<open>A word of a power that starts with \<open>c\<close> has its first nonempty factor in the derivative.\<close>

lemma power_lang_Cons:
  "(c # w) \<in> power_lang L (Suc n) \<longleftrightarrow> (\<exists>u v. w = u @ v \<and> (c # u) \<in> L \<and> v \<in> power_lang L n)"
proof
  show "c # w \<in> power_lang L (Suc n) \<Longrightarrow> \<exists>u v. w = u @ v \<and> (c # u) \<in> L \<and> v \<in> power_lang L n"
  proof (induction n)
    case 0
    then show ?case by auto
  next
    case (Suc n)
    then obtain x y where xy: "c # w = x @ y" "x \<in> L" "y \<in> power_lang L (Suc n)"
      unfolding power_lang.simps(2) [of L "Suc n"] by blast
    show ?case
    proof (cases x)
      case Nil
      with xy Suc.IH obtain u v where uv: "w = u @ v" "(c # u) \<in> L" "v \<in> power_lang L n" by auto
      moreover have "v \<in> power_lang L (n + 1)" using power_lang_pad [of L v n 1] uv(3) xy(2) Nil by blast
      ultimately show ?thesis by auto
    next
      case (Cons a x')
      with xy show ?thesis by auto
    qed
  qed
next
  assume "\<exists>u v. w = u @ v \<and> (c # u) \<in> L \<and> v \<in> power_lang L n"
  then obtain u v where "w = u @ v" "(c # u) \<in> L" "v \<in> power_lang L n" by blast
  then have "c # w = (c # u) @ v \<and> (c # u) \<in> L \<and> v \<in> power_lang L n" by simp
  then show "c # w \<in> power_lang L (Suc n)" unfolding power_lang.simps by blast
qed

lemma rep_Cons:
  "(c # w) \<in> lang (Rep r lo hi) \<longleftrightarrow> (\<exists>n u v. in_bounds lo hi (Suc n) \<and> w = u @ v \<and> (c # u) \<in> lang r \<and> v \<in> power_lang (lang r) n)"
proof -
  have "c # w \<notin> power_lang (lang r) 0" by simp
  then have "(c # w) \<in> lang (Rep r lo hi) \<longleftrightarrow> (\<exists>n. in_bounds lo hi (Suc n) \<and> c # w \<in> power_lang (lang r) (Suc n))"
    by (metis (mono_tags, lifting) UN_iff lang.simps(6) mem_Collect_eq not0_implies_Suc)
  then show ?thesis unfolding power_lang_Cons by blast
qed

lemma in_bounds_Suc:
  "in_bounds lo None (Suc n) = in_bounds (lo - 1) None n"
  "in_bounds lo (Some (Suc h)) (Suc n) = in_bounds (lo - 1) (Some h) n"
  "\<not> in_bounds lo (Some 0) (Suc n)"
  by (auto simp: in_bounds_def)

lemma lang_deriv: "w \<in> lang (deriv c r) \<longleftrightarrow> (c # w) \<in> lang r"
proof (induction r arbitrary: w)
  case (Seq r q)
  have "(c # w) \<in> lang (Seq r q) \<longleftrightarrow> (\<exists>u v. w = u @ v \<and> (c # u) \<in> lang r \<and> v \<in> lang q) \<or> ([] \<in> lang r \<and> (c # w) \<in> lang q)"
    by (auto simp: Cons_eq_append_conv)
  with Seq show ?case by (auto simp: nullable_lang)
next
  case (Rep r lo hi)
  show ?case
  proof (cases hi)
    case None
    then show ?thesis unfolding rep_Cons using Rep by (auto simp: in_bounds_Suc)
  next
    case (Some h)
    then show ?thesis unfolding rep_Cons using Rep by (cases h) (auto simp: in_bounds_Suc)
  qed
qed auto

theorem fullmatch_lang: "fullmatch r s \<longleftrightarrow> s \<in> lang r"
  by (induction s arbitrary: r) (auto simp: nullable_lang lang_deriv)

section \<open>Fixed-width patterns\<close>

lemma power_lang_cls: "power_lang (lang (Cls neg rs)) n = {s. length s = n \<and> (\<forall>c\<in>set s. in_class rs c \<noteq> neg)}"
proof (induction n)
  case (Suc n)
  show ?case
  proof (intro set_eqI iffI)
    fix s assume "s \<in> power_lang (lang (Cls neg rs)) (Suc n)"
    then show "s \<in> {s. length s = Suc n \<and> (\<forall>c\<in>set s. in_class rs c \<noteq> neg)}" using Suc by auto
  next
    fix s :: string assume s: "s \<in> {s. length s = Suc n \<and> (\<forall>c\<in>set s. in_class rs c \<noteq> neg)}"
    then obtain c t where "s = c # t" by (cases s) auto
    with s Suc show "s \<in> power_lang (lang (Cls neg rs)) (Suc n)" unfolding \<open>s = c # t\<close> power_lang_Cons by auto
  qed
qed auto

lemma lang_cls [simp]: "s \<in> lang (Cls neg rs) \<longleftrightarrow> (\<exists>c. s = [c] \<and> in_class rs c \<noteq> neg)"
  by auto

lemma lang_times_cls:
  "s \<in> lang (times_rx (Cls neg rs) n) \<longleftrightarrow> length s = n \<and> (\<forall>c\<in>set s. in_class rs c \<noteq> neg)"
proof -
  have "lang (times_rx (Cls neg rs) n) = power_lang (lang (Cls neg rs)) n"
    by (auto simp: times_rx_def in_bounds_def)
  then show ?thesis unfolding power_lang_cls by simp
qed

lemma lang_rep_cls:
  "s \<in> lang (Rep (Cls neg rs) lo hi) \<longleftrightarrow> in_bounds lo hi (length s) \<and> (\<forall>c\<in>set s. in_class rs c \<noteq> neg)"
  unfolding lang.simps(6) power_lang_cls by auto

lemma fullmatch_seq_times:
  "fullmatch (Seq (times_rx (Cls neg rs) n) q) s \<longleftrightarrow>
     n \<le> length s \<and> (\<forall>c\<in>set (take n s). in_class rs c \<noteq> neg) \<and> fullmatch q (drop n s)"
proof -
  have "s \<in> lang (Seq (times_rx (Cls neg rs) n) q) \<longleftrightarrow>
      (\<exists>u v. s = u @ v \<and> length u = n \<and> (\<forall>c\<in>set u. in_class rs c \<noteq> neg) \<and> v \<in> lang q)"
    by (auto simp: lang_times_cls simp del: lang.simps(3))
  also have "\<dots> \<longleftrightarrow> n \<le> length s \<and> (\<forall>c\<in>set (take n s). in_class rs c \<noteq> neg) \<and> drop n s \<in> lang q"
  proof
    assume "n \<le> length s \<and> (\<forall>c\<in>set (take n s). in_class rs c \<noteq> neg) \<and> drop n s \<in> lang q"
    then show "\<exists>u v. s = u @ v \<and> length u = n \<and> (\<forall>c\<in>set u. in_class rs c \<noteq> neg) \<and> v \<in> lang q"
      by (intro exI [of _ "take n s"] exI [of _ "drop n s"]) auto
  qed auto
  finally show ?thesis by (simp add: fullmatch_lang)
qed

lemma fullmatch_seq_cls:
  "fullmatch (Seq (Cls neg rs) q) s \<longleftrightarrow> (case s of [] \<Rightarrow> False | c # t \<Rightarrow> in_class rs c \<noteq> neg \<and> fullmatch q t)"
proof -
  have "\<not> fullmatch Nope t" for t by (induction t) auto
  then show ?thesis by (cases s) auto
qed

lemma fullmatch_cls: "fullmatch (Cls neg rs) s \<longleftrightarrow> (\<exists>c. s = [c] \<and> in_class rs c \<noteq> neg)"
  by (simp add: fullmatch_lang)

lemma fullmatch_times_cls:
  "fullmatch (times_rx (Cls neg rs) n) s \<longleftrightarrow> length s = n \<and> (\<forall>c\<in>set s. in_class rs c \<noteq> neg)"
  by (simp only: fullmatch_lang lang_times_cls)

lemma fullmatch_rep_cls:
  "fullmatch (Rep (Cls neg rs) lo hi) s \<longleftrightarrow> in_bounds lo hi (length s) \<and> (\<forall>c\<in>set s. in_class rs c \<noteq> neg)"
  by (simp only: fullmatch_lang lang_rep_cls)

lemmas fixed_width = fullmatch_seq_times fullmatch_seq_cls fullmatch_cls fullmatch_times_cls fullmatch_rep_cls

text \<open>A concrete match is evaluated by \<open>code_simp\<close>, a symbolic one by the lemmas above.\<close>

declare fullmatch.simps [simp del]

lemma digit_class [simp]: "in_class [Rng CHR ''0'' CHR ''9''] c = is_digit c"
  by (simp add: in_class_def in_range_def is_digit_def code_point_def)

lemma upper_class [simp]: "in_class [Rng CHR ''A'' CHR ''Z''] c = is_upper_ascii c"
  by (simp add: in_class_def in_range_def is_upper_ascii_def code_point_def)

lemma upper_digit_class [simp]:
  "in_class [Rng CHR ''A'' CHR ''Z'', Rng CHR ''0'' CHR ''9''] c = (is_upper_ascii c \<or> is_digit c)"
  by (simp add: in_class_def in_range_def is_upper_ascii_def is_digit_def code_point_def)

end
