(* ===== verification/PyText.thy ===== *)
theory PyText
  imports Domain PyRegex
begin

text \<open>
  The parts of the Python standard library the field checks call on text: \<open>split\<close>, \<open>replace\<close>,
  \<open>float\<close>, \<open>ipaddress\<close>, \<open>uuid.UUID\<close>, the calendar dates of \<open>date.fromisoformat\<close> and
  \<open>strptime\<close>. What a call needs of the rest (\<open>str\<close> of a float or a list, \<open>re.compile\<close> of a pattern
  of the request, \<open>urlparse\<close>, \<open>json\<close>, ISO datetimes and times) is an argument, the record \<open>pylib\<close>.
\<close>

section \<open>Exceptions\<close>

datatype pyexn = ValueErr | TypeErr | AttributeErr | OverflowErr | OtherExn string

type_synonym 'a res = "pyexn + 'a"

text \<open>A comprehension or loop whose body may raise: the first exception ends it.\<close>

fun map_res :: "('a \<Rightarrow> 'b res) \<Rightarrow> 'a list \<Rightarrow> 'b list res" where
  "map_res f [] = Inr []"
| "map_res f (x # xs) = (case f x of Inl e \<Rightarrow> Inl e
     | Inr y \<Rightarrow> (case map_res f xs of Inl e \<Rightarrow> Inl e | Inr ys \<Rightarrow> Inr (y # ys)))"

lemma map_res_Inr: "map_res f xs = Inr ys \<longleftrightarrow> list_all2 (\<lambda>x y. f x = Inr y) xs ys"
proof (induction xs arbitrary: ys)
  case (Cons x xs)
  show ?case
  proof (cases "map_res f xs")
    case (Inl e)
    with Cons.IH show ?thesis by (auto simp: list_all2_Cons1 split: sum.splits)
  next
    case (Inr zs)
    then have "list_all2 (\<lambda>x y. f x = Inr y) xs us \<longleftrightarrow> us = zs" for us using Cons.IH [of us] by auto
    with Inr show ?thesis by (auto simp: list_all2_Cons1 split: sum.splits)
  qed
qed auto

lemma map_res_Inl: "map_res f xs = Inl e \<Longrightarrow> \<exists>x\<in>set xs. f x = Inl e"
  by (induction xs) (auto split: sum.splits)

lemma map_res_cong [fundef_cong]:
  "xs = ys \<Longrightarrow> (\<And>x. x \<in> set ys \<Longrightarrow> f x = g x) \<Longrightarrow> map_res f xs = map_res g ys"
  by (induction ys arbitrary: xs) (auto split: sum.splits)

section \<open>Splitting and replacing\<close>

fun split_on :: "char \<Rightarrow> string \<Rightarrow> string list" where
  "split_on d [] = [[]]"
| "split_on d (c # cs) = (if c = d then [] # split_on d cs
     else (case split_on d cs of [] \<Rightarrow> [[c]] | w # ws \<Rightarrow> (c # w) # ws))"

lemma split_on_not_Nil [simp]: "split_on d s \<noteq> []"
  by (cases s) (auto split: list.split)

definition remove_chars :: "string \<Rightarrow> string \<Rightarrow> string" where
  "remove_chars cs s = filter (\<lambda>c. c \<notin> set cs) s"

text \<open>\<open>s.replace(sub, "")\<close> for a nonempty \<open>sub\<close>.\<close>

function py_delete :: "string \<Rightarrow> string \<Rightarrow> string" where
  "py_delete sub [] = []"
| "py_delete sub (c # cs) = (if sub \<noteq> [] \<and> starts_with (c # cs) sub then py_delete sub (drop (length sub) (c # cs))
     else c # py_delete sub cs)"
  by pat_completeness auto
termination by (relation "measure (\<lambda>(sub, s). length s)") (auto simp: length_greater_0_conv [symmetric] simp del: length_greater_0_conv)

definition strip_chars :: "string \<Rightarrow> string \<Rightarrow> string" where
  "strip_chars cs s = rev (dropWhile (\<lambda>c. c \<in> set cs) (rev (dropWhile (\<lambda>c. c \<in> set cs) s)))"

definition is_hex :: "char \<Rightarrow> bool" where
  "is_hex c \<longleftrightarrow> is_digit c \<or> in_range CHR ''a'' CHR ''f'' c \<or> in_range CHR ''A'' CHR ''F'' c"

text \<open>Digits with single underscores between them, the form \<open>int\<close> and \<open>float\<close> accept.\<close>

fun grouped :: "(char \<Rightarrow> bool) \<Rightarrow> string \<Rightarrow> bool" where
  "grouped P [] = False"
| "grouped P [c] = P c"
| "grouped P (c # d # cs) = (P c \<and> (if d = CHR ''_'' then grouped P cs else grouped P (d # cs)))"

section \<open>Numbers\<close>

text \<open>The largest magnitude below which the conversion to a double stays finite.\<close>

definition float_limit :: rat where
  "float_limit = 2 ^ 1024 - 2 ^ 970"

definition round_float :: "rat \<Rightarrow> pyfloat" where
  "round_float q = (if q \<ge> float_limit then PosInf else if q \<le> - float_limit then NegInf else Fin q)"

definition split_sign :: "string \<Rightarrow> bool \<times> string" where
  "split_sign s = (case s of [] \<Rightarrow> (False, [])
     | c # cs \<Rightarrow> if c = CHR ''-'' then (True, cs) else if c = CHR ''+'' then (False, cs) else (False, s))"

definition split_first :: "(char \<Rightarrow> bool) \<Rightarrow> string \<Rightarrow> string \<times> string option" where
  "split_first P s = (let a = takeWhile (\<lambda>c. \<not> P c) s; b = dropWhile (\<lambda>c. \<not> P c) s in
     (a, case b of [] \<Rightarrow> None | _ # t \<Rightarrow> Some t))"

definition group_value :: "string \<Rightarrow> nat" where
  "group_value s = int_of_str (remove_chars ''_'' s)"

definition digit_count :: "string \<Rightarrow> nat" where
  "digit_count s = length (remove_chars ''_'' s)"

text \<open>The mantissa \<open>digits [. digits]\<close> or \<open>. digits\<close>, as an exact number.\<close>

definition parse_mantissa :: "string \<Rightarrow> rat option" where
  "parse_mantissa s = (case split_first (\<lambda>c. c = CHR ''.'') s of
     (a, None) \<Rightarrow> if grouped is_digit a then Some (of_nat (group_value a)) else None
   | (a, Some b) \<Rightarrow>
       if (a = [] \<or> grouped is_digit a) \<and> (b = [] \<or> grouped is_digit b) \<and> (a \<noteq> [] \<or> b \<noteq> [])
       then Some (of_nat (group_value a) + of_nat (group_value b) / 10 ^ digit_count b) else None)"

definition parse_exponent :: "string \<Rightarrow> int option" where
  "parse_exponent s = (let (neg, d) = split_sign s in
     if grouped is_digit d then Some (if neg then - int (group_value d) else int (group_value d)) else None)"

definition scale10 :: "rat \<Rightarrow> int \<Rightarrow> rat" where
  "scale10 q e = (if 0 \<le> e then q * 10 ^ nat e else q / 10 ^ nat (- e))"

text \<open>\<open>float(s)\<close>: \<open>None\<close> is the \<open>ValueError\<close>.\<close>

definition float_of_str :: "string \<Rightarrow> pyfloat option" where
  "float_of_str s0 = (let (neg, s) = split_sign (py_strip s0); l = py_lower s in
     if l = ''inf'' \<or> l = ''infinity'' then Some (if neg then NegInf else PosInf)
     else if l = ''nan'' then Some NaN
     else (case split_first (\<lambda>c. c = CHR ''e'' \<or> c = CHR ''E'') s of
        (m, eo) \<Rightarrow> (case (parse_mantissa m, case eo of None \<Rightarrow> Some 0 | Some e \<Rightarrow> parse_exponent e) of
           (Some q, Some e) \<Rightarrow> Some (round_float (scale10 (if neg then - q else q) e))
         | _ \<Rightarrow> None)))"

text \<open>\<open>float(v)\<close> of a field value. An integer too large for a double raises \<open>OverflowError\<close>.\<close>

definition float_of :: "xvalue \<Rightarrow> pyfloat res" where
  "float_of v = (case v of
     VFloat f \<Rightarrow> Inr f
   | VInt i \<Rightarrow> (if \<bar>of_int i\<bar> < float_limit then Inr (Fin (of_int i)) else Inl OverflowErr)
   | VBool b \<Rightarrow> Inr (Fin (if b then 1 else 0))
   | VStr s \<Rightarrow> (case float_of_str s of Some f \<Rightarrow> Inr f | None \<Rightarrow> Inl ValueErr)
   | _ \<Rightarrow> Inl TypeErr)"

section \<open>Internet addresses\<close>

definition ipv4_octet :: "string \<Rightarrow> bool" where
  "ipv4_octet o' \<longleftrightarrow> o' \<noteq> [] \<and> list_all is_digit o' \<and> length o' \<le> 3
     \<and> (o' = ''0'' \<or> hd o' \<noteq> CHR ''0'') \<and> int_of_str o' \<le> 255"

definition ipv4_ok :: "string \<Rightarrow> bool" where
  "ipv4_ok s \<longleftrightarrow> CHR ''/'' \<notin> set s \<and> length (split_on CHR ''.'' s) = 4 \<and> list_all ipv4_octet (split_on CHR ''.'' s)"

definition hextet :: "string \<Rightarrow> bool" where
  "hextet h \<longleftrightarrow> h \<noteq> [] \<and> list_all is_hex h \<and> length h \<le> 4"

text \<open>The parts of an address after an IPv4 suffix has become two hextets.\<close>

definition ipv6_parts :: "string \<Rightarrow> string list option" where
  "ipv6_parts s = (let ps = split_on CHR '':'' s in
     if length ps < 3 then None
     else if CHR ''.'' \<in> set (last ps) then (if ipv4_ok (last ps) then Some (butlast ps @ [''0'', ''0'']) else None)
     else Some ps)"

definition ipv6_hextets :: "string list \<Rightarrow> bool" where
  "ipv6_hextets ps = (let n = length ps; gaps = filter (\<lambda>i. ps ! i = []) [1..<n - 1] in
     n \<le> 9 \<and> (case gaps of
       [] \<Rightarrow> n = 8 \<and> list_all hextet ps
     | [k] \<Rightarrow> (let hi = (if ps ! 0 = [] then k - 1 else k);
                  lo = (if last ps = [] then n - k - 2 else n - k - 1) in
           (ps ! 0 = [] \<longrightarrow> hi = 0) \<and> (last ps = [] \<longrightarrow> lo = 0) \<and> hi + lo < 8
           \<and> list_all hextet (take hi ps) \<and> list_all hextet (drop (n - lo) ps))
     | _ \<Rightarrow> False))"

definition ipv6_ok :: "string \<Rightarrow> bool" where
  "ipv6_ok s = (case split_first (\<lambda>c. c = CHR ''%'') s of (a, sc) \<Rightarrow>
     CHR ''/'' \<notin> set s \<and> (case sc of None \<Rightarrow> True | Some z \<Rightarrow> z \<noteq> [] \<and> CHR ''%'' \<notin> set z)
     \<and> (case ipv6_parts a of None \<Rightarrow> False | Some ps \<Rightarrow> ipv6_hextets ps))"

section \<open>UUIDs\<close>

text \<open>\<open>int(h, 16)\<close> succeeds.\<close>

definition hex_int_ok :: "string \<Rightarrow> bool" where
  "hex_int_ok h = (let d = snd (split_sign (py_strip h)) in
     if starts_with (py_lower d) ''0x'' then
       (let e = drop 2 d in grouped is_hex (if starts_with e ''_'' then drop 1 e else e))
     else grouped is_hex d)"

definition uuid_ok :: "string \<Rightarrow> bool" where
  "uuid_ok s = (let h = remove_chars ''-'' (strip_chars ''{}'' (py_delete ''uuid:'' (py_delete ''urn:'' s))) in
     length h = 32 \<and> hex_int_ok h)"

section \<open>Dates\<close>

definition leap :: "nat \<Rightarrow> bool" where
  "leap y \<longleftrightarrow> y mod 4 = 0 \<and> (y mod 100 \<noteq> 0 \<or> y mod 400 = 0)"

definition month_days :: "nat \<Rightarrow> nat \<Rightarrow> nat" where
  "month_days y m = (if m = 2 then (if leap y then 29 else 28) else if m \<in> {4, 6, 9, 11} then 30 else 31)"

definition calendar_ok :: "nat \<Rightarrow> nat \<Rightarrow> nat \<Rightarrow> bool" where
  "calendar_ok y m d \<longleftrightarrow> 1 \<le> y \<and> y \<le> 9999 \<and> 1 \<le> m \<and> m \<le> 12 \<and> 1 \<le> d \<and> d \<le> month_days y m"

text \<open>Days before the first of January of a year, and the weekday of that day (Monday is 0).\<close>

definition days_before_year :: "nat \<Rightarrow> nat" where
  "days_before_year y = (y - 1) * 365 + (y - 1) div 4 - (y - 1) div 100 + (y - 1) div 400"

definition first_weekday :: "nat \<Rightarrow> nat" where
  "first_weekday y = days_before_year y mod 7"

definition iso_weeks :: "nat \<Rightarrow> nat" where
  "iso_weeks y = (if first_weekday y = 3 \<or> (first_weekday y = 2 \<and> leap y) then 53 else 52)"

text \<open>Week dates name a day of the proleptic calendar; only the ends of the range can fall outside it.
  Year 1 starts on a Monday and 9999-W52-5 is the last day of 9999.\<close>

definition week_ok :: "nat \<Rightarrow> nat \<Rightarrow> nat \<Rightarrow> bool" where
  "week_ok y w d \<longleftrightarrow> 1 \<le> y \<and> y \<le> 9999 \<and> 1 \<le> w \<and> w \<le> iso_weeks y \<and> 1 \<le> d \<and> d \<le> 7
     \<and> \<not> (y = 9999 \<and> w = 52 \<and> 5 < d)"

definition num_at :: "nat \<Rightarrow> nat \<Rightarrow> string \<Rightarrow> nat" where
  "num_at i n s = int_of_str (take n (drop i s))"

text \<open>\<open>date.fromisoformat\<close>: the calendar and week forms the library documents.\<close>

definition iso_date_ok :: "string \<Rightarrow> bool" where
  "iso_date_ok s =
    (let D = times_rx digit_rx; dash = lit_rx CHR ''-''; W = lit_rx CHR ''W'' in
     if fullmatch (seq_rx [D 4, dash, D 2, dash, D 2]) s then calendar_ok (num_at 0 4 s) (num_at 5 2 s) (num_at 8 2 s)
     else if fullmatch (D 8) s then calendar_ok (num_at 0 4 s) (num_at 4 2 s) (num_at 6 2 s)
     else if fullmatch (seq_rx [D 4, dash, W, D 2]) s then week_ok (num_at 0 4 s) (num_at 6 2 s) 1
     else if fullmatch (seq_rx [D 4, W, D 2]) s then week_ok (num_at 0 4 s) (num_at 5 2 s) 1
     else if fullmatch (seq_rx [D 4, dash, W, D 2, dash, D 1]) s then week_ok (num_at 0 4 s) (num_at 6 2 s) (num_at 9 1 s)
     else if fullmatch (seq_rx [D 4, W, D 3]) s then week_ok (num_at 0 4 s) (num_at 5 2 s) (num_at 7 1 s)
     else False)"

text \<open>
  \<open>datetime.strptime(s, "%Y-%m-%d")\<close>: the directives match a prefix of the text (month and day with
  one or two digits, the longer first); text left over, and a day the month does not have, are
  errors of their own. The result is the text of the \<open>ValueError\<close>, without the quoted input.
\<close>

definition strp_month :: "string \<Rightarrow> (nat \<times> string) option" where
  "strp_month s = (case s of
     a # b # t \<Rightarrow> if (a = CHR ''1'' \<and> b \<in> set ''012'') \<or> (a = CHR ''0'' \<and> in_range CHR ''1'' CHR ''9'' b)
                  then Some (int_of_str [a, b], t)
                  else if in_range CHR ''1'' CHR ''9'' a then Some (int_of_str [a], b # t) else None
   | _ \<Rightarrow> None)"

definition strp_day :: "string \<Rightarrow> (nat \<times> string) option" where
  "strp_day s = (case s of
     [] \<Rightarrow> None
   | [a] \<Rightarrow> if in_range CHR ''1'' CHR ''9'' a then Some (int_of_str [a], []) else None
   | a # b # t \<Rightarrow> if (a = CHR ''3'' \<and> b \<in> set ''01'') \<or> (a \<in> set ''12'' \<and> is_digit b)
                     \<or> (a = CHR ''0'' \<and> in_range CHR ''1'' CHR ''9'' b)
                  then Some (int_of_str [a, b], t)
                  else if in_range CHR ''1'' CHR ''9'' a then Some (int_of_str [a], b # t)
                  else if a = CHR '' '' \<and> in_range CHR ''1'' CHR ''9'' b then Some (int_of_str [b], t) else None)"

definition strptime_error :: "string \<Rightarrow> string option" where
  "strptime_error s =
    (let mismatch = Some ''time data does not match the format'' in
     if fullmatch (times_rx digit_rx 4) (take 4 s) \<and> take 1 (drop 4 s) = ''-'' then
       (case strp_month (drop 5 s) of
          Some (m, dash # t) \<Rightarrow> if dash \<noteq> CHR ''-'' then mismatch else (case strp_day t of
             None \<Rightarrow> mismatch
           | Some (d, rest) \<Rightarrow> if rest \<noteq> [] then Some (''unconverted data remains: '' @ rest)
              else if calendar_ok (num_at 0 4 s) m d then None else Some ''day is out of range for month'')
        | _ \<Rightarrow> mismatch)
     else mismatch)"

section \<open>Library functions that stay arguments\<close>

text \<open>\<open>pl_str\<close> is \<open>str\<close> of floats and lists; \<open>pl_compile\<close> gives the text of the \<open>re.error\<close> or the
  \<open>fullmatch\<close> of the compiled pattern; \<open>pl_urlparse\<close> is \<open>None\<close> where it raises \<open>ValueError\<close>,
  otherwise scheme and netloc; \<open>pl_datetime\<close> and \<open>pl_time\<close> give the text of the \<open>ValueError\<close> or
  \<open>None\<close>; \<open>pl_json\<close> says whether \<open>json.loads\<close> accepts.\<close>

record pylib =
  pl_str :: "xvalue \<Rightarrow> string"
  pl_compile :: "string \<Rightarrow> string + (string \<Rightarrow> bool)"
  pl_urlparse :: "string \<Rightarrow> (string \<times> string) option"
  pl_datetime :: "string \<Rightarrow> string option"
  pl_time :: "string \<Rightarrow> string option"
  pl_json :: "string \<Rightarrow> bool"

definition py_str :: "pylib \<Rightarrow> xvalue \<Rightarrow> string" where
  "py_str L v = (case v of
     VNone \<Rightarrow> ''None''
   | VStr s \<Rightarrow> s
   | VInt i \<Rightarrow> str_of_int i
   | VBool b \<Rightarrow> (if b then ''True'' else ''False'')
   | _ \<Rightarrow> pl_str L v)"

text \<open>The value a message quotes; a nested field is shown by its name and value.\<close>

primrec py_of :: "xvalue \<Rightarrow> pyval" and py_field :: "xfield \<Rightarrow> pyval" where
  "py_of VNone = PNone"
| "py_of (VStr s) = PStr s"
| "py_of (VInt i) = PInt i"
| "py_of (VFloat f) = PFloat f"
| "py_of (VBool b) = PBool b"
| "py_of (VList fs) = PList (map py_field fs)"
| "py_field (XField m v) = PDict [(''name'', PStr (xm_name m)), (''value'', py_of v)]"

end
