(* ===== verification/Validators.thy ===== *)
theory Validators
  imports PyText
begin

text \<open>
  The catalogue of \<open>core/services/validation/validator_registry.py\<close>: one checker per
  \<open>ValidatorType\<close>, a function of the value and the parameters that returns no message on success.
  A checker that lets an exception of a library call escape is an \<open>Inl\<close>.
\<close>

section \<open>Helpers\<close>

type_synonym check = "vmessage option res"

abbreviation pass :: check where
  "pass \<equiv> Inr None"

definition reject :: "vmessage \<Rightarrow> check" where
  "reject m = Inr (Some m)"

definition accept_if :: "bool \<Rightarrow> string \<Rightarrow> xvalue \<Rightarrow> check" where
  "accept_if ok what v = (if ok then pass else reject (NotA what (py_of v)))"

text \<open>\<open>_need_str\<close>\<close>

definition need_str :: "xvalue \<Rightarrow> string option" where
  "need_str v = (case v of VStr s \<Rightarrow> if py_strip s = [] then None else Some (py_strip s) | _ \<Rightarrow> None)"

definition on_str :: "xvalue \<Rightarrow> (string \<Rightarrow> check) \<Rightarrow> check" where
  "on_str v k = (case need_str v of None \<Rightarrow> reject NeedNonEmptyStr | Some s \<Rightarrow> k s)"

text \<open>\<open>(params.get("country") or default).upper()\<close>: a truthy value that is no string raises.\<close>

definition country_param :: "(string \<times> pyval) list \<Rightarrow> string \<Rightarrow> string res" where
  "country_param ps default' = (let v = dict_get ps ''country'' in
     if truthy v then (case v of PStr s \<Rightarrow> Inr (py_upper s) | _ \<Rightarrow> Inl AttributeErr) else Inr (py_upper default'))"

definition flag_param :: "(string \<times> pyval) list \<Rightarrow> string \<Rightarrow> bool" where
  "flag_param ps k = truthy (dict_get ps k)"

text \<open>\<open>re.IGNORECASE\<close> on the letter ranges of a pattern.\<close>

fun other_case :: "crange \<Rightarrow> crange list" where
  "other_case (One a) = [One (lower_char a), One (upper_char a)]"
| "other_case (Rng a b) = (if is_upper_ascii a \<and> is_upper_ascii b then [Rng (lower_char a) (lower_char b)]
     else if is_lower_ascii a \<and> is_lower_ascii b then [Rng (upper_char a) (upper_char b)] else [])"

primrec nocase :: "rx \<Rightarrow> rx" where
  "nocase Nope = Nope"
| "nocase Eps = Eps"
| "nocase (Cls neg rs) = Cls neg (rs @ concat (map other_case rs))"
| "nocase (Seq r q) = Seq (nocase r) (nocase q)"
| "nocase (Alt r q) = Alt (nocase r) (nocase q)"
| "nocase (Rep r lo hi) = Rep (nocase r) lo hi"

section \<open>Network and web\<close>

definition email_rx :: rx where
  "email_rx = seq_rx
     [plus_rx (Cls False [Rng CHR ''A'' CHR ''Z'', Rng CHR ''a'' CHR ''z'', Rng CHR ''0'' CHR ''9'',
        One CHR ''.'', One CHR ''_'', One CHR ''%'', One CHR ''+'', One CHR ''-'']),
      lit_rx CHR ''@'',
      plus_rx (Cls False [Rng CHR ''A'' CHR ''Z'', Rng CHR ''a'' CHR ''z'', Rng CHR ''0'' CHR ''9'', One CHR ''.'', One CHR ''-'']),
      lit_rx CHR ''.'',
      Rep (Cls False [Rng CHR ''A'' CHR ''Z'', Rng CHR ''a'' CHR ''z'']) 2 None]"

definition check_email :: "xvalue \<Rightarrow> check" where
  "check_email v = on_str v (\<lambda>s. accept_if (fullmatch email_rx s) ''valid email address'' v)"

text \<open>\<open>urlparse\<close> is called outside any \<open>try\<close>.\<close>

definition check_uri :: "pylib \<Rightarrow> xvalue \<Rightarrow> check" where
  "check_uri L v = on_str v (\<lambda>s. case pl_urlparse L s of
     None \<Rightarrow> Inl ValueErr
   | Some (scheme, netloc) \<Rightarrow> accept_if (scheme \<noteq> [] \<and> netloc \<noteq> []) ''valid URI (missing scheme or host)'' v)"

definition label_rx :: rx where
  "label_rx = Seq alnum_rx (opt_rx (Seq
     (Rep (Cls False [Rng CHR ''A'' CHR ''Z'', Rng CHR ''a'' CHR ''z'', Rng CHR ''0'' CHR ''9'', One CHR ''-'']) 0 (Some 61))
     alnum_rx))"

text \<open>The lookahead \<open>(?=.{1,253}\Z)\<close> is a condition of its own; a dot matches all but a newline.\<close>

definition check_domain :: "xvalue \<Rightarrow> check" where
  "check_domain v = on_str v (\<lambda>s. accept_if
     (1 \<le> length s \<and> length s \<le> 253 \<and> CHR 0x0A \<notin> set s
      \<and> fullmatch (Seq label_rx (plus_rx (Seq (lit_rx CHR ''.'') label_rx))) s) ''valid domain name'' v)"

definition check_slug :: "xvalue \<Rightarrow> check" where
  "check_slug v = on_str v (\<lambda>s. accept_if
     (let w = plus_rx (Cls False [Rng CHR ''a'' CHR ''z'', Rng CHR ''0'' CHR ''9'']) in
      fullmatch (Seq w (star_rx (Seq (lit_rx CHR ''-'') w))) s) ''valid slug'' v)"

definition check_ipv4 :: "pylib \<Rightarrow> xvalue \<Rightarrow> check" where
  "check_ipv4 L v = accept_if (ipv4_ok (py_str L v)) ''valid IPv4 address'' v"

definition check_ipv6 :: "pylib \<Rightarrow> xvalue \<Rightarrow> check" where
  "check_ipv6 L v = accept_if (ipv6_ok (py_str L v)) ''valid IPv6 address'' v"

section \<open>Dates and times\<close>

definition check_date :: "pylib \<Rightarrow> xvalue \<Rightarrow> check" where
  "check_date L v = accept_if (iso_date_ok (py_str L v)) ''valid ISO date (YYYY-MM-DD)'' v"

definition check_datetime :: "pylib \<Rightarrow> xvalue \<Rightarrow> check" where
  "check_datetime L v = accept_if (pl_datetime L (py_str L v) = None) ''valid ISO datetime'' v"

definition check_time :: "pylib \<Rightarrow> xvalue \<Rightarrow> check" where
  "check_time L v = accept_if (pl_time L (py_str L v) = None) ''valid ISO time'' v"

section \<open>Identifiers and encodings\<close>

definition check_uuid :: "pylib \<Rightarrow> xvalue \<Rightarrow> check" where
  "check_uuid L v = accept_if (uuid_ok (py_str L v)) ''valid UUID'' v"

definition check_json :: "pylib \<Rightarrow> xvalue \<Rightarrow> check" where
  "check_json L v = (if is_rows v then pass else accept_if (pl_json L (py_str L v)) ''valid JSON'' v)"

definition check_hex_color :: "xvalue \<Rightarrow> check" where
  "check_hex_color v = on_str v (\<lambda>s. accept_if
     (let h = Cls False [Rng CHR ''0'' CHR ''9'', Rng CHR ''a'' CHR ''f'', Rng CHR ''A'' CHR ''F''] in
      fullmatch (Seq (opt_rx (lit_rx CHR ''#'')) (Alt (times_rx h 3) (Alt (times_rx h 6) (times_rx h 8)))) s)
     ''valid hex colour'' v)"

section \<open>Finance\<close>

text \<open>\<open>int(c, 36)\<close> of an upper case letter.\<close>

definition letter_value :: "char \<Rightarrow> nat" where
  "letter_value c = code_point c - 55"

definition iban_rx :: rx where
  "iban_rx = seq_rx [times_rx upper_rx 2, times_rx digit_rx 2, Rep upper_digit_rx 10 (Some 30)]"

definition iban_candidate :: "string \<Rightarrow> string" where
  "iban_candidate s = py_upper (filter (\<lambda>c. \<not> is_space c) s)"

definition iban_numeric :: "string \<Rightarrow> string" where
  "iban_numeric cand = concat (map (\<lambda>c. if is_alpha c then str_of_nat (letter_value c) else [c]) (drop 4 cand @ take 4 cand))"

definition check_iban :: "xvalue \<Rightarrow> check" where
  "check_iban v = on_str v (\<lambda>s. let cand = iban_candidate s in
     if \<not> fullmatch iban_rx cand then reject (NotA ''syntactically valid IBAN'' (py_of v))
     else if int_of_str (iban_numeric cand) mod 97 \<noteq> 1 then reject (NotA ''IBAN with a valid checksum'' (py_of v))
     else pass)"

definition check_bic :: "xvalue \<Rightarrow> check" where
  "check_bic v = on_str v (\<lambda>s. accept_if
     (fullmatch (seq_rx [times_rx upper_rx 4, times_rx upper_rx 2, times_rx upper_digit_rx 2,
        opt_rx (times_rx upper_digit_rx 3)]) (py_upper s)) ''valid BIC/SWIFT code'' v)"

definition luhn_term :: "nat \<Rightarrow> nat \<Rightarrow> nat \<Rightarrow> nat" where
  "luhn_term parity i d = (if i mod 2 = parity then (if 9 < d * 2 then d * 2 - 9 else d * 2) else d)"

definition luhn_sum :: "nat list \<Rightarrow> nat" where
  "luhn_sum ds = sum_list (map (\<lambda>(i, d). luhn_term (length ds mod 2) i d) (enumerate 0 ds))"

definition check_credit_card :: "pylib \<Rightarrow> xvalue \<Rightarrow> check" where
  "check_credit_card L v = (let raw = filter is_digit (py_str L v) in
     if \<not> (13 \<le> length raw \<and> length raw \<le> 19) then reject (NotA ''credit card length (13-19 digits)'' (py_of v))
     else if luhn_sum (map digit_val raw) mod 10 \<noteq> 0 then reject (NotA ''number with a valid Luhn checksum'' (py_of v))
     else pass)"

definition iso_4217 :: "string list" where
  "iso_4217 = [
     ''USD'', ''EUR'', ''GBP'', ''JPY'', ''CHF'', ''AUD'', ''CAD'', ''CNY'',
     ''SEK'', ''NZD'', ''MXN'', ''SGD'', ''HKD'', ''NOK'', ''KRW'', ''TRY'',
     ''RUB'', ''INR'', ''BRL'', ''ZAR'', ''AED'', ''ARS'', ''BGN'', ''CLP'',
     ''COP'', ''CZK'', ''DKK'', ''EGP'', ''HRK'', ''HUF'', ''IDR'', ''ILS'',
     ''ISK'', ''MAD'', ''MYR'', ''NGN'', ''PEN'', ''PHP'', ''PLN'', ''QAR'',
     ''RON'', ''SAR'', ''THB'', ''TWD'', ''UAH'', ''VND'']"

definition check_currency_code :: "xvalue \<Rightarrow> check" where
  "check_currency_code v = on_str v (\<lambda>s. accept_if (py_upper s \<in> set iso_4217) ''recognised ISO 4217 currency code'' v)"

text \<open>\<open>float(value)\<close> under \<open>except (TypeError, ValueError)\<close>: an \<open>OverflowError\<close> escapes.\<close>

definition on_float :: "xvalue \<Rightarrow> string \<Rightarrow> (pyfloat \<Rightarrow> check) \<Rightarrow> check" where
  "on_float v what k = (case float_of v of
     Inr f \<Rightarrow> k f
   | Inl e \<Rightarrow> if e \<in> {TypeErr, ValueErr} then reject (NotA what (py_of v)) else Inl e)"

definition check_amount :: "xvalue \<Rightarrow> (string \<times> pyval) list \<Rightarrow> check" where
  "check_amount v ps = on_float v ''number'' (\<lambda>num.
     if \<not> flag_param ps ''allow_zero'' \<and> fl_eq num (Fin 0) then reject (NotA ''non-zero amount'' (py_of v))
     else if \<not> flag_param ps ''allow_negative'' \<and> fl_lt num (Fin 0) then reject (NotA ''positive amount'' (py_of v))
     else pass)"

section \<open>Telephony and geography\<close>

definition check_phone_e164 :: "pylib \<Rightarrow> xvalue \<Rightarrow> check" where
  "check_phone_e164 L v = (let raw = filter (\<lambda>c. \<not> is_space c \<and> c \<notin> set ''-()'') (py_str L v) in
     accept_if (fullmatch (seq_rx [opt_rx (lit_rx CHR ''+''), Cls False [Rng CHR ''1'' CHR ''9''], Rep digit_rx 6 (Some 14)]) raw)
       ''valid E.164 phone number'' v)"

definition check_country_code :: "xvalue \<Rightarrow> check" where
  "check_country_code v = on_str v (\<lambda>s. accept_if (fullmatch (times_rx upper_rx 2) (py_upper s))
     ''valid ISO 3166-1 alpha-2 country code'' v)"

definition check_language_code :: "xvalue \<Rightarrow> check" where
  "check_language_code v = on_str v (\<lambda>s. accept_if (fullmatch (times_rx (Cls False [Rng CHR ''a'' CHR ''z'']) 2) (py_lower s))
     ''valid ISO 639-1 language code'' v)"

definition postal_patterns :: "(string \<times> rx) list" where
  "postal_patterns = (let D = times_rx digit_rx; dash = lit_rx CHR ''-'' in
    [(''ES'', D 5), (''FR'', D 5), (''DE'', D 5), (''IT'', D 5),
     (''GB'', seq_rx [Rep upper_rx 1 (Some 2), digit_rx, opt_rx upper_digit_rx, opt_rx space_rx, digit_rx, times_rx upper_rx 2]),
     (''US'', Seq (D 5) (opt_rx (Seq dash (D 4)))),
     (''PT'', seq_rx [D 4, dash, D 3]),
     (''NL'', seq_rx [D 4, opt_rx space_rx, times_rx upper_rx 2]),
     (''BE'', D 4),
     (''BR'', seq_rx [D 5, opt_rx dash, D 3])])"

definition any_postal_rx :: rx where
  "any_postal_rx = Rep (Cls False [Rng CHR ''A'' CHR ''Z'', Rng CHR ''a'' CHR ''z'', Rng CHR ''0'' CHR ''9'', One CHR ''-'', One CHR '' '']) 2 (Some 12)"

definition check_postal_code :: "xvalue \<Rightarrow> (string \<times> pyval) list \<Rightarrow> check" where
  "check_postal_code v ps = on_str v (\<lambda>s. case country_param ps [] of
     Inl e \<Rightarrow> Inl e
   | Inr country \<Rightarrow> accept_if
       (fullmatch (nocase (case map_of postal_patterns country of Some r \<Rightarrow> r | None \<Rightarrow> any_postal_rx)) s)
       (''valid postal code for '' @ (if country = [] then ''unknown country'' else country)) v)"

definition check_range :: "string \<Rightarrow> rat \<Rightarrow> xvalue \<Rightarrow> check" where
  "check_range what bound v = on_float v ''numeric'' (\<lambda>num.
     if fl_le (Fin (- bound)) num \<and> fl_le num (Fin bound) then pass else reject (OutOfRange what num))"

definition check_latitude :: "xvalue \<Rightarrow> check" where
  "check_latitude v = check_range ''latitude'' 90 v"

definition check_longitude :: "xvalue \<Rightarrow> check" where
  "check_longitude v = check_range ''longitude'' 180 v"

section \<open>National identifiers\<close>

definition nif_letters :: string where
  "nif_letters = ''TRWAGMYFPDXBNJZSQVHLCKE''"

definition raw_id :: "string \<Rightarrow> string" where
  "raw_id s = remove_chars ''- '' (py_upper s)"

definition check_nif :: "xvalue \<Rightarrow> check" where
  "check_nif v = on_str v (\<lambda>s. let raw = raw_id s in
     if \<not> fullmatch (Seq (times_rx digit_rx 8) upper_rx) raw then reject (NotA ''Spanish NIF (8 digits + 1 letter)'' (py_of v))
     else if last raw \<noteq> nif_letters ! (int_of_str (take 8 raw) mod 23) then reject (NotA ''Spanish NIF with a valid checksum'' (py_of v))
     else pass)"

definition nie_initial :: "char \<Rightarrow> char" where
  "nie_initial c = (if c = CHR ''X'' then CHR ''0'' else if c = CHR ''Y'' then CHR ''1'' else CHR ''2'')"

definition check_nie :: "xvalue \<Rightarrow> check" where
  "check_nie v = on_str v (\<lambda>s. let raw = raw_id s in
     if \<not> fullmatch (seq_rx [Cls False (map One ''XYZ''), times_rx digit_rx 7, upper_rx]) raw then reject (NotA ''Spanish NIE'' (py_of v))
     else (let numeric = int_of_str (nie_initial (hd raw) # take 7 (drop 1 raw)) in
       if last raw \<noteq> nif_letters ! (numeric mod 23) then reject (NotA ''Spanish NIE with a valid checksum'' (py_of v)) else pass))"

definition double_digit :: "nat \<Rightarrow> nat" where
  "double_digit d = (if d * 2 < 10 then d * 2 else d * 2 - 9)"

definition cif_total :: "nat list \<Rightarrow> nat" where
  "cif_total ds = sum_list (map (\<lambda>(i, d). double_digit d) (filter (\<lambda>(i, d). i mod 2 = 0) (enumerate 0 ds)))
     + sum_list (map snd (filter (\<lambda>(i, d). i mod 2 = 1) (enumerate 0 ds)))"

definition check_cif :: "xvalue \<Rightarrow> check" where
  "check_cif v = on_str v (\<lambda>s. let raw = raw_id s in
     if \<not> fullmatch (seq_rx [Cls False (map One ''ABCDEFGHJKLMNPQRSUVW''), times_rx digit_rx 7,
          Cls False [Rng CHR ''A'' CHR ''J'', Rng CHR ''0'' CHR ''9'']]) raw
     then reject (NotA ''Spanish CIF'' (py_of v))
     else (let control = (10 - cif_total (map digit_val (take 7 (drop 1 raw))) mod 10) mod 10;
               control_letter = ''JABCDEFGHI'' ! control;
               bad = reject (NotA ''Spanish CIF with a valid checksum'' (py_of v)) in
       if hd raw \<in> set ''PQRSNW'' then (if last raw \<noteq> control_letter then bad else pass)
       else (if last raw \<noteq> digit_char control \<and> last raw \<noteq> control_letter then bad else pass)))"

definition vat_patterns :: "(string \<times> rx) list" where
  "vat_patterns = (let D = times_rx digit_rx; A = times_rx upper_digit_rx in
    [(''ES'', seq_rx [A 1, D 7, A 1]), (''FR'', Seq (A 2) (D 9)), (''DE'', D 9), (''IT'', D 11), (''PT'', D 9),
     (''NL'', seq_rx [D 9, lit_rx CHR ''B'', D 2]), (''BE'', Rep digit_rx 9 (Some 10)), (''AT'', Seq (lit_rx CHR ''U'') (D 8))])"

definition check_vat_id :: "xvalue \<Rightarrow> (string \<times> pyval) list \<Rightarrow> check" where
  "check_vat_id v ps = on_str v (\<lambda>s. case country_param ps (take 2 s) of
     Inl e \<Rightarrow> Inl e
   | Inr country \<Rightarrow>
       (let raw0 = remove_chars '' -'' (py_upper s);
            raw = (if starts_with raw0 country then drop 2 raw0 else raw0) in
        accept_if (fullmatch (case map_of vat_patterns country of Some r \<Rightarrow> r | None \<Rightarrow> Rep upper_digit_rx 4 (Some 14)) raw)
          (''valid '' @ country @ '' VAT number'') v))"

definition check_ssn :: "xvalue \<Rightarrow> check" where
  "check_ssn v = on_str v (\<lambda>s. accept_if
     (let dash = opt_rx (lit_rx CHR ''-'') in
      fullmatch (seq_rx [times_rx digit_rx 3, dash, times_rx digit_rx 2, dash, times_rx digit_rx 4]) s) ''valid US SSN'' v)"

definition check_passport_number :: "xvalue \<Rightarrow> check" where
  "check_passport_number v = on_str v (\<lambda>s. accept_if (fullmatch (Rep upper_digit_rx 5 (Some 12)) (py_upper s))
     ''passport-shaped identifier'' v)"

section \<open>Registry\<close>

definition checker :: "pylib \<Rightarrow> validator_type \<Rightarrow> (xvalue \<Rightarrow> (string \<times> pyval) list \<Rightarrow> check) option" where
  "checker L t = Some (case t of
     V_EMAIL \<Rightarrow> (\<lambda>v _. check_email v) | V_URI \<Rightarrow> (\<lambda>v _. check_uri L v) | V_URL \<Rightarrow> (\<lambda>v _. check_uri L v)
   | V_IPV4 \<Rightarrow> (\<lambda>v _. check_ipv4 L v) | V_IPV6 \<Rightarrow> (\<lambda>v _. check_ipv6 L v)
   | V_DOMAIN \<Rightarrow> (\<lambda>v _. check_domain v) | V_SLUG \<Rightarrow> (\<lambda>v _. check_slug v)
   | V_DATE \<Rightarrow> (\<lambda>v _. check_date L v) | V_DATETIME \<Rightarrow> (\<lambda>v _. check_datetime L v)
   | V_TIME \<Rightarrow> (\<lambda>v _. check_time L v) | V_ISO_8601 \<Rightarrow> (\<lambda>v _. check_datetime L v)
   | V_UUID \<Rightarrow> (\<lambda>v _. check_uuid L v) | V_JSON \<Rightarrow> (\<lambda>v _. check_json L v)
   | V_HEX_COLOR \<Rightarrow> (\<lambda>v _. check_hex_color v)
   | V_IBAN \<Rightarrow> (\<lambda>v _. check_iban v) | V_BIC \<Rightarrow> (\<lambda>v _. check_bic v)
   | V_CREDIT_CARD \<Rightarrow> (\<lambda>v _. check_credit_card L v) | V_CURRENCY_CODE \<Rightarrow> (\<lambda>v _. check_currency_code v)
   | V_AMOUNT \<Rightarrow> check_amount | V_PHONE_E164 \<Rightarrow> (\<lambda>v _. check_phone_e164 L v)
   | V_COUNTRY_CODE \<Rightarrow> (\<lambda>v _. check_country_code v) | V_LANGUAGE_CODE \<Rightarrow> (\<lambda>v _. check_language_code v)
   | V_POSTAL_CODE \<Rightarrow> check_postal_code | V_LATITUDE \<Rightarrow> (\<lambda>v _. check_latitude v)
   | V_LONGITUDE \<Rightarrow> (\<lambda>v _. check_longitude v)
   | V_NIF \<Rightarrow> (\<lambda>v _. check_nif v) | V_NIE \<Rightarrow> (\<lambda>v _. check_nie v) | V_CIF \<Rightarrow> (\<lambda>v _. check_cif v)
   | V_VAT_ID \<Rightarrow> check_vat_id | V_SSN \<Rightarrow> (\<lambda>v _. check_ssn v) | V_PASSPORT_NUMBER \<Rightarrow> (\<lambda>v _. check_passport_number v))"

definition run_validator :: "pylib \<Rightarrow> validator_type \<Rightarrow> xvalue \<Rightarrow> (string \<times> pyval) list \<Rightarrow> check" where
  "run_validator L t v ps = (case checker L t of None \<Rightarrow> reject (UnknownValidator t) | Some f \<Rightarrow> f v ps)"

text \<open>A library that answers as little as possible, for concrete instances.\<close>

definition no_pylib :: pylib where
  "no_pylib = \<lparr>pl_str = \<lambda>_. [], pl_compile = \<lambda>_. Inl [], pl_urlparse = \<lambda>_. None, pl_datetime = \<lambda>_. None,
     pl_time = \<lambda>_. None, pl_json = \<lambda>_. True\<rparr>"

end
