(* ===== verification/CheckDigits.thy ===== *)
theory CheckDigits
  imports Validators
begin

text \<open>
  What the checksum validators of the registry detect: a mistyped character and a swap of two
  neighbours of a Spanish NIF or NIE, a mistyped digit of a card number, an IBAN or a CIF.
\<close>

section \<open>Typing errors\<close>

text \<open>One character replaced, or two different neighbours swapped.\<close>

definition replaced :: "'a list \<Rightarrow> 'a list \<Rightarrow> bool" where
  "replaced x y \<longleftrightarrow> (\<exists>p a b q. a \<noteq> b \<and> x = p @ a # q \<and> y = p @ b # q)"

definition swapped :: "'a list \<Rightarrow> 'a list \<Rightarrow> bool" where
  "swapped x y \<longleftrightarrow> (\<exists>p a b q. a \<noteq> b \<and> x = p @ a # b # q \<and> y = p @ b # a # q)"

definition typo :: "'a list \<Rightarrow> 'a list \<Rightarrow> bool" where
  "typo x y \<longleftrightarrow> replaced x y \<or> swapped x y"

lemma typo_length: "typo x y \<Longrightarrow> length x = length y"
  by (auto simp: typo_def replaced_def swapped_def)

lemma replaced_map: "replaced x y \<Longrightarrow> inj_on f (set x \<union> set y) \<Longrightarrow> replaced (map f x) (map f y)"
  unfolding replaced_def by (force simp: inj_on_def)

lemma swapped_map: "swapped x y \<Longrightarrow> inj_on f (set x \<union> set y) \<Longrightarrow> swapped (map f x) (map f y)"
  unfolding swapped_def by (force simp: inj_on_def)

lemma typo_map: "typo x y \<Longrightarrow> inj_on f (set x \<union> set y) \<Longrightarrow> typo (map f x) (map f y)"
  unfolding typo_def using replaced_map swapped_map by blast

text \<open>A typing error that leaves the last character alone is a typing error of the rest.\<close>

lemma replaced_snoc:
  assumes "replaced (x @ [c]) (y @ [d])"
  shows "(c = d \<and> replaced x y) \<or> (c \<noteq> d \<and> x = y)"
proof -
  from assms obtain p a b q where t: "a \<noteq> b" "x @ [c] = p @ a # q" "y @ [d] = p @ b # q"
    by (auto simp: replaced_def)
  show ?thesis
  proof (cases q rule: rev_cases)
    case Nil
    with t show ?thesis by simp
  next
    case (snoc q' e)
    with t have "c = d" "x = p @ a # q'" "y = p @ b # q'" by (simp_all flip: append_Cons append_assoc)
    with t(1) show ?thesis by (auto simp: replaced_def)
  qed
qed

lemma swapped_snoc:
  assumes "swapped (x @ [c]) (y @ [d])"
  shows "(c = d \<and> swapped x y) \<or> (\<exists>p. c \<noteq> d \<and> x = p @ [d] \<and> y = p @ [c])"
proof -
  from assms obtain p a b q where t: "a \<noteq> b" "x @ [c] = p @ a # b # q" "y @ [d] = p @ b # a # q"
    by (auto simp: swapped_def)
  show ?thesis
  proof (cases q rule: rev_cases)
    case Nil
    with t have "x @ [c] = (p @ [a]) @ [b]" "y @ [d] = (p @ [b]) @ [a]" by simp_all
    with t(1) show ?thesis by auto
  next
    case (snoc q' e)
    with t have "x @ [c] = (p @ a # b # q') @ [e]" "y @ [d] = (p @ b # a # q') @ [e]" by simp_all
    with t(1) show ?thesis unfolding swapped_def by blast
  qed
qed

section \<open>Remainders of decimal numbers\<close>

lemma digits_replace:
  "int (nat_of_digits (p @ a # q)) - int (nat_of_digits (p @ b # q)) = (int a - int b) * 10 ^ length q"
  by (simp add: nat_of_digits_append nat_of_digits_Cons algebra_simps)

lemma digits_swap:
  "int (nat_of_digits (p @ a # b # q)) - int (nat_of_digits (p @ b # a # q)) = 9 * (int a - int b) * 10 ^ length q"
  by (simp add: nat_of_digits_append nat_of_digits_Cons algebra_simps)

lemma mod_eq_dvd_int: "(x :: nat) mod m = y mod m \<longleftrightarrow> int m dvd int x - int y"
  using mod_eq_dvd_iff [of "int x" "int m" "int y"] by (simp flip: of_nat_mod)

lemma coprime_dvd:
  fixes x k :: int
  assumes "int m dvd k * x * 10 ^ n" "coprime (int m) 10" "coprime (int m) k" "\<bar>x\<bar> < int m"
  shows "x = 0"
proof -
  have "coprime (int m) (10 ^ n)" using assms(2) by simp
  with assms(1) have "int m dvd k * x" by (simp add: coprime_dvd_mult_left_iff)
  with assms(3) have "int m dvd x" by (simp add: coprime_dvd_mult_right_iff)
  with assms(4) show ?thesis using dvd_imp_le_int [of x "int m"] by force
qed

lemma typo_mod:
  assumes "typo ds es" "\<forall>d\<in>set ds \<union> set es. d < 10" "coprime (int m) 10" "coprime (int m) 9" "9 < m"
  shows "nat_of_digits ds mod m \<noteq> nat_of_digits es mod m"
proof
  assume eq: "nat_of_digits ds mod m = nat_of_digits es mod m"
  from assms(1) consider (r) "replaced ds es" | (s) "swapped ds es" by (auto simp: typo_def)
  then show False
  proof cases
    case r
    then obtain p a b q where t: "a \<noteq> b" "ds = p @ a # q" "es = p @ b # q" by (auto simp: replaced_def)
    have "int m dvd 1 * (int a - int b) * 10 ^ length q"
      using eq unfolding mod_eq_dvd_int t digits_replace by simp
    moreover have "a < 10" "b < 10" using assms(2) t by auto
    then have "\<bar>int a - int b\<bar> < int m" using assms(5) by linarith
    ultimately show False using coprime_dvd [of m 1] assms(3) t(1) by force
  next
    case s
    then obtain p a b q where t: "a \<noteq> b" "ds = p @ a # b # q" "es = p @ b # a # q" by (auto simp: swapped_def)
    have "int m dvd 9 * (int a - int b) * 10 ^ length q"
      using eq unfolding mod_eq_dvd_int t digits_swap by simp
    moreover have "a < 10" "b < 10" using assms(2) t by auto
    then have "\<bar>int a - int b\<bar> < int m" using assms(5) by linarith
    ultimately show False using coprime_dvd [of m 9 "int a - int b" "length q"] assms(3,4) t(1) by simp
  qed
qed

section \<open>NIF and NIE\<close>

lemma typo_snoc:
  "typo (x @ [c]) (y @ [d]) \<Longrightarrow> (c = d \<and> typo x y) \<or> (c \<noteq> d \<and> (x = y \<or> (\<exists>p. x = p @ [d] \<and> y = p @ [c])))"
  unfolding typo_def by (auto dest!: replaced_snoc swapped_snoc)

lemma replaced_Cons:
  assumes "replaced (c # x) (d # y)"
  shows "(c = d \<and> replaced x y) \<or> (c \<noteq> d \<and> x = y)"
proof -
  from assms obtain p a b q where t: "a \<noteq> b" "c # x = p @ a # q" "d # y = p @ b # q"
    by (auto simp: replaced_def)
  then show ?thesis by (cases p) (auto simp: replaced_def)
qed

lemma swapped_Cons:
  assumes "swapped (c # x) (d # y)"
  shows "(c = d \<and> swapped x y) \<or> (\<exists>r. c \<noteq> d \<and> x = d # r \<and> y = c # r)"
proof -
  from assms obtain p a b q where t: "a \<noteq> b" "c # x = p @ a # b # q" "d # y = p @ b # a # q"
    by (auto simp: swapped_def)
  then show ?thesis by (cases p) (auto simp: swapped_def)
qed

lemma typo_Cons:
  "typo (c # x) (d # y) \<Longrightarrow> (c = d \<and> typo x y) \<or> (c \<noteq> d \<and> (x = y \<or> (\<exists>r. x = d # r \<and> y = c # r)))"
  unfolding typo_def by (auto dest!: replaced_Cons swapped_Cons)

lemma typo_ConsI: "typo x y \<Longrightarrow> typo (c # x) (c # y)"
  unfolding typo_def replaced_def swapped_def by (metis append_Cons)

lemma typo_headI: "c \<noteq> d \<Longrightarrow> typo (c # x) (d # x)"
  unfolding typo_def replaced_def by (metis append_Nil)

lemma digit_val_inj: "inj_on digit_val {c. is_digit c}"
proof (rule inj_onI)
  fix x y assume "x \<in> {c. is_digit c}" "y \<in> {c. is_digit c}" "digit_val x = digit_val y"
  then have "(of_char x :: nat) = of_char y" unfolding is_digit_def digit_val_def code_point_def mem_Collect_eq by linarith
  then show "x = y" by simp
qed

lemma digit_val_less: "is_digit c \<Longrightarrow> digit_val c < 10"
  unfolding is_digit_def digit_val_def by linarith

lemma digits_typo_mod:
  assumes "typo ds es" "\<forall>c\<in>set ds \<union> set es. is_digit c"
  shows "int_of_str ds mod 23 \<noteq> int_of_str es mod 23"
proof -
  have "typo (map digit_val ds) (map digit_val es)"
    using assms by (intro typo_map inj_on_subset [OF digit_val_inj]) auto
  then show ?thesis unfolding int_of_str_def
    by (rule typo_mod) (use assms(2) digit_val_less in \<open>auto simp: coprime_iff_gcd_eq_1 gcd_non_0_int\<close>)
qed

definition nif_letter :: "nat \<Rightarrow> char" where
  "nif_letter n = nif_letters ! (n mod 23)"

lemma nif_letter_eq: "nif_letter n = nif_letter m \<longleftrightarrow> n mod 23 = m mod 23"
proof -
  have "distinct nif_letters" "length nif_letters = 23" by (simp_all add: nif_letters_def)
  then show ?thesis unfolding nif_letter_def by (simp add: nth_eq_iff_index_eq)
qed

lemma upper_not_digit: "is_upper_ascii c \<Longrightarrow> \<not> is_digit c"
  by (auto simp: is_upper_ascii_def is_digit_def)

text \<open>What the identifiers accepted by \<open>check_nif\<close> and \<open>check_nie\<close> look like.\<close>

lemma on_str_pass: "on_str (VStr s) k = pass \<longleftrightarrow> py_strip s \<noteq> [] \<and> k (py_strip s) = pass"
  by (simp add: on_str_def need_str_def reject_def)

lemma nif_pass:
  assumes "check_nif (VStr s) = pass"
  obtains ds l where "raw_id (py_strip s) = ds @ [l]" "\<forall>c\<in>set ds. is_digit c" "is_upper_ascii l"
    "l = nif_letter (int_of_str ds)"
proof -
  let ?raw = "raw_id (py_strip s)"
  have f: "fullmatch (Seq (times_rx digit_rx 8) upper_rx) ?raw" "last ?raw = nif_letter (int_of_str (take 8 ?raw))"
    using assms unfolding check_nif_def on_str_pass by (auto simp: reject_def Let_def nif_letter_def split: if_splits)
  then obtain l where "drop 8 ?raw = [l]" "is_upper_ascii l" "\<forall>c\<in>set (take 8 ?raw). is_digit c"
    by (auto simp: fixed_width)
  moreover have "?raw = take 8 ?raw @ drop 8 ?raw" by simp
  ultimately show thesis using that [of "take 8 ?raw" l] f(2) by (metis last_snoc)
qed

lemma nie_pass:
  assumes "check_nie (VStr s) = pass"
  obtains i ds l where "raw_id (py_strip s) = i # ds @ [l]" "i \<in> {CHR ''X'', CHR ''Y'', CHR ''Z''}"
    "length ds = 7" "\<forall>c\<in>set ds. is_digit c" "is_upper_ascii l" "l = nif_letter (int_of_str (nie_initial i # ds))"
proof -
  let ?raw = "raw_id (py_strip s)"
  have f: "fullmatch (seq_rx [Cls False (map One ''XYZ''), times_rx digit_rx 7, upper_rx]) ?raw"
      "last ?raw = nif_letter (int_of_str (nie_initial (hd ?raw) # take 7 (drop 1 ?raw)))"
    using assms unfolding check_nie_def on_str_pass by (auto simp: reject_def Let_def nif_letter_def split: if_splits)
  then obtain i t where it: "?raw = i # t" "i \<in> {CHR ''X'', CHR ''Y'', CHR ''Z''}"
      "fullmatch (Seq (times_rx digit_rx 7) upper_rx) t"
    by (auto simp: fixed_width in_class_def split: list.splits)
  then obtain l where "drop 7 t = [l]" "is_upper_ascii l" "\<forall>c\<in>set (take 7 t). is_digit c" "length (take 7 t) = 7"
    by (auto simp: fixed_width)
  moreover have "t = take 7 t @ drop 7 t" by simp
  ultimately show thesis using that [of i "take 7 t" l] f(2) it by (metis drop0 drop_Suc_Cons last.simps last_snoc list.sel(1) One_nat_def append_is_Nil_conv not_Cons_self2)
qed

text \<open>A typing error in a Spanish NIF or NIE is detected. If a value is accepted and another differs
  from it, after the checker's normalisation, by one replaced character or by two swapped
  neighbours, then the other is rejected; this covers the digits, the initial and the check letter.\<close>

theorem national_id_typos:
  assumes "typo (raw_id (py_strip s)) (raw_id (py_strip t))"
  shows "\<not> (check_nif (VStr s) = pass \<and> check_nif (VStr t) = pass)
    \<and> \<not> (check_nie (VStr s) = pass \<and> check_nie (VStr t) = pass)"
proof (intro conjI notI; elim conjE)
  assume "check_nif (VStr s) = pass" "check_nif (VStr t) = pass"
  then obtain ds l es m where a: "raw_id (py_strip s) = ds @ [l]" "\<forall>c\<in>set ds. is_digit c" "is_upper_ascii l" "l = nif_letter (int_of_str ds)"
      and b: "raw_id (py_strip t) = es @ [m]" "\<forall>c\<in>set es. is_digit c" "is_upper_ascii m" "m = nif_letter (int_of_str es)"
    by (elim nif_pass) blast
  from typo_snoc [of ds l es m] assms a(1) b(1) consider "l = m" "typo ds es" | "l \<noteq> m" "ds = es" | p where "ds = p @ [m]"
    by auto
  then show False
  proof cases
    case 1
    with a b digits_typo_mod [of ds es] show False by (auto simp: nif_letter_eq)
  qed (use a b upper_not_digit in auto)
next
  assume "check_nie (VStr s) = pass" "check_nie (VStr t) = pass"
  then obtain i ds l j es m where a: "raw_id (py_strip s) = i # ds @ [l]" "i \<in> {CHR ''X'', CHR ''Y'', CHR ''Z''}"
        "\<forall>c\<in>set ds. is_digit c" "is_upper_ascii l" "l = nif_letter (int_of_str (nie_initial i # ds))" "length ds = 7"
      and b: "raw_id (py_strip t) = j # es @ [m]" "j \<in> {CHR ''X'', CHR ''Y'', CHR ''Z''}"
        "\<forall>c\<in>set es. is_digit c" "is_upper_ascii m" "m = nif_letter (int_of_str (nie_initial j # es))"
    by (elim nie_pass) blast
  from typo_snoc [of "i # ds" l "j # es" m] assms a(1) b(1)
  consider "l = m" "typo (i # ds) (j # es)" | "l \<noteq> m" "i # ds = j # es" | p where "i # ds = p @ [m]" "j # es = p @ [l]"
    by auto
  then show False
  proof cases
    case 1
    from typo_Cons [OF 1(2)] a(2,3) b(2,3) have "(i = j \<and> typo ds es) \<or> (i \<noteq> j \<and> ds = es)"
      by (auto simp: is_digit_def code_point_def)
    then have "typo (nie_initial i # ds) (nie_initial j # es)"
      using a(2) b(2) by (auto simp: nie_initial_def intro: typo_ConsI typo_headI)
    moreover have "\<forall>c\<in>set (nie_initial i # ds) \<union> set (nie_initial j # es). is_digit c"
      using a(3) b(3) by (auto simp: nie_initial_def is_digit_def code_point_def)
    ultimately show False using digits_typo_mod 1(1) a(5) b(5) by (auto simp: nif_letter_eq)
  next
    case 3
    with a(3,6) b(4) upper_not_digit show False by (cases p) auto
  qed (use a b in auto)
qed

theorem national_id_typos_witness:
  "check_nif (VStr ''12345678-Z'') = pass \<and> check_nif (VStr ''12345687Z'') \<noteq> pass"
proof -
  have n: "raw_id (py_strip ''12345678-Z'') = ''12345678Z''" "raw_id (py_strip ''12345687Z'') = ''12345687Z''"
    by code_simp+
  have "typo (raw_id (py_strip ''12345678-Z'')) (raw_id (py_strip ''12345687Z''))"
    unfolding n typo_def swapped_def
    by (intro disjI2 exI [of _ "''123456''"] exI [of _ "CHR ''7''"] exI [of _ "CHR ''8''"] exI [of _ "''Z''"]) simp
  from national_id_typos [OF this] have "\<not> (check_nif (VStr ''12345678-Z'') = pass \<and> check_nif (VStr ''12345687Z'') = pass)" ..
  moreover have "fullmatch (Seq (times_rx digit_rx 8) upper_rx) ''12345678Z''" by code_simp
  then have "check_nif (VStr ''12345678-Z'') = pass"
    unfolding check_nif_def on_str_pass n
    by (simp add: int_of_str_def nat_of_digits_def digit_val_def code_point_def nif_letters_def reject_def Let_def) code_simp
  ultimately show ?thesis by simp
qed

section \<open>Card numbers\<close>

lemma luhn_term_less: "d < 10 \<Longrightarrow> luhn_term r i d < 10"
  by (auto simp: luhn_term_def)

lemma luhn_term_inj: "a < 10 \<Longrightarrow> b < 10 \<Longrightarrow> luhn_term r i a = luhn_term r i b \<Longrightarrow> a = b"
proof -
  have "\<forall>x\<in>set [0..<10]. \<forall>y\<in>set [0..<10]. luhn_term 0 0 x = luhn_term 0 0 y \<longrightarrow> x = y" by code_simp
  moreover have "luhn_term r i d = (if i mod 2 = r then luhn_term 0 0 d else d)" for d by (simp add: luhn_term_def)
  ultimately show "a < 10 \<Longrightarrow> b < 10 \<Longrightarrow> luhn_term r i a = luhn_term r i b \<Longrightarrow> a = b" by (auto split: if_splits)
qed

text \<open>Swapping two neighbours moves the doubling from one to the other.\<close>

lemma luhn_term_swap:
  assumes "a < 10" "b < 10" "a \<noteq> b" "{a, b} \<noteq> {0, 9}" "i mod 2 = r \<longleftrightarrow> j mod 2 \<noteq> r"
  shows "(luhn_term r i a + luhn_term r j b) mod 10 \<noteq> (luhn_term r i b + luhn_term r j a) mod 10"
proof -
  have table: "\<forall>x\<in>set [0..<10]. \<forall>y\<in>set [0..<10]. x = y \<or> (x = 0 \<and> y = 9) \<or> (x = 9 \<and> y = 0)
      \<or> (luhn_term 0 0 x + y) mod 10 \<noteq> (luhn_term 0 0 y + x) mod 10" by code_simp
  have key: "(luhn_term 0 0 x + y) mod 10 \<noteq> (luhn_term 0 0 y + x) mod 10" if "{x, y} = {a, b}" for x y
  proof -
    have "x < 10" "y < 10" "x \<noteq> y" "\<not> (x = 0 \<and> y = 9)" "\<not> (x = 9 \<and> y = 0)"
      using assms that by (auto simp: doubleton_eq_iff)
    moreover from this(1,2) have "x \<in> set [0..<10]" "y \<in> set [0..<10]" by simp_all
    ultimately show ?thesis using table by blast
  qed
  have lt: "luhn_term r k d = (if k mod 2 = r then luhn_term 0 0 d else d)" for k d by (simp add: luhn_term_def)
  show ?thesis
  proof (cases "i mod 2 = r")
    case True
    with assms(5) key [of a b] lt show ?thesis by simp
  next
    case False
    with assms(5) key [of b a] lt show ?thesis by (simp add: add.commute insert_commute)
  qed
qed

lemma luhn_sum_split:
  "luhn_sum (p @ q) = sum_list (map (\<lambda>(i, d). luhn_term ((length p + length q) mod 2) i d) (enumerate 0 p))
     + sum_list (map (\<lambda>(i, d). luhn_term ((length p + length q) mod 2) i d) (enumerate (length p) q))"
  by (simp add: luhn_sum_def enumerate_append_eq)

lemma mod_add_cancel: "((x :: nat) + a) mod m = (x + b) mod m \<longleftrightarrow> a mod m = b mod m"
  by (simp add: mod_eq_dvd_int)

lemma luhn_replaced:
  assumes "a \<noteq> b" "a < 10" "b < 10"
  shows "luhn_sum (p @ a # q) mod 10 \<noteq> luhn_sum (p @ b # q) mod 10"
proof
  let ?r = "Suc (length p + length q) mod 2" and ?f = "\<lambda>(i, d). luhn_term (Suc (length p + length q) mod 2) i d"
  assume "luhn_sum (p @ a # q) mod 10 = luhn_sum (p @ b # q) mod 10"
  then have "(sum_list (map ?f (enumerate 0 p)) + sum_list (map ?f (enumerate (Suc (length p)) q)) + luhn_term ?r (length p) a) mod 10
      = (sum_list (map ?f (enumerate 0 p)) + sum_list (map ?f (enumerate (Suc (length p)) q)) + luhn_term ?r (length p) b) mod 10"
    by (simp add: luhn_sum_split ac_simps)
  with luhn_term_less [OF assms(2)] luhn_term_less [OF assms(3)]
  have "luhn_term ?r (length p) a = luhn_term ?r (length p) b" by (simp add: mod_add_cancel)
  with luhn_term_inj assms show False by blast
qed

lemma luhn_swapped:
  assumes "a \<noteq> b" "a < 10" "b < 10" "{a, b} \<noteq> {0, 9}"
  shows "luhn_sum (p @ a # b # q) mod 10 \<noteq> luhn_sum (p @ b # a # q) mod 10"
proof
  let ?r = "Suc (Suc (length p + length q)) mod 2" and ?f = "\<lambda>(i, d). luhn_term (Suc (Suc (length p + length q)) mod 2) i d"
  let ?t = "\<lambda>x y. luhn_term ?r (length p) x + luhn_term ?r (Suc (length p)) y"
  assume "luhn_sum (p @ a # b # q) mod 10 = luhn_sum (p @ b # a # q) mod 10"
  then have "(sum_list (map ?f (enumerate 0 p)) + sum_list (map ?f (enumerate (Suc (Suc (length p))) q)) + ?t a b) mod 10
      = (sum_list (map ?f (enumerate 0 p)) + sum_list (map ?f (enumerate (Suc (Suc (length p))) q)) + ?t b a) mod 10"
    by (simp add: luhn_sum_split ac_simps)
  then have eq: "?t a b mod 10 = ?t b a mod 10" by (simp only: mod_add_cancel)
  have "length p mod 2 = ?r \<longleftrightarrow> Suc (length p) mod 2 \<noteq> ?r" by (simp add: mod2_eq_if)
  with eq luhn_term_swap [OF assms(2,3,1,4)] show False by blast
qed

definition card_digits :: "pylib \<Rightarrow> xvalue \<Rightarrow> nat list" where
  "card_digits L v = map digit_val (filter is_digit (py_str L v))"

lemma card_pass: "check_credit_card L v = pass \<longleftrightarrow>
    13 \<le> length (card_digits L v) \<and> length (card_digits L v) \<le> 19 \<and> luhn_sum (card_digits L v) mod 10 = 0"
  by (auto simp: check_credit_card_def card_digits_def reject_def Let_def)

lemma card_digit_less: "d \<in> set (card_digits L v) \<Longrightarrow> d < 10"
  by (auto simp: card_digits_def intro: digit_val_less)

text \<open>A typing error in a card number is detected. Of two values whose digits differ in one place, or
  by a swap of two neighbours other than 0 and 9, at most one passes the credit card check.\<close>

theorem card_typos:
  assumes "card_digits L v = p @ x @ q" "card_digits L w = p @ y @ q"
    "(\<exists>a b. a \<noteq> b \<and> x = [a] \<and> y = [b]) \<or> (\<exists>a b. a \<noteq> b \<and> {a, b} \<noteq> {0, 9} \<and> x = [a, b] \<and> y = [b, a])"
  shows "\<not> (check_credit_card L v = pass \<and> check_credit_card L w = pass)"
proof -
  have small: "d < 10" if "d \<in> set x \<union> set y" for d
    using that assms(1,2) card_digit_less [of d L v] card_digit_less [of d L w] by auto
  from assms(3) have "luhn_sum (p @ x @ q) mod 10 \<noteq> luhn_sum (p @ y @ q) mod 10"
  proof (elim disjE exE conjE)
    fix a b assume "a \<noteq> b" "x = [a]" "y = [b]"
    with luhn_replaced [of a b p q] small show ?thesis by simp
  next
    fix a b assume ab: "a \<noteq> b" "{a, b} \<noteq> {0, 9}" "x = [a, b]" "y = [b, a]"
    with small have "a < 10" "b < 10" by auto
    with luhn_swapped [OF ab(1) _ _ ab(2)] ab(3,4) show ?thesis by simp
  qed
  then show ?thesis by (auto simp: card_pass assms(1,2))
qed

theorem card_typos_witness:
  "check_credit_card no_pylib (VStr ''4111 1111 1111 1111'') = pass
    \<and> check_credit_card no_pylib (VStr ''4111 1111 1111 1112'') \<noteq> pass"
proof -
  have v: "card_digits no_pylib (VStr ''4111 1111 1111 1111'') = [4, 1, 1, 1, 1, 1, 1, 1, 1, 1, 1, 1, 1, 1, 1] @ [1] @ []"
    and w: "card_digits no_pylib (VStr ''4111 1111 1111 1112'') = [4, 1, 1, 1, 1, 1, 1, 1, 1, 1, 1, 1, 1, 1, 1] @ [2] @ []"
    by (simp_all add: card_digits_def py_str_def is_digit_def digit_val_def code_point_def)
  have "\<not> (check_credit_card no_pylib (VStr ''4111 1111 1111 1111'') = pass
      \<and> check_credit_card no_pylib (VStr ''4111 1111 1111 1112'') = pass)"
    by (rule card_typos [OF v w]) simp
  moreover have "check_credit_card no_pylib (VStr ''4111 1111 1111 1111'') = pass"
    unfolding card_pass v by (simp add: luhn_sum_def luhn_term_def)
  ultimately show ?thesis by simp
qed

section \<open>IBAN\<close>

definition iban_code :: "char \<Rightarrow> string" where
  "iban_code c = (if is_alpha c then str_of_nat (letter_value c) else [c])"

lemma iban_numeric_code: "iban_numeric cand = concat (map iban_code (drop 4 cand @ take 4 cand))"
  by (simp add: iban_numeric_def iban_code_def [abs_def])

lemma rotate_at:
  fixes p q :: "'a list"
  obtains P Q where "\<And>a. drop 4 (p @ a # q) @ take 4 (p @ a # q) = P @ a # Q"
proof (cases "4 \<le> length p")
  case True
  with that [of "drop 4 p @ []" "q @ take 4 p"] that [of "drop 4 p" "q @ take 4 p"] show thesis by simp
next
  case False
  then have "drop 4 (p @ a # q) @ take 4 (p @ a # q) = (drop (3 - length p) q @ p) @ a # take (3 - length p) q" for a
    by (simp add: take_Cons' drop_Cons' diff_diff_add)
  with that show thesis by blast
qed

lemma iban_code_value:
  assumes "is_upper_ascii c \<or> is_digit c"
  shows "int_of_str (iban_code c) = (if is_digit c then digit_val c else letter_value c)"
    "length (iban_code c) = (if is_digit c then 1 else 2)" "int_of_str (iban_code c) < 97"
proof -
  have len2: "length (str_of_nat n) = 2" if "10 \<le> n" "n < 100" for n
  proof -
    have "n div 10 < 10" using that by simp
    with that show ?thesis by (simp add: str_of_nat.simps [of n] str_of_nat.simps [of "n div 10"])
  qed
  have up: "is_upper_ascii c \<Longrightarrow> is_alpha c \<and> \<not> is_digit c \<and> 10 \<le> letter_value c \<and> letter_value c < 36"
    by (auto simp: is_alpha_def is_upper_ascii_def is_digit_def letter_value_def)
  have dg: "is_digit c \<Longrightarrow> \<not> is_alpha c \<and> digit_val c < 10"
    by (auto simp: is_alpha_def is_upper_ascii_def is_lower_ascii_def is_digit_def digit_val_less)
  have single: "int_of_str [c] = digit_val c" by (simp add: int_of_str_def nat_of_digits_def)
  show "int_of_str (iban_code c) = (if is_digit c then digit_val c else letter_value c)"
    "length (iban_code c) = (if is_digit c then 1 else 2)" "int_of_str (iban_code c) < 97"
    using assms up dg single len2 [of "letter_value c"] by (auto simp: iban_code_def)
qed

lemma iban_code_inj:
  assumes "is_upper_ascii a \<or> is_digit a" "is_upper_ascii b \<or> is_digit b" "is_digit a \<longleftrightarrow> is_digit b"
    "int_of_str (iban_code a) = int_of_str (iban_code b)"
  shows "a = b"
proof -
  have "(of_char a :: nat) = of_char b"
    using assms unfolding iban_code_value(1) [OF assms(1)] iban_code_value(1) [OF assms(2)]
      is_digit_def is_upper_ascii_def digit_val_def letter_value_def code_point_def
    by (simp del: of_char_eq_iff split: if_splits) linarith+
  then show ?thesis by simp
qed

lemma iban_pass:
  assumes "check_iban (VStr s) = pass"
  shows "\<forall>c\<in>set (iban_candidate (py_strip s)). is_upper_ascii c \<or> is_digit c"
    and "int_of_str (iban_numeric (iban_candidate (py_strip s))) mod 97 = 1"
proof -
  let ?c = "iban_candidate (py_strip s)"
  have f: "fullmatch iban_rx ?c" "int_of_str (iban_numeric ?c) mod 97 = 1"
    using assms unfolding check_iban_def on_str_pass by (auto simp: reject_def Let_def split: if_splits)
  show "int_of_str (iban_numeric ?c) mod 97 = 1" by (rule f(2))
  have "\<forall>c\<in>set (take 2 ?c). is_upper_ascii c" "\<forall>c\<in>set (take 2 (drop 2 ?c)). is_digit c"
      "\<forall>c\<in>set (drop 2 (drop 2 ?c)). is_upper_ascii c \<or> is_digit c"
    using f(1) by (auto simp: iban_rx_def fixed_width)
  moreover have "set ?c = set (take 2 ?c) \<union> set (take 2 (drop 2 ?c)) \<union> set (drop 2 (drop 2 ?c))"
    by (metis append_take_drop_id set_append sup.assoc)
  ultimately show "\<forall>c\<in>set ?c. is_upper_ascii c \<or> is_digit c" by blast
qed

text \<open>A mistyped character of an IBAN is detected. Of two values whose compact upper-case forms differ
  in one character, a digit for a digit or a letter for a letter, at most one passes the IBAN check.\<close>

theorem iban_typos:
  assumes "iban_candidate (py_strip s) = p @ a # q" "iban_candidate (py_strip t) = p @ b # q" "a \<noteq> b"
    "is_digit a \<longleftrightarrow> is_digit b"
  shows "\<not> (check_iban (VStr s) = pass \<and> check_iban (VStr t) = pass)"
proof (intro notI; elim conjE)
  assume pass: "check_iban (VStr s) = pass" "check_iban (VStr t) = pass"
  have ab: "is_upper_ascii a \<or> is_digit a" "is_upper_ascii b \<or> is_digit b"
    using iban_pass(1) [OF pass(1)] iban_pass(1) [OF pass(2)] assms(1,2) by auto
  obtain P Q where pq: "\<And>c. drop 4 (p @ c # q) @ take 4 (p @ c # q) = P @ c # Q" by (rule rotate_at [of p q]) blast
  define x y where "x = concat (map iban_code P)" and "y = concat (map iban_code Q)"
  have num: "iban_numeric (p @ c # q) = x @ iban_code c @ y" for c
    unfolding iban_numeric_code pq x_def y_def by simp
  have "int_of_str (x @ iban_code a @ y) mod 97 = int_of_str (x @ iban_code b @ y) mod 97"
    using iban_pass(2) [OF pass(1)] iban_pass(2) [OF pass(2)] assms(1,2) num by simp
  moreover have "length (iban_code a) = length (iban_code b)"
    using iban_code_value(2) ab assms(4) by simp
  ultimately have "97 dvd 1 * (int (int_of_str (iban_code a)) - int (int_of_str (iban_code b))) * 10 ^ length y"
    by (simp add: mod_eq_dvd_int int_of_str_append algebra_simps)
  moreover have "\<bar>int (int_of_str (iban_code a)) - int (int_of_str (iban_code b))\<bar> < 97"
    using iban_code_value(3) [OF ab(1)] iban_code_value(3) [OF ab(2)] by linarith
  ultimately have "int (int_of_str (iban_code a)) - int (int_of_str (iban_code b)) = 0"
    using coprime_dvd [of 97 1 "int (int_of_str (iban_code a)) - int (int_of_str (iban_code b))" "length y"]
    by (simp add: coprime_iff_gcd_eq_1 gcd_non_0_int)
  then have "int_of_str (iban_code a) = int_of_str (iban_code b)" by simp
  with iban_code_inj ab assms(3,4) show False by blast
qed

theorem iban_typos_witness:
  "check_iban (VStr ''ES91 2100 0418 4502 0005 1332'') = pass \<and> check_iban (VStr ''ES91 2100 0418 4502 0005 1333'') \<noteq> pass"
proof -
  let ?s = "''ES91 2100 0418 4502 0005 1332''" and ?t = "''ES91 2100 0418 4502 0005 1333''"
  have strip: "py_strip ?s = ?s" "py_strip ?t = ?t" by code_simp+
  have c: "iban_candidate ?s = ''ES912100041845020005133'' @ CHR ''2'' # []"
      "iban_candidate ?t = ''ES912100041845020005133'' @ CHR ''3'' # []" by code_simp+
  have "\<not> (check_iban (VStr ?s) = pass \<and> check_iban (VStr ?t) = pass)"
    by (rule iban_typos [of ?s _ "CHR ''2''" "[]" ?t "CHR ''3''"])
      (simp_all add: strip c is_digit_def code_point_def)
  moreover have "fullmatch iban_rx (iban_candidate ?s)" by code_simp
  moreover have "iban_numeric (iban_candidate ?s) = ''21000418450200051332142891''" by code_simp
  ultimately show ?thesis
    unfolding check_iban_def on_str_pass strip
    by (simp add: int_of_str_def nat_of_digits_def digit_val_def code_point_def)
qed

section \<open>CIF\<close>

lemma cif_total_sum:
  "cif_total ds = sum_list (map (\<lambda>(i, d). if i mod 2 = 0 then double_digit d else d) (enumerate 0 ds))"
proof (induction ds rule: rev_induct)
  case (snoc d ds)
  then show ?case by (simp add: cif_total_def enumerate_append_eq)
qed (simp add: cif_total_def)

lemma double_digit_inj: "a < 10 \<Longrightarrow> b < 10 \<Longrightarrow> double_digit a = double_digit b \<Longrightarrow> a = b"
proof -
  have "\<forall>x\<in>set [0..<10]. \<forall>y\<in>set [0..<10]. x = y \<or> double_digit x \<noteq> double_digit y" by code_simp
  moreover assume "a < 10" "b < 10" "double_digit a = double_digit b"
  moreover from this(1,2) have "a \<in> set [0..<10]" "b \<in> set [0..<10]" by simp_all
  ultimately show "a = b" by blast
qed

lemma cif_replaced:
  assumes "a \<noteq> b" "a < 10" "b < 10"
  shows "cif_total (p @ a # q) mod 10 \<noteq> cif_total (p @ b # q) mod 10"
proof
  let ?f = "\<lambda>(i, d). if i mod 2 = 0 then double_digit d else d"
  let ?t = "\<lambda>x. ?f (length p, x)"
  assume "cif_total (p @ a # q) mod 10 = cif_total (p @ b # q) mod 10"
  then have "(sum_list (map ?f (enumerate 0 p)) + sum_list (map ?f (enumerate (Suc (length p)) q)) + ?t a) mod 10
      = (sum_list (map ?f (enumerate 0 p)) + sum_list (map ?f (enumerate (Suc (length p)) q)) + ?t b) mod 10"
    by (simp add: cif_total_sum enumerate_append_eq ac_simps)
  then have "?t a mod 10 = ?t b mod 10" by (simp only: mod_add_cancel)
  moreover have "?t a < 10" "?t b < 10" using assms(2,3) by (auto simp: double_digit_def)
  ultimately have "?t a = ?t b" by simp
  with assms double_digit_inj show False by (auto split: if_splits)
qed

definition cif_control :: "string \<Rightarrow> nat" where
  "cif_control raw = (10 - cif_total (map digit_val (take 7 (drop 1 raw))) mod 10) mod 10"

lemma control_inj:
  assumes "x mod 10 \<noteq> y mod (10 :: nat)"
  shows "(10 - x mod 10) mod 10 \<noteq> (10 - y mod 10) mod 10"
proof -
  have "u < 10 \<Longrightarrow> (10 - u) mod 10 = (if u = 0 then 0 else 10 - u)" for u :: nat by simp
  from this [of "x mod 10"] this [of "y mod 10"] show ?thesis using assms by simp linarith
qed

lemma control_signs:
  assumes "x < 10" "y < 10" "x \<noteq> y"
  shows "{digit_char x, ''JABCDEFGHI'' ! x} \<inter> {digit_char y, ''JABCDEFGHI'' ! y} = {}"
proof -
  have "\<forall>x\<in>set [0..<10]. \<forall>y\<in>set [0..<10]. x = y
      \<or> {digit_char x, ''JABCDEFGHI'' ! x} \<inter> {digit_char y, ''JABCDEFGHI'' ! y} = {}" by code_simp
  moreover from assms(1,2) have "x \<in> set [0..<10]" "y \<in> set [0..<10]" by simp_all
  ultimately show ?thesis using assms(3) by blast
qed

lemma cif_pass:
  assumes "check_cif (VStr s) = pass"
  shows "last (raw_id (py_strip s)) \<in> {digit_char (cif_control (raw_id (py_strip s))), ''JABCDEFGHI'' ! cif_control (raw_id (py_strip s))}"
    and "\<forall>c\<in>set (take 7 (drop 1 (raw_id (py_strip s)))). is_digit c" and "length (raw_id (py_strip s)) = 9"
proof -
  let ?raw = "raw_id (py_strip s)"
  have f: "fullmatch (seq_rx [Cls False (map One ''ABCDEFGHJKLMNPQRSUVW''), times_rx digit_rx 7,
          Cls False [Rng CHR ''A'' CHR ''J'', Rng CHR ''0'' CHR ''9'']]) ?raw"
      "last ?raw = digit_char (cif_control ?raw) \<or> last ?raw = ''JABCDEFGHI'' ! cif_control ?raw"
    using assms unfolding check_cif_def on_str_pass by (auto simp: reject_def Let_def cif_control_def split: if_splits)
  then show "last ?raw \<in> {digit_char (cif_control ?raw), ''JABCDEFGHI'' ! cif_control ?raw}" by simp
  from f(1) obtain i t where t: "?raw = i # t" "7 \<le> length t" "\<forall>c\<in>set (take 7 t). is_digit c" "\<exists>c. drop 7 t = [c]"
    by (auto simp: fixed_width split: list.splits)
  then show "\<forall>c\<in>set (take 7 (drop 1 ?raw)). is_digit c" by simp
  from t(4) have "length (drop 7 t) = 1" by (metis length_Cons list.size(3) One_nat_def)
  with t(1,2) show "length ?raw = 9" by simp
qed

text \<open>A mistyped digit of a Spanish CIF is detected. Of two values that differ in one of the seven digits,
  at most one passes the CIF check.\<close>

theorem cif_typos:
  assumes "raw_id (py_strip s) = i # p @ a # q" "raw_id (py_strip t) = i # p @ b # q" "a \<noteq> b" "length p < 7"
  shows "\<not> (check_cif (VStr s) = pass \<and> check_cif (VStr t) = pass)"
proof (intro notI; elim conjE)
  assume pass: "check_cif (VStr s) = pass" "check_cif (VStr t) = pass"
  note s = cif_pass [OF pass(1)] and t = cif_pass [OF pass(2)]
  let ?q = "take (6 - length p) q"
  have seven: "take 7 (p @ c # q) = p @ c # ?q" for c
    using assms(4) by (simp add: take_Cons' diff_diff_add)
  have dig: "\<forall>c\<in>set (p @ a # ?q). is_digit c" "\<forall>c\<in>set (p @ b # ?q). is_digit c"
    using s(2) t(2) seven unfolding assms(1,2) by (simp_all only: drop_Suc_Cons drop0 One_nat_def)
  have "digit_val a \<noteq> digit_val b" using digit_val_inj dig assms(3) by (auto simp: inj_on_def)
  then have "cif_total (map digit_val (p @ a # ?q)) mod 10 \<noteq> cif_total (map digit_val (p @ b # ?q)) mod 10"
    using cif_replaced [of "digit_val a" "digit_val b"] digit_val_less dig by simp
  then have "cif_control (i # p @ a # q) \<noteq> cif_control (i # p @ b # q)"
    unfolding cif_control_def One_nat_def drop_Suc_Cons drop0 seven by (rule control_inj)
  then have "{digit_char (cif_control (i # p @ a # q)), ''JABCDEFGHI'' ! cif_control (i # p @ a # q)}
      \<inter> {digit_char (cif_control (i # p @ b # q)), ''JABCDEFGHI'' ! cif_control (i # p @ b # q)} = {}"
    by (intro control_signs) (simp_all add: cif_control_def)
  moreover have "last (i # p @ a # q) = last (i # p @ b # q)"
    using s(3) assms(1,4) by (cases q) auto
  ultimately show False using s(1) t(1) unfolding assms(1,2) by (metis IntI empty_iff)
qed

theorem cif_typos_witness:
  "check_cif (VStr ''A58818501'') = pass \<and> check_cif (VStr ''A58819501'') \<noteq> pass"
proof -
  have r: "raw_id (py_strip ''A58818501'') = CHR ''A'' # ''5881'' @ CHR ''8'' # ''501''"
      "raw_id (py_strip ''A58819501'') = CHR ''A'' # ''5881'' @ CHR ''9'' # ''501''" by code_simp+
  have "\<not> (check_cif (VStr ''A58818501'') = pass \<and> check_cif (VStr ''A58819501'') = pass)"
    by (rule cif_typos [OF r]) simp_all
  moreover have "check_cif (VStr ''A58818501'') = pass" by code_simp
  ultimately show ?thesis by simp
qed

end
