(* ===== verification/FieldCheck.thy ===== *)
theory FieldCheck
  imports Validators
begin

text \<open>
  \<open>FieldValidator\<close> (\<open>core/services/validation/field_validator.py\<close>): every constraint of the
  schema on every extracted field. The code stamps the verdicts into the fields it is given; the
  model returns the stamped groups, or the exception that escapes.
\<close>

section \<open>Single constraints\<close>

text \<open>\<open>==\<close> on the JSON values of an enum: numbers and Booleans compare by value.\<close>

fun as_number :: "pyval \<Rightarrow> pyfloat option" where
  "as_number (PBool b) = Some (Fin (if b then 1 else 0))"
| "as_number (PInt i) = Some (Fin (of_int i))"
| "as_number (PFloat f) = Some f"
| "as_number _ = None"

definition enum_eq :: "xvalue \<Rightarrow> pyval \<Rightarrow> bool" where
  "enum_eq v w = (case v of
     VNone \<Rightarrow> w = PNone
   | VStr s \<Rightarrow> w = PStr s
   | VList fs \<Rightarrow> fs = [] \<and> w = PList []
   | _ \<Rightarrow> (case (as_number (py_of v), as_number w) of (Some a, Some b) \<Rightarrow> fl_eq a b | _ \<Rightarrow> False))"

definition type_ok :: "field_type \<Rightarrow> xvalue \<Rightarrow> bool" where
  "type_ok t v = (case t of
     T_STRING \<Rightarrow> (case v of VStr _ \<Rightarrow> True | _ \<Rightarrow> False)
   | T_NUMBER \<Rightarrow> (case v of VInt _ \<Rightarrow> True | VFloat _ \<Rightarrow> True | _ \<Rightarrow> False)
   | T_INTEGER \<Rightarrow> (case v of VInt _ \<Rightarrow> True | _ \<Rightarrow> False)
   | T_BOOLEAN \<Rightarrow> (case v of VBool _ \<Rightarrow> True | _ \<Rightarrow> False)
   | _ \<Rightarrow> True)"

type_synonym verror = "validation_rule \<times> fmessage"

definition validate_type :: "field_type \<Rightarrow> xvalue \<Rightarrow> verror option" where
  "validate_type t v = (if type_ok t v then None else Some (R_TYPE, MExpected t (py_of v)))"

definition validate_pattern :: "pylib \<Rightarrow> string \<Rightarrow> xvalue \<Rightarrow> verror option" where
  "validate_pattern L pat v = (case pl_compile L pat of
     Inl exc \<Rightarrow> Some (R_PATTERN, MInvalidRegex pat exc)
   | Inr matches \<Rightarrow> if matches (py_str L v) then None else Some (R_PATTERN, MNoMatch (py_of v) pat))"

definition email_format_rx :: rx where
  "email_format_rx = (let w = plus_rx (Cls True [One CHR ''@'']) in seq_rx [w, lit_rx CHR ''@'', w, lit_rx CHR ''.'', w])"

text \<open>The text of the \<open>ValueError\<close> a format raises; time and currency have no branch.\<close>

definition format_error :: "pylib \<Rightarrow> std_format \<Rightarrow> string \<Rightarrow> string option" where
  "format_error L fmt raw = (case fmt of
     F_DATE \<Rightarrow> strptime_error raw
   | F_DATE_TIME \<Rightarrow> pl_datetime L raw
   | F_EMAIL \<Rightarrow> (if fullmatch email_format_rx raw then None else Some ''invalid email format'')
   | F_URI \<Rightarrow> (case pl_urlparse L raw of
        None \<Rightarrow> Some ''Invalid URL''
      | Some (scheme, netloc) \<Rightarrow> if scheme = [] \<or> netloc = [] then Some ''missing scheme or host'' else None)
   | F_UUID \<Rightarrow> (if uuid_ok raw then None else Some ''badly formed hexadecimal UUID string'')
   | _ \<Rightarrow> None)"

definition validate_format :: "pylib \<Rightarrow> std_format \<Rightarrow> xvalue \<Rightarrow> verror option" where
  "validate_format L fmt v = map_option (\<lambda>exc. (R_FORMAT, MBadFormat (py_of v) fmt exc)) (format_error L fmt (py_str L v))"

definition validate_minimum :: "pyfloat \<Rightarrow> xvalue \<Rightarrow> verror option res" where
  "validate_minimum lo v = (case float_of v of
     Inl e \<Rightarrow> if e \<in> {TypeErr, ValueErr} then Inr (Some (R_MINIMUM, MNotNumber (py_of v))) else Inl e
   | Inr num \<Rightarrow> Inr (if fl_lt num lo then Some (R_MINIMUM, MBelow (py_of v) lo) else None))"

definition validate_maximum :: "pyfloat \<Rightarrow> xvalue \<Rightarrow> verror option res" where
  "validate_maximum hi v = (case float_of v of
     Inl e \<Rightarrow> if e \<in> {TypeErr, ValueErr} then Inr (Some (R_MAXIMUM, MNotNumber (py_of v))) else Inl e
   | Inr num \<Rightarrow> Inr (if fl_lt hi num then Some (R_MAXIMUM, MAbove (py_of v) hi) else None))"

definition run_spec :: "pylib \<Rightarrow> xvalue \<Rightarrow> validator_spec \<Rightarrow> verror option res" where
  "run_spec L v sv = (case run_validator L (vs_name sv) v (vs_params sv) of
     Inl e \<Rightarrow> Inl e
   | Inr None \<Rightarrow> Inr None
   | Inr (Some m) \<Rightarrow> Inr (Some (R_VALIDATOR, MValidator (vs_name sv) m (vs_severity sv = SEV_WARNING))))"

section \<open>All constraints of a field\<close>

definition opt_check :: "'a option \<Rightarrow> ('a \<Rightarrow> verror option res) \<Rightarrow> verror option res" where
  "opt_check c f = (case c of None \<Rightarrow> Inr None | Some x \<Rightarrow> f x)"

text \<open>\<open>_run_constraints\<close>: the checks in the order of the code; each contributes at most one error,
  and a raised exception ends the run.\<close>

definition constraint_checks :: "pylib \<Rightarrow> field_spec \<Rightarrow> xvalue \<Rightarrow> verror option res list" where
  "constraint_checks L sp v =
     [opt_check (fs_pattern sp) (\<lambda>p. Inr (validate_pattern L p v)),
      opt_check (fs_format sp) (\<lambda>f. Inr (validate_format L f v)),
      opt_check (fs_enum sp) (\<lambda>ws. Inr (if list_ex (enum_eq v) ws then None else Some (R_ENUM, MNotInEnum (py_of v) ws))),
      opt_check (fs_minimum sp) (\<lambda>lo. validate_minimum lo v),
      opt_check (fs_maximum sp) (\<lambda>hi. validate_maximum hi v)]
     @ map (run_spec L v) (fs_validators sp)"

definition collect_errors :: "verror option res list \<Rightarrow> verror list res" where
  "collect_errors cs = (case map_res id cs of Inl e \<Rightarrow> Inl e | Inr os \<Rightarrow> Inr (map the (filter (\<lambda>x. x \<noteq> None) os)))"

definition run_constraints :: "pylib \<Rightarrow> field_spec \<Rightarrow> xvalue \<Rightarrow> verror list res" where
  "run_constraints L sp v =
     (if v = VNone then Inr []
      else case validate_type (fs_type sp) v of
        Some e \<Rightarrow> Inr [e]
      | None \<Rightarrow> collect_errors (constraint_checks L sp v))"

text \<open>\<open>message.endswith("[warning]")\<close>. Only three messages end with free text: those of a validator,
  where the suffix is appended, and those that end with the text of a library exception.\<close>

definition ends_warning :: "fmessage \<Rightarrow> bool" where
  "ends_warning m = (case m of
     MValidator _ _ w \<Rightarrow> w
   | MBadFormat _ _ exc \<Rightarrow> ends_with exc ''[warning]''
   | MInvalidRegex _ exc \<Rightarrow> ends_with exc ''[warning]''
   | _ \<Rightarrow> False)"

definition verdict :: "verror list \<Rightarrow> field_validation" where
  "verdict errors = \<lparr>fv_valid = list_all (\<lambda>e. ends_warning (snd e)) errors, fv_errors = errors\<rparr>"

definition stamp :: "field_validation \<Rightarrow> xfield \<Rightarrow> xfield" where
  "stamp fv f = upd_meta (\<lambda>m. m\<lparr>xm_validation := fv\<rparr>) f"

section \<open>Fields, arrays and groups\<close>

definition specs_by_name :: "field_spec list \<Rightarrow> string \<Rightarrow> field_spec option" where
  "specs_by_name sps = dict_of (map (\<lambda>s. (fs_name s, s)) sps)"

definition check_sub_field :: "pylib \<Rightarrow> (string \<Rightarrow> field_spec option) \<Rightarrow> xfield \<Rightarrow> (bool \<times> xfield) res" where
  "check_sub_field L sub sf = (case sub (xf_name sf) of
     None \<Rightarrow> Inr (True, sf)
   | Some sp \<Rightarrow> (case run_constraints L sp (xf_value sf) of
       Inl e \<Rightarrow> Inl e
     | Inr errors \<Rightarrow> Inr (fv_valid (verdict errors), stamp (verdict errors) sf)))"

definition check_row :: "pylib \<Rightarrow> (string \<Rightarrow> field_spec option) \<Rightarrow> xfield \<Rightarrow> (bool \<times> xfield) res" where
  "check_row L sub row = (case xf_value row of
     VList sfs \<Rightarrow> (case map_res (check_sub_field L sub) sfs of
        Inl e \<Rightarrow> Inl e
      | Inr rs \<Rightarrow> Inr (list_all fst rs, set_value (VList (map snd rs)) row))
   | _ \<Rightarrow> Inr (True, row))"

definition item_specs :: "field_spec \<Rightarrow> string \<Rightarrow> field_spec option" where
  "item_specs sp = (case fs_items sp of None \<Rightarrow> Map.empty
     | Some it \<Rightarrow> (case fs_fields it of None \<Rightarrow> Map.empty | Some sps \<Rightarrow> specs_by_name sps))"

definition validate_array :: "pylib \<Rightarrow> field_spec \<Rightarrow> xfield \<Rightarrow> xfield res" where
  "validate_array L sp f = (case xf_value f of
     VList rows \<Rightarrow> (case map_res (check_row L (item_specs sp)) rows of
        Inl e \<Rightarrow> Inl e
      | Inr rs \<Rightarrow> Inr (stamp \<lparr>fv_valid = list_all fst rs, fv_errors = []\<rparr> (set_value (VList (map snd rs)) f)))
   | _ \<Rightarrow> Inr (stamp \<lparr>fv_valid = True, fv_errors = []\<rparr> f))"

definition validate_field :: "pylib \<Rightarrow> field_spec \<Rightarrow> xfield \<Rightarrow> xfield res" where
  "validate_field L sp f = (if fs_type sp = T_ARRAY then validate_array L sp f
     else case run_constraints L sp (xf_value f) of
       Inl e \<Rightarrow> Inl e
     | Inr errors \<Rightarrow> Inr (stamp (verdict errors) f))"

definition validate_group :: "pylib \<Rightarrow> (string \<Rightarrow> field_group option) \<Rightarrow> xgroup \<Rightarrow> xgroup res" where
  "validate_group L by_group g = (case by_group (xg_name g) of
     None \<Rightarrow> Inr g
   | Some sg \<Rightarrow> (case map_res (\<lambda>f. case specs_by_name (fg_fields sg) (xf_name f) of
          None \<Rightarrow> Inr f | Some sp \<Rightarrow> validate_field L sp f) (xg_fields g) of
       Inl e \<Rightarrow> Inl e
     | Inr fs \<Rightarrow> Inr (g\<lparr>xg_fields := fs\<rparr>)))"

definition validate_groups :: "pylib \<Rightarrow> field_group list \<Rightarrow> xgroup list \<Rightarrow> xgroup list res" where
  "validate_groups L specs groups =
     (if specs = [] \<or> groups = [] then Inr groups
      else map_res (validate_group L (dict_of (map (\<lambda>g. (fg_name g, g)) specs))) groups)"

section \<open>What validation changes\<close>

text \<open>A tree with every verdict reset; the validator changes nothing else.\<close>

primrec erase_v :: "xvalue \<Rightarrow> xvalue" and erase_f :: "xfield \<Rightarrow> xfield" where
  "erase_v VNone = VNone"
| "erase_v (VStr s) = VStr s"
| "erase_v (VInt i) = VInt i"
| "erase_v (VFloat x) = VFloat x"
| "erase_v (VBool b) = VBool b"
| "erase_v (VList fs) = VList (map erase_f fs)"
| "erase_f (XField m v) = XField (m\<lparr>xm_validation := default_validation\<rparr>) (erase_v v)"

lemma erase_f_eq: "erase_f f = XField ((xf_meta f)\<lparr>xm_validation := default_validation\<rparr>) (erase_v (xf_value f))"
  by (cases f) simp

lemma erase_stamp [simp]: "erase_f (stamp fv f) = erase_f f"
  by (simp add: erase_f_eq stamp_def)

lemma erase_name: "erase_f f = erase_f g \<Longrightarrow> xf_name f = xf_name g"
  unfolding erase_f_eq by (metis xfield.inject xmeta.select_convs(1) xmeta.update_convs(5) xmeta.surjective)

lemma stamp_simps [simp]: "xf_value (stamp fv f) = xf_value f" "xf_name (stamp fv f) = xf_name f"
    "stamp fv (stamp fw f) = stamp fv f" "xm_validation (xf_meta (stamp fv f)) = fv"
  by (simp_all add: stamp_def upd_meta_def)

lemma stamp_set_value: "stamp fv (set_value v f) = set_value v (stamp fv f)"
  by (simp add: stamp_def upd_meta_def set_value_def)

lemma set_value_simps [simp]: "set_value v (set_value w f) = set_value v f" "xf_value f = v \<Longrightarrow> set_value v f = f"
    "erase_f (set_value v f) = set_value (erase_v v) (erase_f f)" "xf_value (erase_f f) = erase_v (xf_value f)"
  by (auto simp: set_value_def erase_f_eq)

text \<open>The value handed to the checks is the value of the field, whose verdicts they do not read; so
  the first pass already gives a fixed point.\<close>

lemma map_res_fixed:
  assumes "map_res f xs = Inr ys" "\<And>x y. x \<in> set xs \<Longrightarrow> f x = Inr y \<Longrightarrow> f (g y) = Inr y"
  shows "map_res f (map g ys) = Inr ys"
  using assms unfolding map_res_Inr by (induction rule: list_all2_induct) auto

lemma map_res_map:
  assumes "map_res f xs = Inr ys" "\<And>x y. x \<in> set xs \<Longrightarrow> f x = Inr y \<Longrightarrow> h y = g x"
  shows "map h ys = map g xs"
  using assms unfolding map_res_Inr by (induction rule: list_all2_induct) auto

lemma check_sub_field_props:
  assumes "check_sub_field L sub sf = Inr r"
  shows "check_sub_field L sub (snd r) = Inr r" and "erase_f (snd r) = erase_f sf"
  using assms by (auto simp: check_sub_field_def split: option.splits sum.splits)

lemma check_row_props:
  assumes "check_row L sub row = Inr r"
  shows "check_row L sub (snd r) = Inr r" and "erase_f (snd r) = erase_f row"
proof -
  have "check_row L sub (snd r) = Inr r \<and> erase_f (snd r) = erase_f row"
  proof (cases "xf_value row")
    case (VList sfs)
    with assms obtain rs where rs: "map_res (check_sub_field L sub) sfs = Inr rs"
        "r = (list_all fst rs, set_value (VList (map snd rs)) row)"
      by (auto simp: check_row_def split: sum.splits)
    have "map_res (check_sub_field L sub) (map snd rs) = Inr rs"
      using rs(1) by (rule map_res_fixed) (rule check_sub_field_props(1))
    moreover have "map (\<lambda>r. erase_f (snd r)) rs = map erase_f sfs"
      using rs(1) by (rule map_res_map) (rule check_sub_field_props(2))
    ultimately show ?thesis using VList rs(2) by (simp add: check_row_def comp_def)
  qed (use assms in \<open>auto simp: check_row_def\<close>)
  then show "check_row L sub (snd r) = Inr r" "erase_f (snd r) = erase_f row" by simp_all
qed

lemma validate_array_props:
  assumes "validate_array L sp f = Inr f'"
  shows "validate_array L sp f' = Inr f'" and "erase_f f' = erase_f f"
proof -
  have "validate_array L sp f' = Inr f' \<and> erase_f f' = erase_f f"
  proof (cases "xf_value f")
    case (VList rows)
    with assms obtain rs where rs: "map_res (check_row L (item_specs sp)) rows = Inr rs"
        "f' = stamp \<lparr>fv_valid = list_all fst rs, fv_errors = []\<rparr> (set_value (VList (map snd rs)) f)"
      by (auto simp: validate_array_def split: sum.splits)
    have "map_res (check_row L (item_specs sp)) (map snd rs) = Inr rs"
      using rs(1) by (rule map_res_fixed) (rule check_row_props(1))
    moreover have "map (\<lambda>r. erase_f (snd r)) rs = map erase_f rows"
      using rs(1) by (rule map_res_map) (rule check_row_props(2))
    ultimately show ?thesis using VList rs(2)
      by (simp add: validate_array_def stamp_set_value comp_def)
  qed (use assms in \<open>auto simp: validate_array_def\<close>)
  then show "validate_array L sp f' = Inr f'" "erase_f f' = erase_f f" by simp_all
qed

lemma validate_field_props:
  assumes "validate_field L sp f = Inr f'"
  shows "validate_field L sp f' = Inr f'" and "erase_f f' = erase_f f"
  using assms validate_array_props [of L sp f f'] by (auto simp: validate_field_def split: if_splits sum.splits)

definition erase_group :: "xgroup \<Rightarrow> xgroup" where
  "erase_group g = g\<lparr>xg_fields := map erase_f (xg_fields g)\<rparr>"

lemma validate_group_props:
  assumes "validate_group L bg g = Inr g'"
  shows "validate_group L bg g' = Inr g'" and "erase_group g' = erase_group g"
proof -
  have "validate_group L bg g' = Inr g' \<and> erase_group g' = erase_group g"
  proof (cases "bg (xg_name g)")
    case (Some sg)
    let ?step = "\<lambda>f. case specs_by_name (fg_fields sg) (xf_name f) of None \<Rightarrow> Inr f | Some sp \<Rightarrow> validate_field L sp f"
    from Some assms obtain fs where fs: "map_res ?step (xg_fields g) = Inr fs" "g' = g\<lparr>xg_fields := fs\<rparr>"
      by (auto simp: validate_group_def split: sum.splits)
    have step: "?step f' = Inr f' \<and> erase_f f' = erase_f f" if "?step f = Inr f'" for f f'
      using that validate_field_props [of L _ f f'] erase_name [of f' f] by (auto split: option.splits)
    have "map_res ?step (map id fs) = Inr fs" using fs(1) by (rule map_res_fixed) (unfold id_apply, use step in blast)
    moreover have "map erase_f fs = map erase_f (xg_fields g)" using fs(1) by (rule map_res_map) (use step in blast)
    ultimately show ?thesis using Some fs(2) by (simp add: validate_group_def erase_group_def)
  qed (use assms in \<open>auto simp: validate_group_def\<close>)
  then show "validate_group L bg g' = Inr g'" "erase_group g' = erase_group g" by simp_all
qed

text \<open>Field validation stamps verdicts and changes nothing else, and running it again on its own
  result changes nothing (the repair stage validates a second time).\<close>

theorem validation_stamps_only:
  assumes "validate_groups L specs gs = Inr gs'"
  shows "map erase_group gs' = map erase_group gs \<and> validate_groups L specs gs' = Inr gs'"
proof (cases "specs = [] \<or> gs = []")
  case False
  let ?bg = "dict_of (map (\<lambda>g. (fg_name g, g)) specs)"
  from False assms have g: "map_res (validate_group L ?bg) gs = Inr gs'" by (simp add: validate_groups_def)
  have "map_res (validate_group L ?bg) (map id gs') = Inr gs'" using g by (rule map_res_fixed) (use validate_group_props in simp)
  moreover have "map erase_group gs' = map erase_group gs" using g by (rule map_res_map) (rule validate_group_props(2))
  ultimately show ?thesis by (simp add: validate_groups_def)
qed (use assms in \<open>auto simp: validate_groups_def\<close>)

section \<open>Which validators let an exception escape\<close>

lemma on_str_Inl: "on_str v k = Inl e \<longleftrightarrow> (\<exists>s. need_str v = Some s \<and> k s = Inl e)"
  by (simp add: on_str_def reject_def split: option.split)

lemma accept_if_Inr [simp]: "accept_if ok what v \<noteq> Inl e"
  by (simp add: accept_if_def reject_def)

lemma country_param_Inl:
  "country_param ps d = Inl e \<longleftrightarrow> truthy (dict_get ps ''country'') \<and> (\<forall>c. dict_get ps ''country'' \<noteq> PStr c) \<and> e = AttributeErr"
  by (auto simp: country_param_def Let_def split: pyval.split)

lemma country_case_Inl:
  assumes "\<And>c. g c \<noteq> (Inl e :: check)"
  shows "(case country_param ps d of Inl e' \<Rightarrow> Inl e' | Inr c \<Rightarrow> g c) = Inl e \<longleftrightarrow>
    truthy (dict_get ps ''country'') \<and> (\<forall>c. dict_get ps ''country'' \<noteq> PStr c) \<and> e = AttributeErr"
  unfolding country_param_Inl [of ps d e, symmetric] using assms by (cases "country_param ps d") auto

lemma float_of_Inl_other:
  "float_of v = Inl e \<and> e \<notin> {TypeErr, ValueErr} \<longleftrightarrow> (\<exists>i. v = VInt i \<and> \<not> \<bar>of_int i\<bar> < float_limit) \<and> e = OverflowErr"
  by (auto simp: float_of_def split: xvalue.split option.split)

lemma on_float_Inl: "(\<And>f. k f \<noteq> Inl e) \<Longrightarrow> on_float v what k = Inl e \<longleftrightarrow> float_of v = Inl e \<and> e \<notin> {TypeErr, ValueErr}"
  by (auto simp: on_float_def reject_def split: sum.split)

lemma check_amount_Inl: "check_amount v ps = Inl e \<longleftrightarrow> (\<exists>i. v = VInt i \<and> \<not> \<bar>of_int i\<bar> < float_limit) \<and> e = OverflowErr"
  unfolding check_amount_def by (rule trans [OF on_float_Inl float_of_Inl_other]) (simp add: reject_def)

lemma check_range_Inl: "check_range w b v = Inl e \<longleftrightarrow> (\<exists>i. v = VInt i \<and> \<not> \<bar>of_int i\<bar> < float_limit) \<and> e = OverflowErr"
  unfolding check_range_def by (rule trans [OF on_float_Inl float_of_Inl_other]) (simp add: reject_def)

lemma other_checks_Inr:
  "check_email v \<noteq> Inl e" "check_domain v \<noteq> Inl e" "check_slug v \<noteq> Inl e" "check_ipv4 L v \<noteq> Inl e"
  "check_ipv6 L v \<noteq> Inl e" "check_date L v \<noteq> Inl e" "check_datetime L v \<noteq> Inl e" "check_time L v \<noteq> Inl e"
  "check_uuid L v \<noteq> Inl e" "check_json L v \<noteq> Inl e" "check_hex_color v \<noteq> Inl e" "check_iban v \<noteq> Inl e"
  "check_bic v \<noteq> Inl e" "check_credit_card L v \<noteq> Inl e" "check_currency_code v \<noteq> Inl e"
  "check_phone_e164 L v \<noteq> Inl e" "check_country_code v \<noteq> Inl e" "check_language_code v \<noteq> Inl e"
  "check_nif v \<noteq> Inl e" "check_nie v \<noteq> Inl e" "check_cif v \<noteq> Inl e" "check_ssn v \<noteq> Inl e" "check_passport_number v \<noteq> Inl e"
  by (simp_all add: check_email_def check_domain_def check_slug_def check_ipv4_def check_ipv6_def check_date_def
      check_datetime_def check_time_def check_uuid_def check_json_def check_hex_color_def check_iban_def check_bic_def
      check_credit_card_def check_currency_code_def check_phone_e164_def check_country_code_def check_language_code_def
      check_nif_def check_nie_def check_cif_def check_ssn_def check_passport_number_def on_str_Inl Let_def reject_def)

text \<open>Exactly which validator calls raise instead of returning a verdict: the URI and URL checks on text
  \<open>urlparse\<close> refuses, the postal code and VAT checks when the \<open>country\<close> parameter is a value other
  than text, and the numeric checks on an integer beyond the range of a double. No other checker of
  the catalogue raises on any value.\<close>

theorem validator_exceptions:
  "run_validator L t v ps = Inl e \<longleftrightarrow>
     (t \<in> {V_URI, V_URL} \<and> (\<exists>s. need_str v = Some s \<and> pl_urlparse L s = None) \<and> e = ValueErr)
   \<or> (t \<in> {V_POSTAL_CODE, V_VAT_ID} \<and> need_str v \<noteq> None \<and> truthy (dict_get ps ''country'')
       \<and> (\<nexists>c. dict_get ps ''country'' = PStr c) \<and> e = AttributeErr)
   \<or> (t \<in> {V_AMOUNT, V_LATITUDE, V_LONGITUDE} \<and> (\<exists>i. v = VInt i \<and> float_limit \<le> \<bar>of_int i\<bar>) \<and> e = OverflowErr)"
proof -
  have uri: "check_uri L v = Inl e \<longleftrightarrow> (\<exists>s. need_str v = Some s \<and> pl_urlparse L s = None) \<and> e = ValueErr"
    by (auto simp: check_uri_def on_str_Inl split: option.splits) (metis option.exhaust surj_pair)
  have postal: "check_postal_code v ps = Inl e \<longleftrightarrow> need_str v \<noteq> None \<and> truthy (dict_get ps ''country'')
       \<and> (\<nexists>c. dict_get ps ''country'' = PStr c) \<and> e = AttributeErr"
    unfolding check_postal_code_def on_str_Inl by (subst country_case_Inl) auto
  have vat: "check_vat_id v ps = Inl e \<longleftrightarrow> need_str v \<noteq> None \<and> truthy (dict_get ps ''country'')
       \<and> (\<nexists>c. dict_get ps ''country'' = PStr c) \<and> e = AttributeErr"
    unfolding check_vat_id_def on_str_Inl Let_def by (subst country_case_Inl) auto
  show ?thesis
    by (cases t) (simp_all add: run_validator_def checker_def other_checks_Inr uri postal vat check_amount_Inl check_latitude_def
        check_longitude_def check_range_Inl not_less)
qed

section \<open>What a verdict means\<close>

lemma collect_errors_valid:
  assumes "collect_errors cs = Inr es"
  shows "fv_valid (verdict es) \<longleftrightarrow> (\<forall>c\<in>set cs. \<forall>r m. c = Inr (Some (r, m)) \<longrightarrow> ends_warning m)"
    and "\<forall>c\<in>set cs. \<exists>x. c = Inr x"
proof -
  obtain os where os: "map_res id cs = Inr os" "es = map the (filter (\<lambda>x. x \<noteq> None) os)"
    using assms by (auto simp: collect_errors_def split: sum.splits)
  from os(1) have cs: "cs = map Inr os" unfolding map_res_Inr by (induction rule: list_all2_induct) auto
  show "\<forall>c\<in>set cs. \<exists>x. c = Inr x" using cs by auto
  show "fv_valid (verdict es) \<longleftrightarrow> (\<forall>c\<in>set cs. \<forall>r m. c = Inr (Some (r, m)) \<longrightarrow> ends_warning m)"
    using os(2) cs by (force simp: verdict_def list_all_iff)
qed

text \<open>A value meets a specification: the reference the verdict is compared with. Problems a caller marked as
  warnings, and library messages that happen to end like one, do not count.\<close>

definition meets :: "pylib \<Rightarrow> field_spec \<Rightarrow> xvalue \<Rightarrow> bool" where
  "meets L sp v \<longleftrightarrow> v = VNone \<or>
     (type_ok (fs_type sp) v
      \<and> (\<forall>p. fs_pattern sp = Some p \<longrightarrow> (case pl_compile L p of
             Inr matches \<Rightarrow> matches (py_str L v) | Inl exc \<Rightarrow> ends_with exc ''[warning]''))
      \<and> (\<forall>f exc. fs_format sp = Some f \<longrightarrow> format_error L f (py_str L v) = Some exc \<longrightarrow> ends_with exc ''[warning]'')
      \<and> (\<forall>ws. fs_enum sp = Some ws \<longrightarrow> (\<exists>w\<in>set ws. enum_eq v w))
      \<and> (\<forall>lo. fs_minimum sp = Some lo \<longrightarrow> (\<exists>x. float_of v = Inr x \<and> \<not> fl_lt x lo))
      \<and> (\<forall>hi. fs_maximum sp = Some hi \<longrightarrow> (\<exists>x. float_of v = Inr x \<and> \<not> fl_lt hi x))
      \<and> (\<forall>sv\<in>set (fs_validators sp). vs_severity sv = SEV_ERROR \<longrightarrow> run_validator L (vs_name sv) v (vs_params sv) = pass))"

lemma severity_not_warning: "vs_severity sv \<noteq> SEV_WARNING \<longleftrightarrow> vs_severity sv = SEV_ERROR"
  by (cases "vs_severity sv") simp_all

lemma opt_check_soft: "(\<forall>r m. opt_check c f = Inr (Some (r, m)) \<longrightarrow> ends_warning m) \<longleftrightarrow>
    (\<forall>x. c = Some x \<longrightarrow> (\<forall>r m. f x = Inr (Some (r, m)) \<longrightarrow> ends_warning m))"
  by (simp add: opt_check_def split: option.split)

lemma run_constraints_valid:
  assumes "run_constraints L sp v = Inr es"
  shows "fv_valid (verdict es) \<longleftrightarrow> meets L sp v"
proof (cases "v = VNone \<or> \<not> type_ok (fs_type sp) v")
  case True
  with assms show ?thesis
    by (auto simp: run_constraints_def validate_type_def verdict_def meets_def ends_warning_def)
next
  case False
  with assms have col: "collect_errors (constraint_checks L sp v) = Inr es"
    by (simp add: run_constraints_def validate_type_def)
  note valid = collect_errors_valid [OF col]
  have pat: "(\<forall>r m. validate_pattern L p v = Some (r, m) \<longrightarrow> ends_warning m) \<longleftrightarrow>
      (case pl_compile L p of Inr matches \<Rightarrow> matches (py_str L v) | Inl exc \<Rightarrow> ends_with exc ''[warning]'')" for p
    by (auto simp: validate_pattern_def ends_warning_def split: sum.split)
  have fmt: "(\<forall>r m. validate_format L f v = Some (r, m) \<longrightarrow> ends_warning m) \<longleftrightarrow>
      (\<forall>exc. format_error L f (py_str L v) = Some exc \<longrightarrow> ends_with exc ''[warning]'')" for f
    by (auto simp: validate_format_def ends_warning_def)
  have enum: "\<not> ends_warning (MNotInEnum w ws)" for w ws by (simp add: ends_warning_def)
  have lo: "(\<forall>r m. validate_minimum lo v = Inr (Some (r, m)) \<longrightarrow> ends_warning m) \<longleftrightarrow> (\<exists>x. float_of v = Inr x \<and> \<not> fl_lt x lo)"
    if "fs_minimum sp = Some lo" for lo
    using valid(2) that by (auto simp: constraint_checks_def opt_check_def validate_minimum_def ends_warning_def split: sum.splits if_splits)
  have hi: "(\<forall>r m. validate_maximum hi v = Inr (Some (r, m)) \<longrightarrow> ends_warning m) \<longleftrightarrow> (\<exists>x. float_of v = Inr x \<and> \<not> fl_lt hi x)"
    if "fs_maximum sp = Some hi" for hi
    using valid(2) that by (auto simp: constraint_checks_def opt_check_def validate_maximum_def ends_warning_def split: sum.splits if_splits)
  have sv: "(\<forall>r m. run_spec L v s = Inr (Some (r, m)) \<longrightarrow> ends_warning m) \<longleftrightarrow>
      (vs_severity s = SEV_ERROR \<longrightarrow> run_validator L (vs_name s) v (vs_params s) = pass)" if "s \<in> set (fs_validators sp)" for s
  proof -
    have "\<exists>x. run_spec L v s = Inr x" using valid(2) that by (simp add: constraint_checks_def)
    then show ?thesis
      using severity_not_warning [of s] by (auto simp: run_spec_def ends_warning_def split: sum.splits option.splits)
  qed
  show ?thesis
    unfolding valid(1) constraint_checks_def meets_def
    using False by (simp add: opt_check_soft pat fmt enum lo hi sv list_ex_iff) blast
qed

text \<open>C37: the verdict on a field that is not an array is exactly the specification. Whenever validation of
  the field returns, it is marked valid if and only if its value is null or meets the type, the
  pattern, the format, the enum, both bounds and every validator of severity error.\<close>

theorem field_verdict:
  assumes "fs_type sp \<noteq> T_ARRAY" and "validate_field L sp f = Inr f'"
  shows "fv_valid (xm_validation (xf_meta f')) \<longleftrightarrow> meets L sp (xf_value f)"
proof -
  from assms obtain es where "run_constraints L sp (xf_value f) = Inr es" "f' = stamp (verdict es) f"
    by (auto simp: validate_field_def split: sum.splits)
  with run_constraints_valid show ?thesis by simp
qed

section \<open>Sample schema\<close>

definition plain_spec :: "string \<Rightarrow> field_type \<Rightarrow> field_spec" where
  "plain_spec n t = FieldSpec n t False None None None None None None None []"

definition nif_spec :: field_spec where
  "nif_spec = FieldSpec ''nif'' T_STRING True None None None None None None None
     [\<lparr>vs_name = V_NIF, vs_params = [], vs_severity = SEV_ERROR\<rparr>]"

definition rows_spec :: field_spec where
  "rows_spec = FieldSpec ''owners'' T_ARRAY True None None None None None
     (Some (FieldSpec ''owner'' T_OBJECT False None None None None None None (Some [nif_spec]) [])) None []"

definition uri_spec :: "string \<Rightarrow> severity \<Rightarrow> field_spec" where
  "uri_spec n sev = FieldSpec n T_STRING False None None None None None None None
     [\<lparr>vs_name = V_URI, vs_params = [], vs_severity = sev\<rparr>]"

definition leaf :: "string \<Rightarrow> xvalue \<Rightarrow> xfield" where
  "leaf n v = XField (plain_meta n) v"

definition sample_tree :: "xgroup list" where
  "sample_tree = [\<lparr>xg_name = ''parties'', xg_fields = [leaf ''owners'' (VList [leaf ''owner'' (VList
     [leaf ''nif'' (VStr ''12345678A'')])]), leaf ''other'' (VInt 3)]\<rparr>]"

definition sample_schema :: "field_group list" where
  "sample_schema = [\<lparr>fg_name = ''parties'', fg_fields = [rows_spec]\<rparr>]"

lemma bad_nif: "run_constraints L nif_spec (VStr ''12345678A'') =
    Inr [(R_VALIDATOR, MValidator V_NIF (NotA ''Spanish NIF with a valid checksum'' (PStr ''12345678A'')) False)]"
proof -
  have n: "py_strip ''12345678A'' = ''12345678A''" "raw_id ''12345678A'' = ''12345678A''"
    "fullmatch (Seq (times_rx digit_rx 8) upper_rx) ''12345678A''" by code_simp+
  have "check_nif (VStr ''12345678A'') = reject (NotA ''Spanish NIF with a valid checksum'' (PStr ''12345678A''))"
    by (simp add: check_nif_def on_str_def need_str_def n Let_def int_of_str_def nat_of_digits_def digit_val_def
        code_point_def nif_letters_def)
  then show ?thesis
    by (simp add: run_constraints_def nif_spec_def validate_type_def type_ok_def collect_errors_def constraint_checks_def
        opt_check_def run_spec_def run_validator_def checker_def reject_def)
qed

lemma sample_validated: "\<exists>r. validate_groups L sample_schema sample_tree = Inr r"
proof -
  have r: "item_specs rows_spec = specs_by_name [nif_spec]" by (simp add: item_specs_def rows_spec_def)
  have n: "fs_name nif_spec = ''nif''" "fs_name rows_spec = ''owners''" "fs_type rows_spec = T_ARRAY"
    by (simp_all add: nif_spec_def rows_spec_def)
  show ?thesis
    by (simp add: validate_groups_def sample_schema_def sample_tree_def validate_group_def dict_of_def specs_by_name_def n
        leaf_def plain_meta_def validate_field_def validate_array_def r check_row_def check_sub_field_def bad_nif)
qed

theorem validation_stamps_only_witness:
  "\<exists>r. validate_groups no_pylib sample_schema sample_tree = Inr r \<and> map erase_group r = map erase_group sample_tree
     \<and> validate_groups no_pylib sample_schema r = Inr r"
proof -
  obtain r where "validate_groups no_pylib sample_schema sample_tree = Inr r" using sample_validated by blast
  with validation_stamps_only [OF this] show ?thesis by blast
qed

theorem field_verdict_witness:
  "\<exists>f'. validate_field no_pylib nif_spec (leaf ''nif'' (VStr ''12345678A'')) = Inr f'
     \<and> \<not> fv_valid (xm_validation (xf_meta f')) \<and> \<not> meets no_pylib nif_spec (VStr ''12345678A'')"
proof -
  have t: "fs_type nif_spec \<noteq> T_ARRAY" by (simp add: nif_spec_def)
  have v: "validate_field no_pylib nif_spec (leaf ''nif'' (VStr ''12345678A'')) = Inr (stamp (verdict
      [(R_VALIDATOR, MValidator V_NIF (NotA ''Spanish NIF with a valid checksum'' (PStr ''12345678A'')) False)])
      (leaf ''nif'' (VStr ''12345678A'')))"
    by (simp add: validate_field_def t leaf_def bad_nif)
  from field_verdict [OF t v] show ?thesis using v by (simp add: verdict_def ends_warning_def leaf_def)
qed

section \<open>Where the verdict surprises\<close>

text \<open>A hard format error is demoted by the text it quotes. \<open>strptime\<close> reports text left over after a
  date, so a date followed by anything that ends in \<open>[warning]\<close> violates the date format, the error
  is recorded, and the field is still marked valid, although no validator has severity warning.\<close>

theorem format_error_demoted:
  "\<exists>f'. validate_field L (FieldSpec n T_STRING req None (Some F_DATE) None None None None None [])
         (XField m (VStr (''2024-01-15'' @ x @ ''[warning]''))) = Inr f'
     \<and> fv_errors (xm_validation (xf_meta f')) =
         [(R_FORMAT, MBadFormat (PStr (''2024-01-15'' @ x @ ''[warning]'')) F_DATE (''unconverted data remains: '' @ x @ ''[warning]''))]
     \<and> fv_valid (xm_validation (xf_meta f'))"
proof -
  obtain c cs where c: "x @ ''[warning]'' = c # cs" by (cases x) auto
  have e: "strptime_error (''2024-01-15'' @ x @ ''[warning]'') = Some (''unconverted data remains: '' @ x @ ''[warning]'')"
  proof -
    have "fullmatch (times_rx digit_rx 4) ''2024''" by code_simp
    moreover have "strp_month (''01-15'' @ c # cs) = Some (1, ''-15'' @ c # cs)"
      by (simp add: strp_month_def in_range_def code_point_def int_of_str_def nat_of_digits_def digit_val_def)
    moreover have "strp_day (''15'' @ c # cs) = Some (15, c # cs)"
      by (simp add: strp_day_def is_digit_def code_point_def int_of_str_def nat_of_digits_def digit_val_def)
    ultimately show ?thesis unfolding c by (simp add: strptime_error_def)
  qed
  have w: "ends_with (''unconverted data remains: '' @ x @ ''[warning]'') ''[warning]''"
    using ends_with_append [of "''unconverted data remains: '' @ x" "''[warning]''"] by simp
  show ?thesis
    using e w
    by (simp add: validate_field_def run_constraints_def validate_type_def type_ok_def collect_errors_def constraint_checks_def
        opt_check_def validate_format_def format_error_def py_str_def verdict_def ends_warning_def)
qed

text \<open>The members of an object are not validated. For a field of type object with no constraint of its
  own, validation returns, whatever the declarations of the members and their values, with the
  members exactly as they came and the object marked valid.\<close>

theorem object_members_unchecked:
  "\<exists>f'. validate_field L (FieldSpec n T_OBJECT req None None None None None None (Some members) []) f = Inr f'
     \<and> xf_value f' = xf_value f \<and> xm_validation (xf_meta f') = default_validation"
  by (simp add: validate_field_def run_constraints_def validate_type_def type_ok_def collect_errors_def constraint_checks_def
      opt_check_def verdict_def default_validation_def)

text \<open>One value can end the validation of a whole task. If \<open>urlparse\<close> raises on the text of a field whose
  specification lists the URI validator, even with severity warning, then \<open>validate\<close> raises
  \<open>ValueError\<close> and no verdict of the group is returned; the same text under the URI format is an
  ordinary recorded error.\<close>

theorem uri_validator_escapes:
  assumes "pl_urlparse L s = None" and "py_strip s = s" and "s \<noteq> []"
  shows "validate_groups L [\<lparr>fg_name = g, fg_fields = [uri_spec n sev]\<rparr>]
          (\<lparr>xg_name = g, xg_fields = leaf n (VStr s) # fs\<rparr> # gs) = Inl ValueErr
    \<and> format_error L F_URI s = Some ''Invalid URL''"
proof -
  have "run_validator L V_URI (VStr s) [] = Inl ValueErr"
    using assms by (simp add: run_validator_def checker_def check_uri_def on_str_def need_str_def)
  then show ?thesis
    using assms(1) by (simp add: validate_groups_def validate_group_def dict_of_def specs_by_name_def validate_field_def run_constraints_def
        validate_type_def type_ok_def collect_errors_def constraint_checks_def opt_check_def run_spec_def format_error_def
        uri_spec_def leaf_def plain_meta_def)
qed

theorem uri_validator_escapes_witness:
  "validate_groups no_pylib [\<lparr>fg_name = ''g'', fg_fields = [uri_spec ''site'' SEV_WARNING]\<rparr>]
     [\<lparr>xg_name = ''g'', xg_fields = [leaf ''site'' (VStr ''http://[::1'')]\<rparr>] = Inl ValueErr"
proof -
  have "pl_urlparse no_pylib ''http://[::1'' = None" by (simp add: no_pylib_def)
  moreover have "py_strip ''http://[::1'' = ''http://[::1''" by code_simp
  ultimately show ?thesis using uri_validator_escapes [of no_pylib "''http://[::1''" "''g''" "''site''" SEV_WARNING "[]" "[]"] by simp
qed

end
