(* ===== verification/FileInput.thy ===== *)
theory FileInput
  imports Prelude
begin

text \<open>
  The file part of a request: \<open>FileInput\<close> (\<open>interfaces/dtos/extract.py\<close>), the size and
  encoding gate of the synchronous controller (\<open>web/controllers/extract_controller.py\<close>),
  and the SDK constructor that encodes a file (\<open>flydocs_sdk/models.py\<close>). Base64 is the
  standard library's: \<open>b64decode (validate=True)\<close> accepts the alphabet of RFC 4648 in
  quadruples with padding in the last one only. Bytes are naturals below 256.
\<close>

section \<open>Base64\<close>

definition b64_val :: "char \<Rightarrow> nat option" where
  "b64_val c = (let n = code_point c in
     if 65 \<le> n \<and> n \<le> 90 then Some (n - 65)
     else if 97 \<le> n \<and> n \<le> 122 then Some (n - 71)
     else if 48 \<le> n \<and> n \<le> 57 then Some (n + 4)
     else if n = 43 then Some 62
     else if n = 47 then Some 63
     else None)"

definition b64_char :: "nat \<Rightarrow> char" where
  "b64_char v = char_of (if v < 26 then v + 65 else if v < 52 then v + 71
     else if v < 62 then v - 4 else if v = 62 then 43 else 47)"

definition quad_bytes :: "nat \<Rightarrow> nat \<Rightarrow> nat \<Rightarrow> nat \<Rightarrow> nat list" where
  "quad_bytes a b c d = [a * 4 + b div 16, (b mod 16) * 16 + c div 4, (c mod 4) * 64 + d]"

fun b64_strict :: "string \<Rightarrow> nat list option" where
  "b64_strict [] = Some []"
| "b64_strict (a # b # c # d # cs) =
     (case (b64_val a, b64_val b) of
        (Some va, Some vb) \<Rightarrow>
          (case (b64_val c, b64_val d) of
             (Some vc, Some vd) \<Rightarrow> map_option (\<lambda>bs. quad_bytes va vb vc vd @ bs) (b64_strict cs)
           | (Some vc, None) \<Rightarrow>
               if d = CHR ''='' \<and> cs = [] then Some (take 2 (quad_bytes va vb vc 0)) else None
           | (None, None) \<Rightarrow>
               if c = CHR ''='' \<and> d = CHR ''='' \<and> cs = [] then Some (take 1 (quad_bytes va vb 0 0)) else None
           | (None, Some _) \<Rightarrow> None)
      | _ \<Rightarrow> None)"
| "b64_strict _ = None"

fun b64_encode :: "nat list \<Rightarrow> string" where
  "b64_encode [] = []"
| "b64_encode [x] = [b64_char (x div 4), b64_char ((x mod 4) * 16), CHR ''='', CHR ''='']"
| "b64_encode [x, y] =
     [b64_char (x div 4), b64_char ((x mod 4) * 16 + y div 16), b64_char ((y mod 16) * 4), CHR ''='']"
| "b64_encode (x # y # z # bs) =
     b64_char (x div 4) # b64_char ((x mod 4) * 16 + y div 16)
       # b64_char ((y mod 16) * 4 + z div 64) # b64_char (z mod 64) # b64_encode bs"

lemma b64_val_char [simp]: "v < 64 \<Longrightarrow> b64_val (b64_char v) = Some v"
  by (auto simp: b64_val_def b64_char_def code_point_def Let_def)

lemma b64_val_pad [simp]: "b64_val (CHR ''='') = None"
  by (simp add: b64_val_def code_point_def)

lemma sextets:
  fixes x y z :: nat
  assumes "x < 256" "y < 256" "z < 256"
  shows "x div 4 < 64" "x mod 4 * 16 + y div 16 < 64" "y mod 16 * 4 + z div 64 < 64" "z mod 64 < 64"
proof -
  have "x mod 4 \<le> 3" "y div 16 \<le> 15" "y mod 16 \<le> 15" "z div 64 \<le> 3" using assms by simp_all
  then show "x mod 4 * 16 + y div 16 < 64" "y mod 16 * 4 + z div 64 < 64" by linarith+
qed (use assms in simp_all)

lemma quad_bytes_split:
  assumes "x < 256" "y < 256" "z < 256"
  shows "quad_bytes (x div 4) (x mod 4 * 16 + y div 16) (y mod 16 * 4 + z div 64) (z mod 64) = [x, y, z]"
proof -
  have "y div 16 < 16" "z div 64 < 4" using assms by simp_all
  then have "(x mod 4 * 16 + y div 16) div 16 = x mod 4" "(x mod 4 * 16 + y div 16) mod 16 = y div 16"
    "(y mod 16 * 4 + z div 64) div 4 = y mod 16" "(y mod 16 * 4 + z div 64) mod 4 = z div 64"
    by (simp_all add: div_add1_eq mod_mult_self3)
  then show ?thesis by (simp add: quad_bytes_def)
qed

lemma b64_roundtrip: "\<forall>b\<in>set bs. b < 256 \<Longrightarrow> b64_strict (b64_encode bs) = Some bs"
proof (induction bs rule: b64_encode.induct)
  case (2 x)
  with sextets [of x 0 0] quad_bytes_split [of x 0 0] show ?case by simp
next
  case (3 x y)
  with sextets [of x y 0] quad_bytes_split [of x y 0] show ?case by simp
next
  case (4 x y z bs)
  with sextets [of x y z] quad_bytes_split [of x y z] show ?case by simp
qed simp

lemma b64_length:
  "b64_strict s = Some bs \<Longrightarrow> length bs \<le> length s * 3 div 4 \<and> length s * 3 div 4 \<le> length bs + 2"
proof (induction s arbitrary: bs rule: b64_strict.induct)
  case (2 a b c d cs)
  obtain va vb where ab: "b64_val a = Some va" "b64_val b = Some vb"
    using "2.prems" by (auto split: option.splits)
  consider (full) vc vd where "b64_val c = Some vc" "b64_val d = Some vd"
    | (two) vc where "b64_val c = Some vc" "b64_val d = None"
    | (one) "b64_val c = None" "b64_val d = None"
    using "2.prems" ab by (cases "b64_val c"; cases "b64_val d") auto
  then show ?case
  proof cases
    case full
    then obtain bs' where "b64_strict cs = Some bs'" "bs = quad_bytes va vb vc vd @ bs'"
      using "2.prems" ab by auto
    with "2.IH" [OF refl ab refl full] show ?thesis by (auto simp: quad_bytes_def)
  next
    case two
    with "2.prems" ab show ?thesis by (auto simp: quad_bytes_def split: if_splits)
  next
    case one
    with "2.prems" ab show ?thesis by (auto simp: quad_bytes_def split: if_splits)
  qed
qed auto

section \<open>FileInput\<close>

record file_input =
  f_filename :: string
  f_content :: "string option"
  f_ctype :: "string option"
  f_expected :: "string option"

text \<open>\<open>value.split(",", 1)[1]\<close>\<close>

definition after_comma :: "string \<Rightarrow> string" where
  "after_comma s = drop 1 (dropWhile (\<lambda>c. c \<noteq> CHR '','') s)"

definition strip_data_url :: "string \<Rightarrow> string" where
  "strip_data_url v = (if CHR '','' \<in> set v \<and> starts_with v ''data:'' then after_comma v else v)"

datatype file_error = InvalidBase64 | ContentNotSet

fun validate_base64 :: "string option \<Rightarrow> file_error + string option" where
  "validate_base64 None = Inr None"
| "validate_base64 (Some v) =
     (let v = strip_data_url v in if b64_strict v = None then Inl InvalidBase64 else Inr (Some v))"

text \<open>\<open>decoded_bytes\<close> decodes content that has passed \<open>validate_base64\<close>.\<close>

definition decoded_bytes :: "file_input \<Rightarrow> file_error + nat list" where
  "decoded_bytes f = (case f_content f of
      None \<Rightarrow> Inl ContentNotSet
    | Some v \<Rightarrow> (case b64_strict v of None \<Rightarrow> Inl InvalidBase64 | Some bs \<Rightarrow> Inr bs))"

definition sdk_from_bytes :: "nat list \<Rightarrow> string \<Rightarrow> string option \<Rightarrow> string option \<Rightarrow> file_input" where
  "sdk_from_bytes bs name ct et =
     \<lparr>f_filename = name, f_content = Some (b64_encode bs), f_ctype = ct, f_expected = et\<rparr>"

section \<open>The size gate of the synchronous controller\<close>

datatype gate_error = FileTooLarge string nat | BadBase64 string

definition coalesce_str :: "string option \<Rightarrow> string" where
  "coalesce_str v = (case v of Some s \<Rightarrow> s | None \<Rightarrow> [])"

fun enforce_size_limits :: "nat \<Rightarrow> file_input list \<Rightarrow> gate_error option" where
  "enforce_size_limits max_bytes [] = None"
| "enforce_size_limits max_bytes (f # fs) =
     (let encoded = coalesce_str (f_content f); size = length encoded * 3 div 4 in
      if max_bytes < size then Some (FileTooLarge (f_filename f) size)
      else if encoded \<noteq> [] \<and> b64_strict encoded = None then Some (BadBase64 (f_filename f))
      else enforce_size_limits max_bytes fs)"

lemma b64_val_comma: "b64_val (CHR '','') = None"
  by (simp add: b64_val_def code_point_def)

lemma strict_no_comma: "b64_strict s = Some bs \<Longrightarrow> CHR '','' \<notin> set s"
proof (induction s arbitrary: bs rule: b64_strict.induct)
  case (2 a b c d cs)
  obtain va vb where ab: "b64_val a = Some va" "b64_val b = Some vb"
    using "2.prems" by (auto split: option.splits)
  then have "a \<noteq> CHR '',''" "b \<noteq> CHR '',''" using b64_val_comma by auto
  moreover have "c \<noteq> CHR '',''" "d \<noteq> CHR '',''"
    using "2.prems" ab b64_val_comma by (auto split: option.splits if_splits)
  moreover have "CHR '','' \<notin> set cs"
  proof (cases "b64_val c")
    case None
    with "2.prems" ab show ?thesis by (auto split: option.splits if_splits)
  next
    case (Some vc)
    with "2.prems" ab "2.IH" [OF refl ab refl Some] show ?thesis
      by (cases "b64_val d") (auto split: if_splits)
  qed
  ultimately show ?case by simp
qed (use b64_val_comma in auto)

lemma strip_plain: "b64_strict s = Some bs \<Longrightarrow> strip_data_url s = s"
  using strict_no_comma by (auto simp: strip_data_url_def)

lemma strip_data: "CHR '','' \<notin> set mt \<Longrightarrow> strip_data_url (''data:'' @ mt @ CHR '','' # s) = s"
proof -
  assume "CHR '','' \<notin> set mt"
  then have "dropWhile (\<lambda>c. c \<noteq> CHR '','') (''data:'' @ mt @ CHR '','' # s) = CHR '','' # s"
    by (induction mt) auto
  then show ?thesis by (simp add: strip_data_url_def starts_with_def after_comma_def)
qed

lemma gate_passes:
  "enforce_size_limits m fs = None \<Longrightarrow> f \<in> set fs \<Longrightarrow> f_content f = Some v \<Longrightarrow>
     \<exists>bs. b64_strict v = Some bs \<and> length bs \<le> m"
proof (induction fs)
  case (Cons g fs)
  show ?case
  proof (cases "f = g")
    case True
    with Cons.prems obtain bs where "b64_strict v = Some bs" "length v * 3 div 4 \<le> m"
      by (cases "v = []") (auto simp: Let_def coalesce_str_def split: if_splits)
    with b64_length [of v bs] show ?thesis by auto
  next
    case False
    with Cons show ?thesis by (auto simp: Let_def split: if_splits)
  qed
qed simp

lemma gate_too_large:
  "enforce_size_limits m fs = Some (FileTooLarge n sz) \<Longrightarrow>
     \<exists>f v. f \<in> set fs \<and> f_filename f = n \<and> f_content f = Some v
         \<and> (\<forall>bs. b64_strict v = Some bs \<longrightarrow> m < length bs + 3)"
proof (induction fs)
  case (Cons g fs)
  show ?case
  proof (cases "m < length (coalesce_str (f_content g)) * 3 div 4")
    case True
    then obtain v where v: "f_content g = Some v" "m < length v * 3 div 4"
      by (auto simp: coalesce_str_def split: option.splits)
    moreover have "f_filename g = n" using Cons.prems True by (simp add: Let_def)
    ultimately show ?thesis using b64_length [of v] by fastforce
  next
    case False
    with Cons show ?thesis by (fastforce simp: Let_def split: if_splits)
  qed
qed simp

section \<open>Properties\<close>

text \<open>A file built by the SDK from raw bytes survives the wire: the server's validator accepts
  its content unchanged, also when it arrives as a \<open>data:\<close> URL, and \<open>decoded_bytes\<close> returns
  the original bytes.\<close>

theorem file_roundtrip:
  assumes "\<forall>b\<in>set bs. b < 256" and "CHR '','' \<notin> set mt"
  shows "decoded_bytes (sdk_from_bytes bs n ct et) = Inr bs
    \<and> validate_base64 (f_content (sdk_from_bytes bs n ct et)) = Inr (Some (b64_encode bs))
    \<and> validate_base64 (Some (''data:'' @ mt @ CHR '','' # b64_encode bs)) = Inr (Some (b64_encode bs))"
  using b64_roundtrip [OF assms(1)] strip_plain strip_data [OF assms(2)]
  by (simp add: decoded_bytes_def sdk_from_bytes_def Let_def)

theorem file_roundtrip_witness:
  "decoded_bytes (sdk_from_bytes [37, 80, 68, 70, 255] ''a.pdf'' None None) = Inr [37, 80, 68, 70, 255]"
  using file_roundtrip [of "[37, 80, 68, 70, 255]" "''application/pdf;base64''"] by simp

text \<open>The size gate is sound and tight up to the two bytes base64 padding can hide. When it
  passes, every file that carries content has valid base64 and at most \<open>max_bytes\<close> bytes; when
  it answers 413, some file of that name decodes to more than \<open>max_bytes - 3\<close> bytes.\<close>

theorem size_gate:
  shows "(enforce_size_limits m fs = None \<longrightarrow> (\<forall>f v. f \<in> set fs \<and> f_content f = Some v \<longrightarrow>
        (\<exists>bs. b64_strict v = Some bs \<and> length bs \<le> m)))
    \<and> (\<forall>n sz. enforce_size_limits m fs = Some (FileTooLarge n sz) \<longrightarrow>
        (\<exists>f v. f \<in> set fs \<and> f_filename f = n \<and> f_content f = Some v
         \<and> (\<forall>bs. b64_strict v = Some bs \<longrightarrow> m < length bs + 3)))"
  using gate_passes gate_too_large by blast

theorem size_gate_witness:
  "(\<exists>bs. b64_strict ''JVBERg=='' = Some bs \<and> length bs \<le> 6)"
proof -
  let ?f = "\<lparr>f_filename = ''a.pdf'', f_content = Some ''JVBERg=='', f_ctype = None, f_expected = None\<rparr>"
  have "enforce_size_limits 6 [?f] = None"
    by (simp add: Let_def coalesce_str_def b64_val_def code_point_def)
  then show ?thesis using size_gate [of 6 "[?f]"] by simp
qed

end
