(* ===== verification/Agents.thy ===== *)
theory Agents
  imports PyText FileInput
begin

text \<open>
  The stages that ask a model and read its structured answer: \<open>DocumentSplitter\<close>,
  \<open>DocumentClassifier\<close>, \<open>VisualAuthenticityChecker\<close>, \<open>ContentAuthenticityChecker\<close> and \<open>Judge\<close>
  (\<open>core/services/splitting\<close>, \<open>classification\<close>, \<open>authenticity\<close>, \<open>judge\<close>), with the data they share with
  the pipeline (\<open>_Segment\<close>, \<open>_ExtractionTask\<close> of \<open>pipeline/orchestrator.py\<close>). The answer of the
  model to a call is an argument; \<open>None\<close> is a call that raises. Prompts are not modelled.
\<close>

section \<open>Splitter\<close>

record discovered =
  ds_start :: int
  ds_end :: int
  ds_provisional :: string
  ds_description :: string
  ds_confidence :: rat

record raw_segment =
  rs_start :: int
  rs_end :: int
  rs_provisional :: string
  rs_description :: string
  rs_confidence :: rat

definition clamp_segment :: "int \<Rightarrow> raw_segment \<Rightarrow> discovered" where
  "clamp_segment pages e = (let start = max 1 (min pages (rs_start e)); end' = max start (min pages (rs_end e)) in
     \<lparr>ds_start = start, ds_end = end', ds_provisional = py_lower (py_strip (rs_provisional e)),
      ds_description = py_strip (rs_description e), ds_confidence = rs_confidence e\<rparr>)"

definition discover :: "int \<Rightarrow> raw_segment list option \<Rightarrow> discovered list option" where
  "discover pages answer =
     (if pages \<le> 1 then Some [\<lparr>ds_start = 1, ds_end = max 1 pages, ds_provisional = [], ds_description = [], ds_confidence = 1\<rparr>]
      else case answer of None \<Rightarrow> None
      | Some raws \<Rightarrow> (let segs = map (clamp_segment pages) raws in
          Some (if segs = [] then [\<lparr>ds_start = 1, ds_end = pages, ds_provisional = [], ds_description = [], ds_confidence = 0\<rparr>]
            else segs)))"

lemma discover_ranges:
  assumes "discover pages answer = Some segs" "1 \<le> pages"
  shows "segs \<noteq> []" and "d \<in> set segs \<Longrightarrow> 1 \<le> ds_start d \<and> ds_start d \<le> ds_end d \<and> ds_end d \<le> pages"
  using assms by (auto simp: discover_def clamp_segment_def Let_def split: if_splits option.splits)

section \<open>Classifier\<close>

record classification =
  cl_type :: string
  cl_confidence :: rat
  cl_description :: string
  cl_notes :: string
  cl_matched :: bool

record raw_class =
  rc_type :: string
  rc_confidence :: rat
  rc_description :: string
  rc_notes :: string

definition unmatched :: string where
  "unmatched = ''unmatched''"

definition classify :: "string list \<Rightarrow> raw_class option \<Rightarrow> classification option" where
  "classify candidates answer =
     (if candidates = [] then Some \<lparr>cl_type = unmatched, cl_confidence = 0, cl_description = [], cl_notes = ''no candidates'', cl_matched = False\<rparr>
      else case answer of None \<Rightarrow> None
      | Some raw \<Rightarrow> (let t = (if py_strip (rc_type raw) = [] then unmatched else py_strip (rc_type raw)); m = (t \<in> set candidates) in
          Some \<lparr>cl_type = (if m then t else unmatched), cl_confidence = (if m then rc_confidence raw else 0),
            cl_description = rc_description raw, cl_notes = rc_notes raw, cl_matched = m\<rparr>))"

lemma classify_matched: "classify cs answer = Some c \<Longrightarrow> cl_matched c \<Longrightarrow> cl_type c \<in> set cs"
  by (auto simp: classify_def Let_def split: if_splits option.splits)

section \<open>Authenticity\<close>

record visual_result =
  vr_name :: string
  vr_passed :: bool
  vr_confidence :: rat
  vr_notes :: "string option"

record raw_visual =
  rv_name :: string
  rv_passed :: bool
  rv_confidence :: rat
  rv_notes :: string

text \<open>One result per declared check, in declaration order; a check the model left out has not passed.\<close>

definition visual_outcome :: "raw_visual list \<Rightarrow> string \<Rightarrow> visual_result" where
  "visual_outcome raws name = (case dict_of (map (\<lambda>v. (rv_name v, v)) raws) name of
     None \<Rightarrow> \<lparr>vr_name = name, vr_passed = False, vr_confidence = 0, vr_notes = Some ''Not evaluated''\<rparr>
   | Some v \<Rightarrow> \<lparr>vr_name = rv_name v, vr_passed = rv_passed v, vr_confidence = rv_confidence v, vr_notes = Some (rv_notes v)\<rparr>)"

definition visual_check :: "doc_type \<Rightarrow> raw_visual list option \<Rightarrow> visual_result list option" where
  "visual_check doc answer = (if dt_visual_checks doc = [] then Some []
     else map_option (\<lambda>raws. map (visual_outcome raws) (dt_visual_checks doc)) answer)"

lemma visual_outcome_name: "vr_name (visual_outcome raws n) = n"
proof (cases "dict_of (map (\<lambda>v. (rv_name v, v)) raws) n")
  case (Some v)
  from dict_of_in [OF this] have "rv_name v = n" by (simp add: image_iff)
  with Some show ?thesis by (simp add: visual_outcome_def)
qed (simp add: visual_outcome_def)

lemma visual_check_names: "visual_check doc answer = Some rs \<Longrightarrow> map vr_name rs = dt_visual_checks doc"
  by (auto simp: visual_check_def visual_outcome_name comp_def split: if_splits)

datatype check_status = CHECK_PASS | CHECK_FAIL | CHECK_UNCERTAIN

datatype integrity_status = INTEGRITY_VALID | INTEGRITY_INVALID | INTEGRITY_UNCERTAIN

record content_check =
  cc_name :: string
  cc_description :: string
  cc_status :: check_status
  cc_evidence :: "string option"
  cc_reasoning :: "string option"

record content_authenticity =
  ca_overall :: integrity_status
  ca_checks :: "content_check list"

section \<open>Judge\<close>

datatype raw_judge = RawJudge (rj_name: string) (rj_status: judge_status) (rj_confidence: rat) (rj_evidence: string)
  (rj_notes: string) (rj_flag: bool) (rj_items: "raw_judge list option")

definition judge_of_raw :: "raw_judge \<Rightarrow> judge_outcome" where
  "judge_of_raw r = \<lparr>jo_status = rj_status r, jo_confidence = rj_confidence r, jo_evidence = Some (rj_evidence r),
     jo_notes = Some (rj_notes r), jo_flag = rj_flag r\<rparr>"

definition raw_by_name :: "raw_judge list \<Rightarrow> string \<Rightarrow> raw_judge option" where
  "raw_by_name rs = dict_of (map (\<lambda>r. (rj_name r, r)) rs)"

lemma size_nested: "XField rm (VList subs) \<in> set rows \<Longrightarrow> s \<in> set subs \<Longrightarrow> size s < Suc (Suc (size_list size rows))"
proof -
  assume a: "XField rm (VList subs) \<in> set rows" "s \<in> set subs"
  have "size s \<le> size_list size subs" using a(2) by (simp add: size_list_estimation')
  moreover have "size_list size subs < size (XField rm (VList subs))" by simp
  moreover have "size (XField rm (VList subs)) \<le> size_list size rows" using a(1) by (simp only: size_list_estimation' [OF _ order_refl])
  ultimately show "size s < Suc (Suc (size_list size rows))" by linarith
qed

text \<open>\<open>_apply\<close>: a field without an entry keeps its verdict; the rows of an array are not judged, the
  fields of a row are.\<close>

function apply_judge :: "xfield \<Rightarrow> raw_judge option \<Rightarrow> xfield" where
  "apply_judge (XField m v) None = XField m v"
| "apply_judge (XField m v) (Some r) = XField (m\<lparr>xm_judge := judge_of_raw r\<rparr>)
     (case v of
        VList rows \<Rightarrow> (case rj_items r of
            Some (i # items) \<Rightarrow> VList (map (\<lambda>row. case row of
                XField rm (VList subs) \<Rightarrow> XField rm (VList (map (\<lambda>s. apply_judge s (raw_by_name (i # items) (xf_name s))) subs))
              | _ \<Rightarrow> row) rows)
          | _ \<Rightarrow> v)
      | _ \<Rightarrow> v)"
  by pat_completeness auto
termination
  by (relation "measure (\<lambda>(f, r). size f)") (auto dest: size_nested)

lemma apply_judge_name [simp]: "xf_name (apply_judge f r) = xf_name f"
  by (cases "(f, r)" rule: apply_judge.cases) auto

lemma apply_judge_none [simp]: "apply_judge f None = f"
  by (cases f) simp

lemma apply_judge_validation [simp]: "xm_validation (xf_meta (apply_judge f r)) = xm_validation (xf_meta f)"
  by (cases "(f, r)" rule: apply_judge.cases) auto

lemma apply_judge_null [simp]: "xf_value (apply_judge f r) = VNone \<longleftrightarrow> xf_value f = VNone"
  by (cases "(f, r)" rule: apply_judge.cases) (auto split: xvalue.split option.split list.split)

type_synonym raw_judge_groups = "(string \<times> raw_judge list) list"

definition judge_groups :: "raw_judge_groups \<Rightarrow> xgroup list \<Rightarrow> xgroup list" where
  "judge_groups raw groups = map (\<lambda>g. g\<lparr>xg_fields := map (\<lambda>f. apply_judge f
      (case dict_of raw (xg_name g) of None \<Rightarrow> None | Some rs \<Rightarrow> raw_by_name rs (xf_name f))) (xg_fields g)\<rparr>) groups"

text \<open>\<open>Judge.judge\<close> with the answer of the model for this call; \<open>None\<close> is a call that raises. An empty
  extraction makes no call.\<close>

definition run_judge :: "raw_judge_groups option \<Rightarrow> xgroup list \<Rightarrow> xgroup list option" where
  "run_judge answer groups = (if groups = [] then Some groups
     else case answer of None \<Rightarrow> None | Some raw \<Rightarrow> Some (judge_groups raw groups))"

section \<open>Segments and tasks\<close>

record segment =
  sg_file_index :: nat
  sg_filename :: string
  sg_media_type :: string
  sg_page_start :: int
  sg_page_end :: int
  sg_file_pages :: int
  sg_provisional :: string
  sg_description :: string
  sg_confidence :: rat
  sg_doctype :: "string option"
  sg_classification :: "classification option"
  sg_pinned :: bool

record task =
  tk_id :: string
  tk_segment :: segment
  tk_doc :: doc_type
  tk_slice :: "nat list"
  tk_pages :: int
  tk_groups :: "xgroup list"
  tk_model :: "string option"
  tk_visual :: "visual_result list"
  tk_content :: "content_authenticity option"

text \<open>\<open>application/pdf\<close>\<close>

definition pdf_type :: string where
  "pdf_type = ''application/pdf''"

end
