(* ===== verification/Repair.thy ===== *)
theory Repair
  imports FieldCheck Agents "HOL-Library.List_Lexorder" "HOL-Library.Multiset"
begin

text \<open>
  \<open>FieldRepairer\<close> (\<open>core/services/repair/field_repairer.py\<close>): failing fields are extracted again and
  replaced only by candidates that come back clean. The extractor and the judge are arguments: per
  call, the groups or the verdicts they answer, or \<open>None\<close> when they raise. The tasks of a request run
  concurrently and share nothing but the totals; the order in which they finish is an argument.
\<close>

section \<open>What failed\<close>

text \<open>The parts of the evidence text, joined with semicolons by the code.\<close>

datatype reason = Verbatim string | Validator fmessage | RowValidator string fmessage

record failing_field =
  ff_group :: string
  ff_field :: string
  ff_value :: xvalue
  ff_evidence :: "reason list"
  ff_pages :: "int list"

definition nonempty_or :: "string option \<Rightarrow> string \<Rightarrow> string" where
  "nonempty_or o' d = (case o' of Some s \<Rightarrow> if s = [] then d else s | None \<Rightarrow> d)"

definition judge_rejects :: "bool \<Rightarrow> xfield \<Rightarrow> bool" where
  "judge_rejects include_flagged f \<longleftrightarrow> jo_status (xm_judge (xf_meta f)) = J_FAIL
     \<or> (include_flagged \<and> jo_flag (xm_judge (xf_meta f)))"

primrec pages_v :: "xvalue \<Rightarrow> int list" and pages_f :: "xfield \<Rightarrow> int list" where
  "pages_v VNone = []"
| "pages_v (VStr s) = []"
| "pages_v (VInt i) = []"
| "pages_v (VFloat x) = []"
| "pages_v (VBool b) = []"
| "pages_v (VList fs) = concat (map pages_f fs)"
| "pages_f (XField m v) = xm_pages m @ pages_v v"

definition field_pages :: "xfield \<Rightarrow> int list" where
  "field_pages f = sort (remdups (pages_f f))"

definition row_error_messages :: "xfield list \<Rightarrow> reason list" where
  "row_error_messages rows = concat (map (\<lambda>row. concat (map (\<lambda>sf.
      map (\<lambda>e. RowValidator (xf_name sf) (snd e)) (fv_errors (xm_validation (xf_meta sf)))) (rows_of (xf_value row)))) rows)"

definition validation_reasons :: "xfield \<Rightarrow> reason list" where
  "validation_reasons f = (let own = map (\<lambda>e. Validator (snd e)) (fv_errors (xm_validation (xf_meta f)));
       msgs = (if own = [] then row_error_messages (rows_of (xf_value f)) else own) in
     if msgs = [] then [Verbatim ''failed validation''] else msgs)"

definition reasons :: "bool \<Rightarrow> xfield \<Rightarrow> reason list" where
  "reasons include_flagged f =
     (if judge_rejects include_flagged f
      then [Verbatim (nonempty_or (jo_evidence (xm_judge (xf_meta f))) (nonempty_or (jo_notes (xm_judge (xf_meta f))) ''judge rejected the value''))]
      else [])
     @ (if \<not> fv_valid (xm_validation (xf_meta f)) then validation_reasons f else [])"

definition failing :: "bool \<Rightarrow> xfield \<Rightarrow> bool" where
  "failing include_flagged f \<longleftrightarrow> reasons include_flagged f \<noteq> []"

definition failure_of :: "bool \<Rightarrow> xgroup \<Rightarrow> xfield \<Rightarrow> failing_field" where
  "failure_of incl g f = \<lparr>ff_group = xg_name g, ff_field = xf_name f, ff_value = xf_value f,
     ff_evidence = reasons incl f, ff_pages = field_pages f\<rparr>"

definition collect_failing_fields :: "bool \<Rightarrow> xgroup list \<Rightarrow> failing_field list" where
  "collect_failing_fields incl groups =
     concat (map (\<lambda>g. map (failure_of incl g) (filter (failing incl) (xg_fields g))) groups)"

lemma failing_iff: "failing incl f \<longleftrightarrow> judge_rejects incl f \<or> \<not> fv_valid (xm_validation (xf_meta f))"
  by (simp add: failing_def reasons_def validation_reasons_def Let_def)

section \<open>Acceptance\<close>

definition is_clean :: "bool \<Rightarrow> xfield \<Rightarrow> bool" where
  "is_clean require_pass f =
     (if xf_value f = VNone then False
      else if \<not> fv_valid (xm_validation (xf_meta f)) then False
      else if require_pass then jo_status (xm_judge (xf_meta f)) = J_PASS \<and> \<not> jo_flag (xm_judge (xf_meta f))
      else jo_status (xm_judge (xf_meta f)) \<noteq> J_FAIL \<and> \<not> jo_flag (xm_judge (xf_meta f)))"

primrec shift_v :: "int \<Rightarrow> xvalue \<Rightarrow> xvalue"
  and shift_pages :: "int \<Rightarrow> xfield \<Rightarrow> xfield" where
  "shift_v k VNone = VNone"
| "shift_v k (VStr s) = VStr s"
| "shift_v k (VInt i) = VInt i"
| "shift_v k (VFloat x) = VFloat x"
| "shift_v k (VBool b) = VBool b"
| "shift_v k (VList fs) = VList (map (shift_pages k) fs)"
| "shift_pages k (XField m v) = XField (m\<lparr>xm_pages := map (\<lambda>p. p + k) (xm_pages m)\<rparr>) (shift_v k v)"

text \<open>\<open>_row_signature\<close> equality: names and values, nested lists field by field.\<close>

lemma size_member: "(a :: xfield) \<in> set fs \<Longrightarrow> size a \<le> Suc (size_list size fs)"
  using size_list_estimation' [of a fs "size a" size] by simp

function same_signature :: "xfield \<Rightarrow> xfield \<Rightarrow> bool" where
  "same_signature (XField m v) (XField m' v') = (xm_name m = xm_name m' \<and> (case (v, v') of
     (VList fs, VList fs') \<Rightarrow> length fs = length fs' \<and> list_all (\<lambda>(a, b). same_signature a b) (zip fs fs')
   | (VList fs, _) \<Rightarrow> False
   | (_, VList fs') \<Rightarrow> False
   | _ \<Rightarrow> enum_eq v (py_of v')))"
  by pat_completeness auto
termination
  by (relation "measure (\<lambda>(f, g). size f)") (auto dest!: set_zip_leftD dest: size_member simp: less_Suc_eq_le)

definition changed_row_count :: "xfield list \<Rightarrow> xfield list \<Rightarrow> nat" where
  "changed_row_count old new = length (filter (\<lambda>(a, b). \<not> same_signature a b) (zip old new))
     + (max (length old) (length new) - min (length old) (length new))"

section \<open>One task\<close>

definition subset_spec :: "doc_type \<Rightarrow> (string \<times> string) set \<Rightarrow> doc_type" where
  "subset_spec doc keys = doc\<lparr>dt_groups := filter (\<lambda>g. fg_fields g \<noteq> [])
     (map (\<lambda>g. g\<lparr>fg_fields := filter (\<lambda>f. (fg_name g, fs_name f) \<in> keys) (fg_fields g)\<rparr>) (dt_groups doc))\<rparr>"

type_synonym slicer = "nat list \<Rightarrow> int \<Rightarrow> int \<Rightarrow> nat list option"

definition repair_slice :: "slicer \<Rightarrow> task \<Rightarrow> failing_field list \<Rightarrow> nat list \<times> int \<times> int" where
  "repair_slice slice t fails =
     (let full = (tk_slice t, tk_pages t, 0) in
      if sg_media_type (tk_segment t) \<noteq> pdf_type then full
      else if fails = [] \<or> (\<exists>f\<in>set fails. ff_pages f = []) then full
      else (let pages = sort (remdups (concat (map ff_pages fails)));
                start = max 1 (hd pages - 1); end' = min (tk_pages t) (last pages + 1) in
        if end' - start + 1 \<ge> tk_pages t then full
        else (case slice (tk_slice t) start end' of
            None \<Rightarrow> full
          | Some sliced \<Rightarrow> (sliced, end' - start + 1, start - 1))))"

record repair_env =
  re_slice :: slicer
  re_extract :: "nat list \<Rightarrow> int \<Rightarrow> doc_type \<Rightarrow> failing_field list \<Rightarrow> xgroup list option"
  re_judge :: "nat list \<Rightarrow> doc_type \<Rightarrow> xgroup list \<Rightarrow> raw_judge_groups option"
  re_lib :: pylib

definition all_fields :: "xgroup list \<Rightarrow> ((string \<times> string) \<times> xfield) list" where
  "all_fields groups = concat (map (\<lambda>g. map (\<lambda>f. ((xg_name g, xf_name f), f)) (xg_fields g)) groups)"

text \<open>Candidates verified again; \<open>None\<close> when the extractor, the validator or the judge raises.\<close>

definition verified_candidates :: "repair_env \<Rightarrow> bool \<Rightarrow> doc_type \<Rightarrow> nat list \<Rightarrow> xgroup list \<Rightarrow> xgroup list option" where
  "verified_candidates env judged sub_doc bytes groups =
     (case validate_groups (re_lib env) (dt_groups sub_doc) groups of
        Inl e \<Rightarrow> None
      | Inr gs \<Rightarrow> if judged then run_judge (re_judge env bytes sub_doc gs) gs else Some gs)"

definition path_of :: "string \<times> string \<Rightarrow> string" where
  "path_of k = fst k @ ''.'' @ snd k"

text \<open>The candidate of a key, if it may replace. An object accepted for several fields of one key is
  shared: each acceptance shifts the pages of the same object.\<close>

definition accepted_candidate :: "bool \<Rightarrow> (string \<times> string) set \<Rightarrow> xgroup list \<Rightarrow> string \<times> string \<Rightarrow> xfield option" where
  "accepted_candidate judged keys cands k =
     (if k \<notin> keys then None
      else case dict_of (all_fields cands) k of
        None \<Rightarrow> None
      | Some c \<Rightarrow> if is_clean judged c then Some c else None)"

definition replacement :: "int \<Rightarrow> xgroup list \<Rightarrow> string \<times> string \<Rightarrow> xfield \<Rightarrow> xfield" where
  "replacement offset groups k c = shift_pages (offset * int (length (filter (\<lambda>x. fst x = k) (all_fields groups)))) c"

definition repaired_groups :: "(string \<times> string \<Rightarrow> xfield option) \<Rightarrow> int \<Rightarrow> xgroup list \<Rightarrow> xgroup list" where
  "repaired_groups acc offset groups = map (\<lambda>g. g\<lparr>xg_fields := map (\<lambda>f.
      case acc (xg_name g, xf_name f) of None \<Rightarrow> f | Some c \<Rightarrow> replacement offset groups (xg_name g, xf_name f) c)
      (xg_fields g)\<rparr>) groups"

definition row_changes :: "(string \<times> string \<Rightarrow> xfield option) \<Rightarrow> xgroup list \<Rightarrow> (string \<times> nat) list" where
  "row_changes acc groups = concat (map (\<lambda>(k, f). case acc k of None \<Rightarrow> []
     | Some c \<Rightarrow> (case (xf_value f, xf_value c) of
         (VList old, VList new) \<Rightarrow> if changed_row_count old new = 0 then [] else [(path_of k, changed_row_count old new)]
       | _ \<Rightarrow> [])) (all_fields groups))"

text \<open>\<open>_repair_one\<close>: the accepted paths, the updates of \<open>rows_changed\<close> and the new groups.\<close>

definition repair_one :: "repair_env \<Rightarrow> bool \<Rightarrow> task \<Rightarrow> failing_field list
    \<Rightarrow> (string list \<times> (string \<times> nat) list \<times> xgroup list) option" where
  "repair_one env judged t fails =
     (let keys = (\<lambda>f. (ff_group f, ff_field f)) ` set fails;
          sub_doc = subset_spec (tk_doc t) keys;
          (bytes, pages, offset) = repair_slice (re_slice env) t fails in
      case re_extract env bytes pages sub_doc fails of
        None \<Rightarrow> None
      | Some [] \<Rightarrow> Some ([], [], tk_groups t)
      | Some groups \<Rightarrow> (case verified_candidates env judged sub_doc bytes groups of
          None \<Rightarrow> None
        | Some cands \<Rightarrow> (let acc = accepted_candidate judged keys cands in
            Some (map (path_of \<circ> fst) (filter (\<lambda>(k, f). acc k \<noteq> None) (all_fields (tk_groups t))),
                  row_changes acc (tk_groups t), repaired_groups acc offset (tk_groups t)))))"

record repair_settings =
  rp_include_flagged :: bool
  rp_max_fraction :: rat

datatype repair_outcome = NothingFailed | TaskSkipped nat | RepairRaised nat
  | Repaired nat "string list" "(string \<times> nat) list" "xgroup list"

definition repair_task :: "repair_settings \<Rightarrow> repair_env \<Rightarrow> bool \<Rightarrow> task \<Rightarrow> repair_outcome" where
  "repair_task cfg env judged t =
     (let fails = collect_failing_fields (rp_include_flagged cfg) (tk_groups t);
          total = sum_list (map (\<lambda>g. length (xg_fields g)) (tk_groups t)) in
      if fails = [] then NothingFailed
      else if total \<noteq> 0 \<and> of_nat (length fails) / of_nat total > rp_max_fraction cfg then TaskSkipped (length fails)
      else (case repair_one env judged t fails of
          None \<Rightarrow> RepairRaised (length fails)
        | Some (acc, rows, groups) \<Rightarrow> Repaired (length fails) acc rows groups))"

section \<open>All tasks\<close>

record repair_info =
  ri_model :: "string option"
  ri_flagged :: nat
  ri_repaired :: nat
  ri_fields :: "string list"
  ri_skipped :: nat
  ri_rows :: "(string \<times> nat) list"

fun outcome_flagged :: "repair_outcome \<Rightarrow> nat" where
  "outcome_flagged NothingFailed = 0"
| "outcome_flagged (TaskSkipped n) = n"
| "outcome_flagged (RepairRaised n) = n"
| "outcome_flagged (Repaired n _ _ _) = n"

fun outcome_paths :: "repair_outcome \<Rightarrow> string list" where
  "outcome_paths (Repaired _ acc _ _) = acc"
| "outcome_paths _ = []"

fun outcome_rows :: "repair_outcome \<Rightarrow> (string \<times> nat) list" where
  "outcome_rows (Repaired _ _ rows _) = rows"
| "outcome_rows _ = []"

definition apply_outcome :: "repair_outcome \<Rightarrow> task \<Rightarrow> task" where
  "apply_outcome o' t = (case o' of Repaired _ _ _ groups \<Rightarrow> t\<lparr>tk_groups := groups\<rparr> | _ \<Rightarrow> t)"

definition update_all :: "('k \<times> 'v) list \<Rightarrow> ('k \<times> 'v) list \<Rightarrow> ('k \<times> 'v) list" where
  "update_all d kvs = foldl (\<lambda>d (k, v). AList.update k v d) d kvs"

text \<open>\<open>maybe_repair\<close>: \<open>finish\<close> lists the task positions in the order their coroutines end.\<close>

definition maybe_repair :: "repair_settings \<Rightarrow> (nat \<Rightarrow> repair_env) \<Rightarrow> bool \<Rightarrow> string option \<Rightarrow> nat list \<Rightarrow> task list
    \<Rightarrow> repair_info option \<times> task list" where
  "maybe_repair cfg env judged model finish tasks =
     (let outs = map (\<lambda>(i, t). repair_task cfg (env i) judged t) (enumerate 0 tasks);
          flagged = sum_list (map outcome_flagged outs);
          done' = map (\<lambda>i. outs ! i) finish;
          paths = concat (map outcome_paths done') in
      (if flagged = 0 then None
       else Some \<lparr>ri_model = model, ri_flagged = flagged, ri_repaired = length paths, ri_fields = sort paths,
         ri_skipped = length (filter (\<lambda>x. case x of TaskSkipped _ \<Rightarrow> True | _ \<Rightarrow> False) outs),
         ri_rows = update_all [] (concat (map outcome_rows done'))\<rparr>,
       map2 apply_outcome outs tasks))"

section \<open>Replaced fields are clean\<close>

lemma shift_pages_simps [simp]: "xm_validation (xf_meta (shift_pages k f)) = xm_validation (xf_meta f)"
    "xm_judge (xf_meta (shift_pages k f)) = xm_judge (xf_meta f)" "xf_name (shift_pages k f) = xf_name f"
    "xf_value (shift_pages k f) = shift_v k (xf_value f)"
  by (cases f; simp)+

lemma shift_v_None [simp]: "shift_v k v = VNone \<longleftrightarrow> v = VNone"
  by (cases v) simp_all

lemma is_clean_shift [simp]: "is_clean r (shift_pages k f) = is_clean r f"
  by (simp add: is_clean_def)

lemma clean_not_failing: "is_clean r f \<Longrightarrow> \<not> failing incl f"
  by (auto simp: is_clean_def failing_iff judge_rejects_def split: if_splits)

lemma collect_count: "length (collect_failing_fields incl gs) = length (filter (\<lambda>(k, f). failing incl f) (all_fields gs))"
  by (induction gs) (simp_all add: collect_failing_fields_def all_fields_def filter_map comp_def)

lemma all_fields_key: "(k, f) \<in> set (all_fields gs) \<Longrightarrow> snd k = xf_name f"
  by (auto simp: all_fields_def)

lemma accepted_clean: "accepted_candidate judged keys cands k = Some c \<Longrightarrow> k \<in> keys \<and> is_clean judged c \<and> xf_name c = snd k"
  by (auto simp: accepted_candidate_def split: if_splits option.splits dest!: dict_of_in all_fields_key)

lemma repaired_groups_none [simp]: "repaired_groups (\<lambda>_. None) offset gs = gs"
  by (simp add: repaired_groups_def)

lemma all_fields_repaired:
  assumes "\<And>k c. acc k = Some c \<Longrightarrow> xf_name c = snd k"
  shows "all_fields (repaired_groups acc offset gs) =
    map (\<lambda>(k, f). (k, case acc k of None \<Rightarrow> f | Some c \<Rightarrow> replacement offset gs k c)) (all_fields gs)"
proof -
  have "all_fields (map (\<lambda>g. g\<lparr>xg_fields := map (\<lambda>f. case acc (xg_name g, xf_name f) of None \<Rightarrow> f
        | Some c \<Rightarrow> replacement offset gs (xg_name g, xf_name f) c) (xg_fields g)\<rparr>) hs) =
    map (\<lambda>(k, f). (k, case acc k of None \<Rightarrow> f | Some c \<Rightarrow> replacement offset gs k c)) (all_fields hs)" for hs
    by (induction hs) (auto simp: all_fields_def replacement_def assms split: option.split)
  then show ?thesis by (simp add: repaired_groups_def)
qed

definition failing_keys :: "bool \<Rightarrow> xgroup list \<Rightarrow> (string \<times> string) set" where
  "failing_keys incl gs = (\<lambda>f. (ff_group f, ff_field f)) ` set (collect_failing_fields incl gs)"

lemma repair_one_accepts:
  assumes "repair_one env judged t fails = Some (acc, rows, groups)"
  shows "\<exists>accf offset. (\<forall>k c. accf k = Some c \<longrightarrow> k \<in> (\<lambda>f. (ff_group f, ff_field f)) ` set fails \<and> is_clean judged c \<and> xf_name c = snd k)
    \<and> groups = repaired_groups accf offset (tk_groups t)
    \<and> acc = map (path_of \<circ> fst) (filter (\<lambda>(k, f). accf k \<noteq> None) (all_fields (tk_groups t)))"
proof -
  let ?keys = "(\<lambda>f. (ff_group f, ff_field f)) ` set fails"
  obtain bytes pages offset where sl: "repair_slice (re_slice env) t fails = (bytes, pages, offset)" by (metis prod_cases3)
  from assms consider "acc = []" "groups = tk_groups t"
    | cands where "groups = repaired_groups (accepted_candidate judged ?keys cands) offset (tk_groups t)"
      "acc = map (path_of \<circ> fst) (filter (\<lambda>(k, f). accepted_candidate judged ?keys cands k \<noteq> None) (all_fields (tk_groups t)))"
    by (auto simp: repair_one_def sl Let_def split: option.splits list.splits)
  then show ?thesis
  proof cases
    case 1
    then show ?thesis by (intro exI [of _ "\<lambda>_. None"] exI [of _ 0]) simp
  next
    case 2
    then show ?thesis using accepted_clean
      by (intro exI [of _ "accepted_candidate judged ?keys cands"] exI [of _ offset] conjI allI impI) simp_all
  qed
qed


definition sample_segment :: segment where
  "sample_segment = \<lparr>sg_file_index = 0, sg_filename = ''a.pdf'', sg_media_type = pdf_type, sg_page_start = 1, sg_page_end = 1,
     sg_file_pages = 1, sg_provisional = [], sg_description = [], sg_confidence = 1, sg_doctype = Some ''id'',
     sg_classification = None, sg_pinned = True\<rparr>"

definition sample_doc :: doc_type where
  "sample_doc = \<lparr>dt_id = ''id'', dt_description = None, dt_groups = [\<lparr>fg_name = ''g'', fg_fields = [plain_spec ''x'' T_STRING, plain_spec ''y'' T_STRING]\<rparr>],
     dt_visual_checks = []\<rparr>"

definition bad_leaf :: "string \<Rightarrow> xvalue \<Rightarrow> xfield" where
  "bad_leaf n v = stamp \<lparr>fv_valid = False, fv_errors = []\<rparr> (leaf n v)"

definition sample_task :: task where
  "sample_task = \<lparr>tk_id = ''file0/seg0/id'', tk_segment = sample_segment, tk_doc = sample_doc, tk_slice = [1], tk_pages = 1,
     tk_groups = [\<lparr>xg_name = ''g'', xg_fields = [bad_leaf ''x'' (VStr ''q''), leaf ''y'' (VStr ''r'')]\<rparr>],
     tk_model = None, tk_visual = [], tk_content = None\<rparr>"

definition sample_repair_env :: repair_env where
  "sample_repair_env = \<lparr>re_slice = \<lambda>_ _ _. None,
     re_extract = \<lambda>_ _ _ _. Some [\<lparr>xg_name = ''g'', xg_fields = [leaf ''x'' (VStr ''new''), leaf ''y'' (VStr ''no'')]\<rparr>],
     re_judge = \<lambda>_ _ _. None, re_lib = no_pylib\<rparr>"

lemma sample_repair:
  "repair_task \<lparr>rp_include_flagged = True, rp_max_fraction = 1 / 2\<rparr> sample_repair_env False sample_task =
    Repaired 1 [''g.x''] [] [\<lparr>xg_name = ''g'', xg_fields = [leaf ''x'' (VStr ''new''), leaf ''y'' (VStr ''r'')]\<rparr>]"
  by code_simp


section \<open>The order in which tasks finish\<close>

lemma mset_concat_perm: "mset xs = mset ys \<Longrightarrow> mset (concat (map f xs)) = mset (concat (map f ys))"
  by (simp only: mset_concat sum_mset_sum_list [symmetric] mset_map)

text \<open>The outcome of repair does not depend on which task finishes first. For any two completion orders
  of the same tasks, the repaired tasks are the same, and so are the sorted list of repaired fields and
  every count of the audit block; only \<open>rows_changed\<close>, whose keys carry no task, can differ.\<close>

theorem repair_order_independent:
  assumes "mset fin = mset fin'"
  shows "map_option (\<lambda>i. i\<lparr>ri_rows := []\<rparr>) (fst (maybe_repair cfg env judged model fin tasks))
      = map_option (\<lambda>i. i\<lparr>ri_rows := []\<rparr>) (fst (maybe_repair cfg env judged model fin' tasks))
    \<and> snd (maybe_repair cfg env judged model fin tasks) = snd (maybe_repair cfg env judged model fin' tasks)"
proof -
  let ?outs = "map (\<lambda>(i, t). repair_task cfg (env i) judged t) (enumerate 0 tasks)"
  have m: "mset (concat (map (outcome_paths \<circ> (!) ?outs) fin)) = mset (concat (map (outcome_paths \<circ> (!) ?outs) fin'))"
    by (rule mset_concat_perm [OF assms])
  then have "sort (concat (map (outcome_paths \<circ> (!) ?outs) fin)) = sort (concat (map (outcome_paths \<circ> (!) ?outs) fin'))"
    by (intro properties_for_sort) simp_all
  moreover from m have "length (concat (map (outcome_paths \<circ> (!) ?outs) fin)) = length (concat (map (outcome_paths \<circ> (!) ?outs) fin'))"
    by (rule mset_eq_length)
  ultimately show ?thesis by (simp add: maybe_repair_def Let_def comp_def)
qed

theorem repair_order_independent_witness:
  "ri_fields (the (fst (maybe_repair \<lparr>rp_include_flagged = True, rp_max_fraction = 1 / 2\<rparr> (\<lambda>_. sample_repair_env) False None [1, 0] [sample_task, sample_task])))
     = [''g.x'', ''g.x'']
   \<and> snd (maybe_repair \<lparr>rp_include_flagged = True, rp_max_fraction = 1 / 2\<rparr> (\<lambda>_. sample_repair_env) False None [1, 0] [sample_task, sample_task])
     = snd (maybe_repair \<lparr>rp_include_flagged = True, rp_max_fraction = 1 / 2\<rparr> (\<lambda>_. sample_repair_env) False None [0, 1] [sample_task, sample_task])"
proof -
  have m: "mset [1, 0] = mset [0, 1 :: nat]" by simp
  note r = repair_order_independent [OF m, of "\<lparr>rp_include_flagged = True, rp_max_fraction = 1 / 2\<rparr>" "\<lambda>_. sample_repair_env" False None "[sample_task, sample_task]"]
  have "ri_fields (the (fst (maybe_repair \<lparr>rp_include_flagged = True, rp_max_fraction = 1 / 2\<rparr> (\<lambda>_. sample_repair_env) False None [1, 0] [sample_task, sample_task])))
     = [''g.x'', ''g.x'']" unfolding maybe_repair_def by (simp add: sample_repair)
  then show ?thesis by (rule conjI) (rule conjunct2 [OF r])
qed

end
