(* ===== verification/Escalation.thy ===== *)
theory Escalation
  imports Repair
begin

text \<open>
  \<open>JudgeEscalator\<close> (\<open>core/services/escalation/judge_escalator.py\<close>): when too many verdicts are bad the
  extraction and the judge run again on a stronger model, and the new result replaces the old one if
  it has fewer bad verdicts. The two agents are arguments. The groups of a document whose second
  extraction raises are the same objects in the old and in the new result, so the second judge
  writes into both; the model returns the old result with those writes.
\<close>

section \<open>Counting bad verdicts\<close>

type_synonym per_doc = "(string \<times> xgroup list) list"

definition bad_verdict :: "xfield \<Rightarrow> bool" where
  "bad_verdict f \<longleftrightarrow> jo_status (xm_judge (xf_meta f)) = J_FAIL \<or> jo_flag (xm_judge (xf_meta f))"

definition doc_fields :: "per_doc \<Rightarrow> xfield list" where
  "doc_fields d = concat (map (\<lambda>(i, gs). concat (map xg_fields gs)) d)"

definition count_failures :: "per_doc \<Rightarrow> nat \<times> nat" where
  "count_failures d = (length (filter bad_verdict (doc_fields d)), length (doc_fields d))"

section \<open>The decision and the second run\<close>

record escalation_config =
  ec_threshold :: rat
  ec_model :: string

record escalation_info =
  ei_primary_model :: "string option"
  ei_model :: string
  ei_primary_rate :: rat
  ei_rate :: rat
  ei_accepted :: bool

definition resolve_threshold :: "escalation_config option \<Rightarrow> rat \<Rightarrow> rat" where
  "resolve_threshold cfg default' = max 0 (min 1 (case cfg of Some c \<Rightarrow> ec_threshold c | None \<Rightarrow> default'))"

definition resolve_model :: "escalation_config option \<Rightarrow> string option \<Rightarrow> string option" where
  "resolve_model cfg default' = (case cfg of
     Some c \<Rightarrow> if ec_model c \<noteq> [] then Some (ec_model c) else default'
   | None \<Rightarrow> default')"

record rerun_env =
  rn_extract :: "string \<Rightarrow> xgroup list option"
  rn_judge :: "string \<Rightarrow> xgroup list \<Rightarrow> raw_judge_groups option"

text \<open>Second extraction of a document: the groups, and whether they are shared with the first.\<close>

definition re_extract_doc :: "rerun_env \<Rightarrow> per_doc \<Rightarrow> string \<times> nat list \<Rightarrow> xgroup list \<times> bool" where
  "re_extract_doc env old d = (if snd d = [] then ([], False)
     else case rn_extract env (fst d) of
       Some gs \<Rightarrow> (gs, False)
     | None \<Rightarrow> (case map_of old (fst d) of Some gs \<Rightarrow> gs | None \<Rightarrow> [], True))"

definition re_judge_doc :: "rerun_env \<Rightarrow> string \<Rightarrow> xgroup list \<Rightarrow> xgroup list" where
  "re_judge_doc env i gs = (if gs = [] then gs
     else case run_judge (rn_judge env i gs) gs of Some gs' \<Rightarrow> gs' | None \<Rightarrow> gs)"

definition new_per_doc :: "rerun_env \<Rightarrow> per_doc \<Rightarrow> (string \<times> nat list) list \<Rightarrow> per_doc" where
  "new_per_doc env old inputs = map (\<lambda>d. (fst d, re_judge_doc env (fst d) (fst (re_extract_doc env old d)))) inputs"

text \<open>The old result after the second run.\<close>

definition old_after :: "rerun_env \<Rightarrow> per_doc \<Rightarrow> (string \<times> nat list) list \<Rightarrow> per_doc" where
  "old_after env old inputs = map (\<lambda>(i, gs).
     (i, if \<exists>d\<in>set inputs. fst d = i \<and> snd (re_extract_doc env old d) then re_judge_doc env i gs else gs)) old"

datatype escalation_outcome =
    NotTriggered
  | RateOutOfRange per_doc
  | Escalated escalation_info per_doc "(string \<times> string) list"

text \<open>\<open>maybe_escalate\<close>. The audit block bounds both rates by one; a rate above it makes its construction raise.\<close>

definition maybe_escalate :: "escalation_config option \<Rightarrow> rat \<Rightarrow> string option \<Rightarrow> string option \<Rightarrow> rerun_env
    \<Rightarrow> per_doc \<Rightarrow> (string \<times> nat list) list \<Rightarrow> (string \<times> string) list \<Rightarrow> escalation_outcome" where
  "maybe_escalate cfg default_t default_m primary env old inputs used =
     (let threshold = resolve_threshold cfg default_t; em = resolve_model cfg default_m;
          (fail, total) = count_failures old; rate = of_nat fail / of_nat total in
      if threshold \<le> 0 then NotTriggered
      else case em of None \<Rightarrow> NotTriggered
      | Some m \<Rightarrow>
        if m = [] \<or> Some m = primary \<or> total = 0 \<or> rate < threshold then NotTriggered
        else (let new = new_per_doc env old inputs; new_fail = fst (count_failures new);
                  new_rate = of_nat new_fail / of_nat total in
          if 1 < new_rate then RateOutOfRange (old_after env old inputs)
          else (let info = \<lparr>ei_primary_model = primary, ei_model = m, ei_primary_rate = rate, ei_rate = new_rate,
                            ei_accepted = (new_fail < fail)\<rparr> in
            if new_fail < fail
            then Escalated info new (update_all used (map (\<lambda>(i, _). (i, m)) new))
            else Escalated info (old_after env old inputs) used)))"

section \<open>Properties\<close>

lemma doc_fields_map: "doc_fields (map (\<lambda>d. (f d, g d)) xs) = concat (map (\<lambda>d. concat (map xg_fields (g d))) xs)"
  by (simp add: doc_fields_def comp_def)

text \<open>Escalation keeps a result only if it has strictly fewer bad verdicts than the one it replaces, and
  then every document of the result is the one of the second run and is attributed to its model. A
  result that is not kept leaves the extraction unchanged, except that a document whose second
  extraction raised carries the verdicts of the second judge.\<close>

theorem escalation_decides:
  assumes "maybe_escalate cfg dt dm primary env old inputs used = Escalated info result models"
  shows "ei_accepted info = (fst (count_failures (new_per_doc env old inputs)) < fst (count_failures old))
    \<and> (if ei_accepted info
       then result = new_per_doc env old inputs \<and> fst (count_failures result) < fst (count_failures old)
         \<and> (\<nexists>d. d \<in> set inputs \<and> map_of models (fst d) \<noteq> Some (ei_model info))
       else models = used \<and> map fst result = map fst old
         \<and> ((\<nexists>d. d \<in> set inputs \<and> snd d \<noteq> [] \<and> rn_extract env (fst d) = None) \<longrightarrow> result = old))"
proof -
  let ?new = "new_per_doc env old inputs"
  have upd: "map_of (update_all ms (map (\<lambda>(i, _). (i, m)) ds)) i = (if i \<in> fst ` set ds then Some m else map_of ms i)" for ms ds i and m :: string
  proof (induction ds arbitrary: ms)
    case (Cons d ds)
    have "update_all ms (map (\<lambda>(i, _). (i, m)) (d # ds)) = update_all (AList.update (fst d) m ms) (map (\<lambda>(i, _). (i, m)) ds)"
      by (simp add: update_all_def case_prod_unfold)
    with Cons show ?case by (auto simp: update_conv')
  qed (simp add: update_all_def)
  have keys: "fst ` set ?new = fst ` set inputs" by (simp add: new_per_doc_def image_image)
  from assms obtain m where m: "ei_model info = m" "ei_accepted info = (fst (count_failures ?new) < fst (count_failures old))"
      "result = (if ei_accepted info then ?new else old_after env old inputs)"
      "models = (if ei_accepted info then update_all used (map (\<lambda>(i, _). (i, m)) ?new) else used)"
    by (auto simp: maybe_escalate_def Let_def split: if_splits option.splits prod.splits)
  have "map fst (old_after env old inputs) = map fst old" by (simp add: old_after_def comp_def case_prod_unfold)
  moreover have "old_after env old inputs = old" if "\<nexists>d. d \<in> set inputs \<and> snd d \<noteq> [] \<and> rn_extract env (fst d) = None"
  proof -
    have "\<not> (\<exists>d\<in>set inputs. fst d = i \<and> snd (re_extract_doc env old d))" for i
      using that by (force simp: re_extract_doc_def split: if_splits option.splits)
    then show ?thesis by (simp add: old_after_def case_prod_unfold)
  qed
  moreover have "map_of models (fst d) = Some (ei_model info)" if "ei_accepted info" "d \<in> set inputs" for d
    using that m(1,4) upd [of used m ?new "fst d"] keys by simp
  ultimately show ?thesis using m by auto
qed

text \<open>A second run that finds nothing counts as an improvement. If escalation triggers and the second
  extraction of every document returns no groups, the first result is replaced and every extracted
  field of the request is lost.\<close>

theorem escalation_can_erase:
  assumes "\<forall>d\<in>set inputs. rn_extract env (fst d) = Some []"
    and "maybe_escalate cfg dt dm primary env old inputs used \<noteq> NotTriggered"
  shows "\<exists>info models result. maybe_escalate cfg dt dm primary env old inputs used = Escalated info result models
    \<and> ei_accepted info \<and> ei_rate info = 0 \<and> doc_fields result = []"
proof -
  have empty: "doc_fields (new_per_doc env old inputs) = []"
    using assms(1) by (auto simp: new_per_doc_def doc_fields_map re_extract_doc_def re_judge_doc_def)
  then have zero: "fst (count_failures (new_per_doc env old inputs)) = 0" by (simp add: count_failures_def)
  from assms(2) have trig: "0 < resolve_threshold cfg dt" "snd (count_failures old) \<noteq> 0"
      "resolve_threshold cfg dt \<le> of_nat (fst (count_failures old)) / of_nat (snd (count_failures old))"
    by (auto simp: maybe_escalate_def Let_def split: if_splits option.splits prod.splits)
  then have "fst (count_failures old) \<noteq> 0" by (cases "fst (count_failures old)") auto
  with assms(2) zero empty show ?thesis
    by (auto simp: maybe_escalate_def Let_def split: if_splits option.splits prod.splits)
qed

text \<open>A second run with more bad verdicts than the first had fields is not reported as rejected: the
  audit block cannot be built, \<open>maybe_escalate\<close> raises, and the request records an error.\<close>

theorem escalation_rate_raises:
  assumes "maybe_escalate cfg dt dm primary env old inputs used \<noteq> NotTriggered"
    and "snd (count_failures old) < fst (count_failures (new_per_doc env old inputs))"
  shows "maybe_escalate cfg dt dm primary env old inputs used = RateOutOfRange (old_after env old inputs)"
proof -
  from assms(1) have "snd (count_failures old) \<noteq> 0"
    by (auto simp: maybe_escalate_def Let_def split: if_splits option.splits prod.splits)
  then have "1 < (of_nat (fst (count_failures (new_per_doc env old inputs))) / of_nat (snd (count_failures old)) :: rat)"
    using assms(2) by (simp add: less_divide_eq)
  with assms(1) show ?thesis
    by (auto simp: maybe_escalate_def Let_def split: if_splits option.splits prod.splits)
qed

definition judged_leaf :: "string \<Rightarrow> judge_status \<Rightarrow> xfield" where
  "judged_leaf n st = upd_meta (\<lambda>m. m\<lparr>xm_judge := default_judge\<lparr>jo_status := st\<rparr>\<rparr>) (leaf n (VStr ''v''))"

definition sample_first :: per_doc where
  "sample_first = [(''d'', [\<lparr>xg_name = ''g'', xg_fields = [judged_leaf ''x'' J_FAIL, judged_leaf ''y'' J_PASS]\<rparr>])]"

definition answer_with :: "xgroup list \<Rightarrow> rerun_env" where
  "answer_with gs = \<lparr>rn_extract = \<lambda>_. Some gs, rn_judge = \<lambda>_ _. None\<rparr>"

definition sample_escalate :: "xgroup list \<Rightarrow> escalation_outcome" where
  "sample_escalate gs = maybe_escalate (Some \<lparr>ec_threshold = 1 / 2, ec_model = ''big''\<rparr>) 0 None (Some ''small'') (answer_with gs)
     sample_first [(''d'', [1])] [(''d'', ''small'')]"

lemma sample_decisions:
  "sample_escalate [] = Escalated \<lparr>ei_primary_model = Some ''small'', ei_model = ''big'', ei_primary_rate = 1 / 2, ei_rate = 0, ei_accepted = True\<rparr>
     [(''d'', [])] [(''d'', ''big'')]"
  "sample_escalate [\<lparr>xg_name = ''g'', xg_fields = [judged_leaf ''x'' J_FAIL, judged_leaf ''y'' J_FAIL, judged_leaf ''z'' J_FAIL]\<rparr>] \<noteq> NotTriggered"
  by code_simp+

theorem escalation_decides_witness:
  "\<exists>info result models. sample_escalate [] = Escalated info result models \<and> ei_accepted info
     \<and> fst (count_failures result) < fst (count_failures sample_first)"
proof -
  from escalation_decides [OF sample_decisions(1) [unfolded sample_escalate_def]] show ?thesis
    unfolding sample_decisions(1) by simp
qed

theorem escalation_can_erase_witness:
  "\<exists>info models result. sample_escalate [] = Escalated info result models \<and> doc_fields sample_first \<noteq> [] \<and> doc_fields result = []"
proof -
  have "\<forall>d\<in>set [(''d'', [1 :: nat])]. rn_extract (answer_with []) (fst d) = Some []" by (simp add: answer_with_def)
  moreover have "sample_escalate [] \<noteq> NotTriggered" by (simp add: sample_decisions)
  ultimately have "\<exists>info models result. sample_escalate [] = Escalated info result models \<and> ei_accepted info \<and> ei_rate info = 0 \<and> doc_fields result = []"
    unfolding sample_escalate_def by (rule escalation_can_erase)
  then show ?thesis by (auto simp: sample_first_def doc_fields_def)
qed

theorem escalation_rate_raises_witness:
  "sample_escalate [\<lparr>xg_name = ''g'', xg_fields = [judged_leaf ''x'' J_FAIL, judged_leaf ''y'' J_FAIL, judged_leaf ''z'' J_FAIL]\<rparr>]
     = RateOutOfRange sample_first"
proof -
  let ?gs = "[\<lparr>xg_name = ''g'', xg_fields = [judged_leaf ''x'' J_FAIL, judged_leaf ''y'' J_FAIL, judged_leaf ''z'' J_FAIL]\<rparr>]"
  have "snd (count_failures sample_first) < fst (count_failures (new_per_doc (answer_with ?gs) sample_first [(''d'', [1])]))" by code_simp
  with sample_decisions(2) have "sample_escalate ?gs = RateOutOfRange (old_after (answer_with ?gs) sample_first [(''d'', [1])])"
    unfolding sample_escalate_def by (rule escalation_rate_raises)
  also have "old_after (answer_with ?gs) sample_first [(''d'', [1])] = sample_first" by code_simp
  finally show ?thesis .
qed

end
