(* ===== verification/RuleGraph.thy ===== *)
theory RuleGraph
  imports Prelude
begin

text \<open>
  \<open>graphlib.TopologicalSorter\<close>, the standard-library class the request validator and the
  rule engine build on, with its counters: \<open>add\<close> accumulates predecessor edges, \<open>prepare\<close>
  raises \<open>CycleError\<close> on a cyclic graph, \<open>get_ready\<close> hands out the nodes whose counter is
  zero, \<open>done\<close> decrements the successors' counters. A graph is the list of its edges
  \<open>(predecessor, node)\<close> in the order they were added, beside the nodes in insertion order.
\<close>

section \<open>The graph\<close>

type_synonym 'a adds = "('a \<times> 'a list) list"

definition edges_of :: "'a adds \<Rightarrow> ('a \<times> 'a) list" where
  "edges_of G = concat (map (\<lambda>(n, ps). map (\<lambda>p. (p, n)) ps) G)"

definition nodes_of :: "'a adds \<Rightarrow> 'a list" where
  "nodes_of G = rev (remdups (rev (concat (map (\<lambda>(n, ps). n # ps) G))))"

definition succs :: "('a \<times> 'a) list \<Rightarrow> 'a \<Rightarrow> 'a list" where
  "succs E p = map snd (filter (\<lambda>e. fst e = p) E)"

definition indeg :: "('a \<times> 'a) list \<Rightarrow> 'a set \<Rightarrow> 'a \<Rightarrow> nat" where
  "indeg E D n = length (filter (\<lambda>e. snd e = n \<and> fst e \<notin> D) E)"

text \<open>\<open>prepare\<close> raises on a cycle: peel off nodes without a remaining predecessor; what cannot
  be peeled lies on or behind a cycle.\<close>

function peel :: "('a \<times> 'a) list \<Rightarrow> 'a list \<Rightarrow> 'a list" where
  "peel E ns =
     (let ns' = filter (\<lambda>n. \<exists>e\<in>set E. snd e = n \<and> fst e \<in> set ns) ns
      in if length ns' < length ns then peel E ns' else ns)"
  by pat_completeness auto
termination
  by (relation "measure (\<lambda>(E, ns). length ns)") (auto simp: Let_def)

declare peel.simps [simp del]

definition has_cycle :: "'a adds \<Rightarrow> bool" where
  "has_cycle G \<longleftrightarrow> peel (edges_of G) (nodes_of G) \<noteq> []"

section \<open>The sorter\<close>

record 'a sorter =
  t_count :: "'a \<Rightarrow> int"
  t_ready :: "'a list"
  t_passed :: nat
  t_finished :: nat

definition ts_prepare :: "'a adds \<Rightarrow> 'a sorter option" where
  "ts_prepare G = (if has_cycle G then None else
     Some \<lparr>t_count = (\<lambda>n. int (indeg (edges_of G) {} n)),
           t_ready = filter (\<lambda>n. indeg (edges_of G) {} n = 0) (nodes_of G),
           t_passed = 0, t_finished = 0\<rparr>)"

definition ts_active :: "'a sorter \<Rightarrow> bool" where
  "ts_active st \<longleftrightarrow> t_finished st < t_passed st \<or> t_ready st \<noteq> []"

definition ts_get_ready :: "'a sorter \<Rightarrow> 'a list \<times> 'a sorter" where
  "ts_get_ready st = (t_ready st,
     st\<lparr>t_count := (\<lambda>n. if n \<in> set (t_ready st) then -1 else t_count st n),
        t_ready := [], t_passed := t_passed st + length (t_ready st)\<rparr>)"

text \<open>One successor, one finished node, and \<open>done(*nodes)\<close>.\<close>

definition dec_succ :: "('a \<Rightarrow> int) \<times> 'a list \<Rightarrow> 'a \<Rightarrow> ('a \<Rightarrow> int) \<times> 'a list" where
  "dec_succ = (\<lambda>(c, r) s. (c(s := c s - 1), if c s = 1 then r @ [s] else r))"

definition ts_done1 :: "('a \<times> 'a) list \<Rightarrow> 'a sorter \<Rightarrow> 'a \<Rightarrow> 'a sorter" where
  "ts_done1 E st n =
     (let (c, r) = foldl dec_succ ((t_count st)(n := -2), t_ready st) (succs E n)
      in st\<lparr>t_count := c, t_ready := r, t_finished := t_finished st + 1\<rparr>)"

definition ts_done :: "('a \<times> 'a) list \<Rightarrow> 'a list \<Rightarrow> 'a sorter \<Rightarrow> 'a sorter" where
  "ts_done E ns st = foldl (ts_done1 E) st ns"

text \<open>\<open>while is_active(): ready = get_ready(); if not ready: break; ...; done(*ready)\<close>: the levels,
  with fuel; \<open>None\<close> is running out of it.\<close>

fun ts_levels :: "nat \<Rightarrow> ('a \<times> 'a) list \<Rightarrow> 'a sorter \<Rightarrow> 'a list list option" where
  "ts_levels fuel E st =
     (if \<not> ts_active st then Some []
      else let (ready, st1) = ts_get_ready st in
        if ready = [] then Some []
        else (case fuel of 0 \<Rightarrow> None
          | Suc k \<Rightarrow> map_option (\<lambda>ls. ready # ls) (ts_levels k E (ts_done E ready st1))))"

declare ts_levels.simps [simp del]

section \<open>Cycles\<close>

lemma nodes_of_iff: "m \<in> set (nodes_of G) \<longleftrightarrow> (\<exists>n ps. (n, ps) \<in> set G \<and> (m = n \<or> m \<in> set ps))"
  by (induction G) (auto simp: nodes_of_def)

lemma nodes_of_distinct [simp]: "distinct (nodes_of G)"
  by (simp add: nodes_of_def)

lemma edges_of_iff: "(p, n) \<in> set (edges_of G) \<longleftrightarrow> (\<exists>ps. (n, ps) \<in> set G \<and> p \<in> set ps)"
  by (auto simp: edges_of_def)

lemma edges_in_nodes:
  assumes "(p, n) \<in> set (edges_of G)"
  shows "p \<in> set (nodes_of G) \<and> n \<in> set (nodes_of G)"
proof -
  from assms obtain ps where "(n, ps) \<in> set G" "p \<in> set ps" by (auto simp: edges_of_iff)
  then show ?thesis by (auto simp: nodes_of_iff)
qed

definition has_pred_in :: "('a \<times> 'a) list \<Rightarrow> 'a set \<Rightarrow> 'a \<Rightarrow> bool" where
  "has_pred_in E R n \<longleftrightarrow> (\<exists>e\<in>set E. snd e = n \<and> fst e \<in> R)"

lemma has_pred_in_iff: "has_pred_in E R n \<longleftrightarrow> (\<exists>p. (p, n) \<in> set E \<and> p \<in> R)"
  by (force simp: has_pred_in_def)

lemma peel_step:
  "length (filter (has_pred_in E (set ns)) ns) < length ns \<Longrightarrow>
     peel E ns = peel E (filter (has_pred_in E (set ns)) ns)"
  "\<not> length (filter (has_pred_in E (set ns)) ns) < length ns \<Longrightarrow> peel E ns = ns"
  using peel.simps [of E ns] by (simp_all add: Let_def has_pred_in_def [abs_def])

lemma peel_fix: "has_pred_in E (set (peel E ns)) n" if "n \<in> set (peel E ns)" for n
  using that
proof (induction "length ns" arbitrary: ns rule: less_induct)
  case less
  let ?ns = "filter (has_pred_in E (set ns)) ns"
  show ?case
  proof (cases "length ?ns < length ns")
    case True
    note eq = peel_step(1) [OF this]
    have "n \<in> set (peel E ?ns)" using less(2) unfolding eq .
    from less(1) [OF True this] show ?thesis unfolding eq .
  next
    case False
    then have "\<forall>m\<in>set ns. has_pred_in E (set ns) m"
      using False length_filter_less [of _ ns "has_pred_in E (set ns)"] by auto
    with peel_step(2) [OF False] less(2) show ?thesis by simp
  qed
qed

lemma peel_keeps:
  assumes "\<And>n. n \<in> C \<Longrightarrow> has_pred_in E C n"
  shows "C \<subseteq> set ns \<Longrightarrow> C \<subseteq> set (peel E ns)"
proof (induction "length ns" arbitrary: ns rule: less_induct)
  case less
  let ?ns = "filter (has_pred_in E (set ns)) ns"
  have "C \<subseteq> set ?ns"
    using assms less(2) by (fastforce simp: has_pred_in_def)
  then show ?case
    using less peel_step [of E ns] by (cases "length ?ns < length ns") simp_all
qed

lemma acyclic_minimal:
  assumes "acyclic (set E)" and "finite R" and "R \<noteq> {}"
  obtains n where "n \<in> R" and "\<not> has_pred_in E R n"
proof -
  have "wf (set E)" using assms(1) by (simp add: finite_acyclic_wf)
  then obtain n where "n \<in> R" "\<forall>m. (m, n) \<in> set E \<longrightarrow> m \<notin> R"
    using assms(3) by (meson all_not_in_conv wfE_min)
  then show thesis using that has_pred_in_iff by metis
qed

theorem has_cycle_iff: "has_cycle G \<longleftrightarrow> \<not> acyclic (set (edges_of G))"
proof
  assume "has_cycle G"
  then have "set (peel (edges_of G) (nodes_of G)) \<noteq> {}" by (simp add: has_cycle_def)
  then show "\<not> acyclic (set (edges_of G))"
    using acyclic_minimal [OF _ finite_set] peel_fix by metis
next
  let ?E = "set (edges_of G)"
  assume "\<not> acyclic ?E"
  then obtain a where a: "(a, a) \<in> ?E\<^sup>+" by (auto simp: acyclic_def)
  let ?C = "{n. (n, n) \<in> ?E\<^sup>+}"
  have "has_pred_in (edges_of G) ?C n" if n: "n \<in> ?C" for n
  proof -
    from n obtain p where p: "(n, p) \<in> ?E\<^sup>*" "(p, n) \<in> ?E" by (auto dest: tranclD2)
    then have "(p, p) \<in> ?E\<^sup>+" by (meson rtrancl_into_trancl2)
    with p show ?thesis by (auto simp: has_pred_in_iff)
  qed
  moreover have "?C \<subseteq> set (nodes_of G)"
  proof
    fix n assume "n \<in> ?C"
    then obtain m where "(n, m) \<in> ?E" by (auto dest: tranclD)
    then show "n \<in> set (nodes_of G)" using edges_in_nodes by metis
  qed
  ultimately have "?C \<subseteq> set (peel (edges_of G) (nodes_of G))" by (rule peel_keeps)
  with a show "has_cycle G" by (auto simp: has_cycle_def)
qed

section \<open>The invariant of the counters\<close>

text \<open>Decrementing along a successor list with multiplicities: a node becomes ready when, and only
  when, its last open edge is removed.\<close>

lemma dec_fold:
  assumes "\<forall>m\<in>set ss. int (count_list ss m) \<le> c m"
  shows "\<exists>xs. foldl dec_succ (c, r) ss = (\<lambda>m. c m - int (count_list ss m), r @ xs)
     \<and> distinct xs \<and> set xs = {m \<in> set ss. c m = int (count_list ss m)}"
  using assms
proof (induction ss arbitrary: c r)
  case (Cons s ss)
  let ?c = "c(s := c s - 1)" and ?r = "if c s = 1 then r @ [s] else r"
  have pre: "\<forall>m\<in>set ss. int (count_list ss m) \<le> ?c m"
    using Cons.prems by auto
  from Cons.IH [OF pre, of ?r] obtain xs where
    xs: "foldl dec_succ (?c, ?r) ss = (\<lambda>m. ?c m - int (count_list ss m), ?r @ xs)"
      "distinct xs" "set xs = {m \<in> set ss. ?c m = int (count_list ss m)}" by blast
  have mem: "m \<in> set xs \<longleftrightarrow> m \<in> set ss \<and> ?c m = int (count_list ss m)" for m
    unfolding xs(3) by simp
  have c': "(\<lambda>m. ?c m - int (count_list ss m)) = (\<lambda>m. c m - int (count_list (s # ss) m))"
    by (rule ext) simp
  have step: "foldl dec_succ (c, r) (s # ss) = foldl dec_succ (?c, ?r) ss"
    by (simp add: dec_succ_def)
  have last: "c s = 1 \<Longrightarrow> s \<notin> set ss"
    using Cons.prems count_list_0_iff [of ss s] by auto
  define ys where "ys = (if c s = 1 then s # xs else xs)"
  have "foldl dec_succ (c, r) (s # ss) = (\<lambda>m. c m - int (count_list (s # ss) m), r @ ys)"
    unfolding step xs(1) c' by (simp add: ys_def)
  moreover have "s \<notin> set xs" if "c s = 1" using mem [of s] last [OF that] by simp
  then have "distinct ys" using xs(2) by (simp add: ys_def)
  moreover have "m \<in> set ys \<longleftrightarrow> m \<in> set (s # ss) \<and> c m = int (count_list (s # ss) m)" for m
  proof (cases "m = s")
    case True
    show ?thesis
    proof (cases "c s = 1")
      case one: True
      then have "count_list ss s = 0" using last by (simp add: count_list_0_iff)
      with one True show ?thesis by (simp add: ys_def)
    next
      case False
      then have "c s - 1 = int (count_list ss s) \<longrightarrow> s \<in> set ss"
        using count_list_0_iff [of ss s] by (cases "s \<in> set ss") simp_all
      moreover have "s \<in> set ys \<longleftrightarrow> s \<in> set ss \<and> c s - 1 = int (count_list ss s)"
        using mem [of s] False by (simp add: ys_def)
      ultimately have "s \<in> set ys \<longleftrightarrow> c s = int (count_list (s # ss) s)" by auto
      with True show ?thesis by simp
    qed
  next
    case False
    with mem [of m] show ?thesis by (simp add: ys_def)
  qed
  then have "set ys = {m \<in> set (s # ss). c m = int (count_list (s # ss) m)}" by blast
  ultimately show ?case by (intro exI [of _ ys] conjI)
qed simp

lemma count_succs: "count_list (succs E n) m = length (filter (\<lambda>e. snd e = m \<and> fst e = n) E)"
  by (induction E) (auto simp: succs_def)

lemma indeg_insert: "n \<notin> D \<Longrightarrow> indeg E D m = indeg E (insert n D) m + count_list (succs E n) m"
  unfolding count_succs by (induction E) (auto simp: indeg_def)

lemma indeg_0: "indeg E D n = 0 \<longleftrightarrow> \<not> has_pred_in E (- D) n"
  by (auto simp: indeg_def has_pred_in_def filter_empty_conv)

lemma succs_iff: "m \<in> set (succs E n) \<longleftrightarrow> (n, m) \<in> set E"
  by (force simp: succs_def)

text \<open>\<open>D\<close> is the set of finished nodes, \<open>P\<close> the set of nodes handed out and not finished.\<close>

definition sorter_inv :: "('a \<times> 'a) list \<Rightarrow> 'a set \<Rightarrow> 'a set \<Rightarrow> 'a set \<Rightarrow> 'a sorter \<Rightarrow> bool" where
  "sorter_inv E N D P st \<longleftrightarrow> D \<inter> P = {} \<and> D \<union> P \<subseteq> N \<and> finite N
   \<and> (\<forall>n. t_count st n = (if n \<in> D then -2 else if n \<in> P then -1 else int (indeg E D n)))
   \<and> (\<forall>n\<in>D \<union> P. indeg E D n = 0)
   \<and> distinct (t_ready st) \<and> set (t_ready st) = {n \<in> N. n \<notin> D \<union> P \<and> indeg E D n = 0}
   \<and> t_passed st = card (D \<union> P) \<and> t_finished st = card D"

lemma get_ready_inv:
  assumes "sorter_inv E N D {} st" and "ts_get_ready st = (R, st1)"
  shows "sorter_inv E N D (set R) st1" and "distinct R"
    and "set R = {n \<in> N. n \<notin> D \<and> indeg E D n = 0}"
proof -
  from assms have R: "R = t_ready st" and st1: "st1 = st\<lparr>t_count := (\<lambda>n. if n \<in> set R then -1 else t_count st n),
        t_ready := [], t_passed := t_passed st + length R\<rparr>" by (auto simp: ts_get_ready_def)
  from assms(1) R show dR: "distinct R" and sR: "set R = {n \<in> N. n \<notin> D \<and> indeg E D n = 0}"
    by (auto simp: sorter_inv_def)
  have "finite D" using assms(1) finite_subset by (auto simp: sorter_inv_def)
  moreover have "D \<inter> set R = {}" using sR by auto
  ultimately have "card (D \<union> set R) = card D + length R"
    by (simp add: card_Un_disjoint distinct_card [OF dR])
  with assms(1) sR show "sorter_inv E N D (set R) st1"
    by (auto simp: sorter_inv_def st1)
qed

lemma done1_inv:
  assumes inv: "sorter_inv E N D P st" and n: "n \<in> P" and EN: "\<forall>(p, m)\<in>set E. m \<in> N"
  shows "sorter_inv E N (insert n D) (P - {n}) (ts_done1 E st n)"
proof -
  have nD: "n \<notin> D" using inv n by (auto simp: sorter_inv_def)
  have out: "m \<notin> D \<union> P" if "m \<in> set (succs E n)" for m
    using inv nD that by (force simp: sorter_inv_def succs_iff indeg_0 has_pred_in_iff)
  let ?c = "(t_count st)(n := -2)"
  have cnt: "?c m = int (indeg E (insert n D) m) + int (count_list (succs E n) m)"
    if "m \<in> set (succs E n)" for m
    using inv out [OF that] n indeg_insert [OF nD, of E m] by (auto simp: sorter_inv_def)
  then have "\<forall>m\<in>set (succs E n). int (count_list (succs E n) m) \<le> ?c m" by simp
  from dec_fold [OF this, of "t_ready st"] obtain xs where xs:
    "foldl dec_succ (?c, t_ready st) (succs E n) = (\<lambda>m. ?c m - int (count_list (succs E n) m), t_ready st @ xs)"
    "distinct xs" "set xs = {m \<in> set (succs E n). ?c m = int (count_list (succs E n) m)}" by blast
  let ?D = "insert n D"
  have st': "ts_done1 E st n = st\<lparr>t_count := \<lambda>m. ?c m - int (count_list (succs E n) m),
      t_ready := t_ready st @ xs, t_finished := t_finished st + 1\<rparr>"
    using xs(1) by (simp add: ts_done1_def)
  have DP: "?D \<union> (P - {n}) = D \<union> P" using n by auto
  have ind: "indeg E D m = indeg E ?D m + count_list (succs E n) m" for m
    by (rule indeg_insert [OF nD])
  have none: "count_list (succs E n) m = 0" if "m \<in> D \<union> P" for m
    using out that by (auto simp: count_list_0_iff)
  have "?c m - int (count_list (succs E n) m) =
      (if m \<in> ?D then -2 else if m \<in> P - {n} then -1 else int (indeg E ?D m))" for m
    using inv n none [of m] ind [of m] by (auto simp: sorter_inv_def)
  moreover have "\<forall>m\<in>?D \<union> (P - {n}). indeg E ?D m = 0"
    unfolding DP using inv ind by (auto simp: sorter_inv_def)
  moreover have "distinct (t_ready st @ xs)"
    using inv xs(2,3) ind by (fastforce simp: sorter_inv_def count_list_0_iff)
  moreover have "set (t_ready st @ xs) = {m \<in> N. m \<notin> ?D \<union> (P - {n}) \<and> indeg E ?D m = 0}"
    (is "?l = ?r")
  proof (rule set_eqI)
    fix m
    show "m \<in> ?l \<longleftrightarrow> m \<in> ?r"
    proof (cases "m \<in> set (succs E n)")
      case True
      then have "m \<in> N" using EN by (auto simp: succs_iff)
      moreover have "count_list (succs E n) m \<noteq> 0" using True by (simp add: count_list_0_iff)
      ultimately show ?thesis unfolding DP using True out [OF True] cnt [OF True] xs(3) ind [of m] inv
        by (auto simp: sorter_inv_def)
    next
      case False
      then have "count_list (succs E n) m = 0" by (simp add: count_list_0_iff)
      with False show ?thesis unfolding DP using xs(3) ind [of m] inv by (auto simp: sorter_inv_def)
    qed
  qed
  moreover have "finite D" using inv finite_subset by (auto simp: sorter_inv_def)
  ultimately show ?thesis
    using inv n nD unfolding sorter_inv_def DP st' by (auto simp: card_insert_if)
qed

lemma done_inv:
  assumes "\<forall>(p, m)\<in>set E. m \<in> N"
  shows "sorter_inv E N D (set R) st \<Longrightarrow> distinct R \<Longrightarrow> sorter_inv E N (D \<union> set R) {} (ts_done E R st)"
proof (induction R arbitrary: D st)
  case Nil
  then show ?case by (simp add: ts_done_def)
next
  case (Cons n R)
  have "set (n # R) - {n} = set R" using Cons.prems(2) by auto
  with done1_inv [OF Cons.prems(1) _ assms, of n]
  have "sorter_inv E N (insert n D) (set R) (ts_done1 E st n)" by simp
  from Cons.IH [OF this] Cons.prems(2) show ?case by (simp add: ts_done_def)
qed

section \<open>The levels\<close>

fun parents_first :: "('a \<times> 'a) list \<Rightarrow> 'a set \<Rightarrow> 'a list list \<Rightarrow> bool" where
  "parents_first E D [] = True"
| "parents_first E D (l # ls) = ((\<forall>e\<in>set E. snd e \<in> set l \<longrightarrow> fst e \<in> D) \<and> parents_first E (D \<union> set l) ls)"

lemma levels_loop:
  assumes ac: "acyclic (set E)" and EN: "\<forall>(p, m)\<in>set E. p \<in> N \<and> m \<in> N"
  shows "sorter_inv E N D {} st \<Longrightarrow> card (N - D) \<le> fuel \<Longrightarrow>
    \<exists>ls. ts_levels fuel E st = Some ls \<and> distinct (concat ls) \<and> set (concat ls) = N - D
       \<and> parents_first E D ls \<and> [] \<notin> set ls"
proof (induction fuel arbitrary: D st)
  case fuel: (0 D st)
  then have "N - D = {}" by (auto simp: sorter_inv_def)
  moreover have "set (t_ready st) \<subseteq> N - D" using fuel(1) by (auto simp: sorter_inv_def)
  ultimately have "set (t_ready st) \<subseteq> {}" by blast
  then have "t_ready st = []" by simp
  then have "\<not> ts_active st" using fuel(1) by (simp add: ts_active_def sorter_inv_def)
  with \<open>N - D = {}\<close> show ?case by (intro exI [of _ "[]"]) (simp add: ts_levels.simps)
next
  case (Suc k)
  have ready: "set (t_ready st) = {n \<in> N. n \<notin> D \<and> indeg E D n = 0}"
    and fin: "finite (N - D)"
    and act: "ts_active st \<longleftrightarrow> t_ready st \<noteq> []"
    using Suc.prems(1) by (auto simp: sorter_inv_def ts_active_def)
  show ?case
  proof (cases "t_ready st = []")
    case True
    have "N - D = {}"
    proof (rule ccontr)
      assume "N - D \<noteq> {}"
      then obtain n where "n \<in> N - D" "\<not> has_pred_in E (N - D) n"
        using acyclic_minimal [OF ac fin] by blast
      then have "n \<in> set (t_ready st)" using EN by (auto simp: ready indeg_0 has_pred_in_iff)
      with True show False by simp
    qed
    with True act show ?thesis by (intro exI [of _ "[]"]) (simp add: ts_levels.simps)
  next
    case False
    obtain R st1 where g: "ts_get_ready st = (R, st1)" by force
    then have R: "R = t_ready st" by (simp add: ts_get_ready_def)
    note gi = get_ready_inv [OF Suc.prems(1) g]
    have inv: "sorter_inv E N (D \<union> set R) {} (ts_done E R st1)"
      using EN by (intro done_inv [OF _ gi(1) gi(2)]) auto
    have "set R \<noteq> {}" using False R by simp
    moreover have "set R \<subseteq> N - D" using gi(3) by auto
    ultimately obtain x where "x \<in> set R" "x \<in> N - D" by (metis ex_in_conv subsetD)
    then have "N - (D \<union> set R) \<subset> N - D" by auto
    then have "card (N - (D \<union> set R)) < card (N - D)"
      using fin by (intro psubset_card_mono)
    then have "card (N - (D \<union> set R)) \<le> k" using Suc.prems(2) by simp
    from Suc.IH [OF inv this] obtain ls where ls:
      "ts_levels k E (ts_done E R st1) = Some ls" "distinct (concat ls)"
      "set (concat ls) = N - (D \<union> set R)" "parents_first E (D \<union> set R) ls" "[] \<notin> set ls" by blast
    have "ts_levels (Suc k) E st = Some (R # ls)"
      using False act g R ls(1) by (simp add: ts_levels.simps [of "Suc k"])
    moreover have "distinct (concat (R # ls))" using gi(2) ls(2,3) by auto
    moreover have "set (concat (R # ls)) = N - D" using ls(3) \<open>set R \<subseteq> N - D\<close> by auto
    moreover have "parents_first E D (R # ls)"
      using ls(4) gi(3) by (auto simp: indeg_0 has_pred_in_iff)
    ultimately show ?thesis using ls(5) False R by (intro exI [of _ "R # ls"]) auto
  qed
qed

lemma prepare_inv:
  assumes "ts_prepare G = Some st"
  shows "sorter_inv (edges_of G) (set (nodes_of G)) {} {} st"
  using assms by (auto simp: ts_prepare_def sorter_inv_def split: if_splits)

lemma prepare_levels:
  assumes "ts_prepare G = Some st" and "length (nodes_of G) \<le> fuel"
  shows "\<exists>ls. ts_levels fuel (edges_of G) st = Some ls \<and> distinct (concat ls)
    \<and> set (concat ls) = set (nodes_of G) \<and> parents_first (edges_of G) {} ls \<and> [] \<notin> set ls"
proof -
  have "acyclic (set (edges_of G))"
    using assms(1) has_cycle_iff by (auto simp: ts_prepare_def split: if_splits)
  moreover have "\<forall>(p, m)\<in>set (edges_of G). p \<in> set (nodes_of G) \<and> m \<in> set (nodes_of G)"
    by (auto dest: edges_in_nodes)
  moreover have "card (set (nodes_of G) - {}) \<le> fuel"
    using assms(2) by (simp add: distinct_card)
  ultimately show ?thesis using levels_loop [OF _ _ prepare_inv [OF assms(1)]] by simp
qed

text \<open>The interface the validator and the rule engine rely on.\<close>

locale topo_sorter =
  fixes cyclic :: "'g \<Rightarrow> bool"
    and edge :: "'g \<Rightarrow> 'a \<Rightarrow> 'a \<Rightarrow> bool"
    and nodes :: "'g \<Rightarrow> 'a set"
    and schedule :: "'g \<Rightarrow> 'a list list option"
  assumes cyclic_law: "cyclic g \<longleftrightarrow> (\<exists>a. (edge g)\<^sup>+\<^sup>+ a a)"
    and schedule_cyclic: "cyclic g \<Longrightarrow> schedule g = None"
    and schedule_law: "\<not> cyclic g \<Longrightarrow> \<exists>ls. schedule g = Some ls \<and> distinct (concat ls)
      \<and> set (concat ls) = nodes g
      \<and> (\<forall>xs l ys p n. ls = xs @ l # ys \<longrightarrow> n \<in> set l \<longrightarrow> edge g p n \<longrightarrow> p \<in> set (concat xs))"
begin

lemma schedule_defined: "(\<exists>ls. schedule g = Some ls) \<longleftrightarrow> \<not> (\<exists>a. (edge g)\<^sup>+\<^sup>+ a a)"
  using cyclic_law schedule_cyclic schedule_law by (cases "cyclic g") fastforce+

lemma schedule_once:
  assumes "schedule g = Some ls" and "n \<in> nodes g"
  shows "\<exists>!i. i < length ls \<and> n \<in> set (ls ! i)"
proof -
  have "\<not> cyclic g" using assms(1) schedule_cyclic by auto
  then obtain ls' where "schedule g = Some ls'" "distinct (concat ls')" "set (concat ls') = nodes g"
    using schedule_law by blast
  with assms(1) have d: "distinct (concat ls)" and s: "set (concat ls) = nodes g" by simp_all
  from s assms(2) obtain l where "l \<in> set ls" "n \<in> set l" by auto
  then obtain i where i: "i < length ls" "n \<in> set (ls ! i)" by (auto simp: in_set_conv_nth)
  moreover have "j = i" if "j < length ls" "n \<in> set (ls ! j)" for j
    using distinct_concat_nth [OF d that(1) i(1) that(2) i(2)] .
  ultimately show ?thesis by blast
qed

end

definition ts_schedule :: "'a adds \<Rightarrow> 'a list list option" where
  "ts_schedule G = (case ts_prepare G of None \<Rightarrow> None
     | Some st \<Rightarrow> ts_levels (length (nodes_of G)) (edges_of G) st)"

lemma parents_first_split:
  "parents_first E D (xs @ l # ys) \<Longrightarrow> n \<in> set l \<Longrightarrow> (p, n) \<in> set E \<Longrightarrow> p \<in> D \<union> set (concat xs)"
  by (induction xs arbitrary: D) force+

definition graph_edge :: "'a adds \<Rightarrow> 'a \<Rightarrow> 'a \<Rightarrow> bool" where
  "graph_edge G p n \<longleftrightarrow> (p, n) \<in> set (edges_of G)"

lemma graph_edge_tranclp: "(graph_edge G)\<^sup>+\<^sup>+ a b \<longleftrightarrow> (a, b) \<in> (set (edges_of G))\<^sup>+"
  by (simp add: trancl_def graph_edge_def [abs_def])

interpretation topo: topo_sorter has_cycle graph_edge "\<lambda>G. set (nodes_of G)" ts_schedule
proof
  fix g :: "'a adds"
  show "has_cycle g \<longleftrightarrow> (\<exists>a. (graph_edge g)\<^sup>+\<^sup>+ a a)"
    by (auto simp: has_cycle_iff graph_edge_tranclp acyclic_def)
  show "has_cycle g \<Longrightarrow> ts_schedule g = None"
    by (simp add: ts_schedule_def ts_prepare_def)
  show "\<exists>ls. ts_schedule g = Some ls \<and> distinct (concat ls) \<and> set (concat ls) = set (nodes_of g)
      \<and> (\<forall>xs l ys p n. ls = xs @ l # ys \<longrightarrow> n \<in> set l \<longrightarrow> graph_edge g p n \<longrightarrow> p \<in> set (concat xs))"
    if "\<not> has_cycle g"
  proof -
    from that obtain st where st: "ts_prepare g = Some st" by (auto simp: ts_prepare_def)
    from prepare_levels [OF st order_refl] obtain ls where
      ls: "ts_levels (length (nodes_of g)) (edges_of g) st = Some ls" "distinct (concat ls)"
      "set (concat ls) = set (nodes_of g)" "parents_first (edges_of g) {} ls" by blast
    moreover have "ts_schedule g = Some ls" using st ls(1) by (simp add: ts_schedule_def)
    moreover have "\<forall>xs l ys p n. ls = xs @ l # ys \<longrightarrow> n \<in> set l \<longrightarrow> graph_edge g p n \<longrightarrow> p \<in> set (concat xs)"
      using parents_first_split [of "edges_of g" "{}"] ls(4) by (fastforce simp: graph_edge_def)
    ultimately show ?thesis by blast
  qed
qed

end
