(* ===== verification/RequestCheck.thy ===== *)
theory RequestCheck
  imports Domain FileInput RuleGraph
begin

text \<open>
  \<open>RequestValidator\<close> (\<open>core/services/validation/request_validator.py\<close>): the semantic checks
  run before a request enters the pipeline. An issue carries its severity, its code (a
  constructor with the values the message quotes) and its path; the texts of the messages
  are fixed templates over those values. The node path \<open>graphlib\<close> reports for a cycle is
  not modelled, only whether it reports one.
\<close>

section \<open>Requests and issues\<close>

record stage_toggles =
  st_splitter :: bool
  st_classifier :: bool
  st_field_validation :: bool
  st_visual_authenticity :: bool
  st_content_authenticity :: bool
  st_judge :: bool
  st_judge_escalation :: bool
  st_repair :: bool
  st_bbox_refine :: bool
  st_transform :: bool
  st_rule_engine :: bool

record extraction_request =
  rq_files :: "file_input list"
  rq_doc_types :: "doc_type list"
  rq_rules :: "rule_spec list"
  rq_stages :: stage_toggles

datatype issue_code =
    DocumentTypeUnknown string string
  | EmptyFieldGroups string
  | EmptyFieldGroup string string
  | DuplicateFieldName string string
  | DuplicateDocumentType string nat
  | DuplicateRuleId string
  | RuleUnknownDoctype string string
  | RuleUnknownField string string string
  | RuleUnknownValidator string string string
  | RuleUnknownParent string string
  | RuleSelfReference string
  | RuleCycle
  | RuleEngineNoRules
  | VisualAuthenticityNoValidators
  | SplitterSingleDoc
  | RepairSyncLatency
  | RepairNoVerificationStage

datatype issue = Issue (is_severity: severity) (is_code: issue_code) (is_path: string)

abbreviation err :: "issue_code \<Rightarrow> string \<Rightarrow> issue" where
  "err \<equiv> Issue SEV_ERROR"

abbreviation warn :: "issue_code \<Rightarrow> string \<Rightarrow> issue" where
  "warn \<equiv> Issue SEV_WARNING"

definition report_errors :: "issue list \<Rightarrow> issue list" where
  "report_errors is = filter (\<lambda>i. is_severity i = SEV_ERROR) is"

definition report_warnings :: "issue list \<Rightarrow> issue list" where
  "report_warnings is = filter (\<lambda>i. is_severity i = SEV_WARNING) is"

definition has_errors :: "issue list \<Rightarrow> bool" where
  "has_errors is \<longleftrightarrow> (\<exists>i\<in>set is. is_severity i = SEV_ERROR)"

definition indexed :: "string \<Rightarrow> nat \<Rightarrow> string" where
  "indexed name i = name @ ''['' @ str_of_nat i @ '']''"

definition enum_map :: "(nat \<Rightarrow> 'a \<Rightarrow> 'b list) \<Rightarrow> 'a list \<Rightarrow> 'b list" where
  "enum_map f xs = concat (map (\<lambda>(i, x). f i x) (enumerate 0 xs))"

section \<open>The checks\<close>

definition check_files :: "extraction_request \<Rightarrow> issue list" where
  "check_files rq = enum_map (\<lambda>i f. case f_expected f of
       None \<Rightarrow> []
     | Some t \<Rightarrow> if t = [] \<or> t \<in> dt_id ` set (rq_doc_types rq) then []
         else [err (DocumentTypeUnknown (f_filename f) t) (indexed ''files'' i @ ''.expected_type'')])
     (rq_files rq)"

definition doc_field_names :: "doc_type \<Rightarrow> string list" where
  "doc_field_names d = concat (map (\<lambda>g. map fs_name (fg_fields g)) (dt_groups d))"

text \<open>The names met a second time, in order, one issue per repetition.\<close>

fun repeats :: "'a set \<Rightarrow> 'a list \<Rightarrow> 'a list" where
  "repeats seen [] = []"
| "repeats seen (x # xs) = (if x \<in> seen then [x] else []) @ repeats (insert x seen) xs"

definition check_one_doc :: "nat \<Rightarrow> doc_type \<Rightarrow> issue list" where
  "check_one_doc i d =
     (if dt_groups d = [] then [err (EmptyFieldGroups (dt_id d)) (indexed ''document_types'' i @ ''.field_groups'')]
      else enum_map (\<lambda>j g. if fg_fields g = []
               then [err (EmptyFieldGroup (dt_id d) (fg_name g))
                      (indexed ''document_types'' i @ indexed ''.field_groups'' j @ ''.fields'')] else [])
             (dt_groups d)
           @ map (\<lambda>n. err (DuplicateFieldName (dt_id d) n) (indexed ''document_types'' i @ ''.id''))
               (repeats {} (doc_field_names d)))"

text \<open>The keys of \<open>seen_doctypes\<close>, in first-insertion order, with their counts.\<close>

definition first_order :: "'a list \<Rightarrow> 'a list" where
  "first_order xs = rev (remdups (rev xs))"

definition check_document_types :: "extraction_request \<Rightarrow> issue list" where
  "check_document_types rq =
     enum_map check_one_doc (rq_doc_types rq)
   @ concat (map (\<lambda>t. let n = count_list (map dt_id (rq_doc_types rq)) t in
         if 1 < n then [err (DuplicateDocumentType t n) ''document_types[].id''] else [])
       (first_order (map dt_id (rq_doc_types rq))))"

definition doc_index :: "extraction_request \<Rightarrow> string \<Rightarrow> doc_type option" where
  "doc_index rq = dict_of (map (\<lambda>d. (dt_id d, d)) (rq_doc_types rq))"

definition check_parent :: "extraction_request \<Rightarrow> rule_spec \<Rightarrow> string \<Rightarrow> rule_parent \<Rightarrow> issue list" where
  "check_parent rq r path p = (case p of
     RuleFieldParent dt fns \<Rightarrow>
       (case doc_index rq dt of None \<Rightarrow> [err (RuleUnknownDoctype (ru_id r) dt) path]
        | Some d \<Rightarrow> map (\<lambda>f. err (RuleUnknownField (ru_id r) f dt) path)
            (filter (\<lambda>f. f \<notin> set (doc_field_names d)) fns))
   | RuleValidatorParent dt v \<Rightarrow>
       (case doc_index rq dt of None \<Rightarrow> [err (RuleUnknownDoctype (ru_id r) dt) path]
        | Some d \<Rightarrow> if v \<in> set (dt_visual_checks d) then []
            else [err (RuleUnknownValidator (ru_id r) v dt) path])
   | RuleRuleParent q \<Rightarrow>
       (if q \<notin> ru_id ` set (rq_rules rq) then [err (RuleUnknownParent (ru_id r) q) path]
        else if q = ru_id r then [err (RuleSelfReference (ru_id r)) path] else []))"

fun check_rules_from :: "extraction_request \<Rightarrow> string set \<Rightarrow> nat \<Rightarrow> rule_spec list \<Rightarrow> issue list" where
  "check_rules_from rq seen i [] = []"
| "check_rules_from rq seen i (r # rs) =
     (if ru_id r \<in> seen then [err (DuplicateRuleId (ru_id r)) (indexed ''rules'' i @ ''.id'')] else [])
   @ enum_map (\<lambda>j p. check_parent rq r (indexed ''rules'' i @ indexed ''.parents'' j) p) (ru_parents r)
   @ check_rules_from rq (insert (ru_id r) seen) (Suc i) rs"

definition check_rule_references :: "extraction_request \<Rightarrow> issue list" where
  "check_rule_references rq = check_rules_from rq {} 0 (rq_rules rq)"

text \<open>The sorter's \<open>add\<close> calls: the rule parents that name a declared rule.\<close>

definition rule_adds :: "rule_spec list \<Rightarrow> string adds" where
  "rule_adds rules = map (\<lambda>r. (ru_id r,
     concat (map (\<lambda>p. case p of RuleRuleParent q \<Rightarrow> if q \<in> ru_id ` set rules then [q] else [] | _ \<Rightarrow> [])
       (ru_parents r)))) rules"

definition check_rule_dag :: "extraction_request \<Rightarrow> issue list" where
  "check_rule_dag rq = (case ts_prepare (rule_adds (rq_rules rq)) of
     None \<Rightarrow> [err RuleCycle ''rules[]''] | Some _ \<Rightarrow> [])"

definition check_stage_consistency :: "bool \<Rightarrow> extraction_request \<Rightarrow> issue list" where
  "check_stage_consistency sync rq = (let s = rq_stages rq in
     (if st_rule_engine s \<and> rq_rules rq = []
      then [warn RuleEngineNoRules ''options.stages.rule_engine''] else [])
   @ (if st_visual_authenticity s \<and> (\<forall>d\<in>set (rq_doc_types rq). dt_visual_checks d = [])
      then [warn VisualAuthenticityNoValidators ''options.stages.visual_authenticity''] else [])
   @ (if st_splitter s \<and> length (rq_doc_types rq) \<le> 1
      then [warn SplitterSingleDoc ''options.stages.splitter''] else [])
   @ (if sync \<and> st_repair s then [warn RepairSyncLatency ''options.stages.repair''] else [])
   @ (if st_repair s \<and> \<not> (st_judge s \<or> st_field_validation s)
      then [warn RepairNoVerificationStage ''options.stages.repair''] else []))"

definition validate_request :: "bool \<Rightarrow> extraction_request \<Rightarrow> issue list" where
  "validate_request sync rq = check_files rq @ check_document_types rq @ check_rule_references rq
     @ check_rule_dag rq @ check_stage_consistency sync rq"

section \<open>What a request without errors is\<close>

definition parent_ok :: "extraction_request \<Rightarrow> rule_spec \<Rightarrow> rule_parent \<Rightarrow> bool" where
  "parent_ok rq r p = (case p of
     RuleFieldParent dt fns \<Rightarrow> \<exists>d\<in>set (rq_doc_types rq). dt_id d = dt \<and> set fns \<subseteq> set (doc_field_names d)
   | RuleValidatorParent dt v \<Rightarrow> \<exists>d\<in>set (rq_doc_types rq). dt_id d = dt \<and> v \<in> set (dt_visual_checks d)
   | RuleRuleParent q \<Rightarrow> q \<in> ru_id ` set (rq_rules rq))"

definition rule_edge :: "rule_spec list \<Rightarrow> string \<Rightarrow> string \<Rightarrow> bool" where
  "rule_edge rules q n \<longleftrightarrow> q \<in> ru_id ` set rules \<and> (\<exists>r\<in>set rules. ru_id r = n \<and> RuleRuleParent q \<in> set (ru_parents r))"

definition request_ok :: "extraction_request \<Rightarrow> bool" where
  "request_ok rq \<longleftrightarrow>
     (\<forall>f\<in>set (rq_files rq). \<forall>t. f_expected f = Some t \<longrightarrow> t = [] \<or> t \<in> dt_id ` set (rq_doc_types rq))
   \<and> (\<forall>d\<in>set (rq_doc_types rq). dt_groups d \<noteq> [] \<and> (\<forall>g\<in>set (dt_groups d). fg_fields g \<noteq> [])
        \<and> distinct (doc_field_names d))
   \<and> distinct (map dt_id (rq_doc_types rq))
   \<and> distinct (map ru_id (rq_rules rq))
   \<and> (\<forall>r\<in>set (rq_rules rq). \<forall>p\<in>set (ru_parents r). parent_ok rq r p)
   \<and> \<not> (\<exists>a. (rule_edge (rq_rules rq))\<^sup>+\<^sup>+ a a)"

lemma has_errors_simps [simp]:
  "has_errors [] = False"
  "has_errors (i # is) = (is_severity i = SEV_ERROR \<or> has_errors is)"
  "has_errors (xs @ ys) = (has_errors xs \<or> has_errors ys)"
  by (auto simp: has_errors_def)

lemma has_errors_map: "has_errors (map (\<lambda>x. err (f x) (g x)) xs) \<longleftrightarrow> xs \<noteq> []"
  by (cases xs) (auto simp: has_errors_def)

lemma has_errors_enum:
  assumes "\<And>i x. x \<in> set xs \<Longrightarrow> has_errors (f i x) \<longleftrightarrow> P x"
  shows "has_errors (enum_map f xs) \<longleftrightarrow> (\<exists>x\<in>set xs. P x)"
proof -
  have "has_errors (enum_map f xs) \<longleftrightarrow> (\<exists>p\<in>set (enumerate 0 xs). has_errors (f (fst p) (snd p)))"
    by (simp add: has_errors_def enum_map_def case_prod_beta)
  also have "\<dots> \<longleftrightarrow> (\<exists>p\<in>set (enumerate 0 xs). P (snd p))"
    using assms by (intro bex_cong) (auto simp: in_set_enumerate_eq)
  also have "\<dots> \<longleftrightarrow> (\<exists>x\<in>snd ` set (enumerate 0 xs). P x)" by blast
  also have "snd ` set (enumerate 0 xs) = set xs" by (simp flip: set_map)
  finally show ?thesis .
qed

lemma repeats_Nil: "repeats seen xs = [] \<longleftrightarrow> distinct xs \<and> set xs \<inter> seen = {}"
  by (induction xs arbitrary: seen) auto

lemma distinct_counts: "distinct xs \<longleftrightarrow> (\<forall>x\<in>set xs. \<not> 1 < count_list xs x)"
proof (induction xs)
  case (Cons a xs)
  have "count_list xs a = 0 \<longleftrightarrow> a \<notin> set xs" by (rule count_list_0_iff)
  with Cons show ?case by (auto split: if_splits)
qed simp

lemma check_files_errors: "has_errors (check_files rq) \<longleftrightarrow>
    (\<exists>f\<in>set (rq_files rq). \<exists>t. f_expected f = Some t \<and> t \<noteq> [] \<and> t \<notin> dt_id ` set (rq_doc_types rq))"
  unfolding check_files_def by (rule has_errors_enum) (auto split: option.splits)

lemma check_one_doc_errors: "has_errors (check_one_doc i d) \<longleftrightarrow>
    \<not> (dt_groups d \<noteq> [] \<and> (\<forall>g\<in>set (dt_groups d). fg_fields g \<noteq> []) \<and> distinct (doc_field_names d))"
proof (cases "dt_groups d = []")
  case False
  have "has_errors (enum_map (\<lambda>j g. if fg_fields g = []
      then [err (EmptyFieldGroup (dt_id d) (fg_name g)) (p j)] else []) (dt_groups d))
      \<longleftrightarrow> (\<exists>g\<in>set (dt_groups d). fg_fields g = [])" for p
    by (rule has_errors_enum) auto
  with False show ?thesis
    by (simp add: check_one_doc_def has_errors_map repeats_Nil)
qed (simp add: check_one_doc_def)

lemma first_order_set [simp]: "set (first_order xs) = set xs"
  by (simp add: first_order_def)

lemma check_document_types_errors: "has_errors (check_document_types rq) \<longleftrightarrow>
    \<not> ((\<forall>d\<in>set (rq_doc_types rq). dt_groups d \<noteq> [] \<and> (\<forall>g\<in>set (dt_groups d). fg_fields g \<noteq> [])
        \<and> distinct (doc_field_names d)) \<and> distinct (map dt_id (rq_doc_types rq)))"
proof -
  have "has_errors (enum_map check_one_doc (rq_doc_types rq)) \<longleftrightarrow>
      (\<exists>d\<in>set (rq_doc_types rq). \<not> (dt_groups d \<noteq> [] \<and> (\<forall>g\<in>set (dt_groups d). fg_fields g \<noteq> [])
        \<and> distinct (doc_field_names d)))"
    by (rule has_errors_enum) (rule check_one_doc_errors)
  moreover have "has_errors (concat (map (\<lambda>t. let n = count_list ts t in
         if 1 < n then [err (DuplicateDocumentType t n) p] else []) (first_order ts))) \<longleftrightarrow> \<not> distinct ts" for ts p
    by (auto simp: has_errors_def distinct_counts [of ts] Let_def split: if_splits)
  ultimately show ?thesis by (auto simp: check_document_types_def)
qed

lemma doc_index_iff:
  assumes "distinct (map dt_id (rq_doc_types rq))"
  shows "doc_index rq t = Some d \<longleftrightarrow> d \<in> set (rq_doc_types rq) \<and> dt_id d = t"
proof -
  let ?kvs = "rev (map (\<lambda>d. (dt_id d, d)) (rq_doc_types rq))"
  have "map fst ?kvs = rev (map dt_id (rq_doc_types rq))" by (simp add: rev_map)
  then have "distinct (map fst ?kvs)" using assms by simp
  then show ?thesis
    by (auto simp: doc_index_def dict_of_def map_of_eq_Some_iff)
qed

lemma bex_doc:
  assumes "distinct (map dt_id (rq_doc_types rq))"
  shows "(\<exists>d\<in>set (rq_doc_types rq). dt_id d = t \<and> P d) \<longleftrightarrow>
    (case doc_index rq t of None \<Rightarrow> False | Some d \<Rightarrow> P d)"
proof (cases "doc_index rq t")
  case None
  with doc_index_iff [OF assms, of t] show ?thesis by auto
next
  case (Some d)
  then have "d \<in> set (rq_doc_types rq) \<and> dt_id d = t" using doc_index_iff [OF assms] by blast
  moreover have "d' = d" if "d' \<in> set (rq_doc_types rq)" "dt_id d' = t" for d'
    using doc_index_iff [OF assms, of t d'] that Some by simp
  ultimately show ?thesis using Some by auto
qed

lemma check_parent_errors:
  assumes "distinct (map dt_id (rq_doc_types rq))"
  shows "has_errors (check_parent rq r path p) \<longleftrightarrow>
    \<not> parent_ok rq r p \<or> p = RuleRuleParent (ru_id r)"
proof (cases p)
  case (RuleFieldParent dt fns)
  have "has_errors (map (\<lambda>f. err (RuleUnknownField (ru_id r) f dt) path)
      (filter (\<lambda>f. f \<notin> set (doc_field_names d)) fns)) \<longleftrightarrow> \<not> set fns \<subseteq> set (doc_field_names d)" for d
    by (auto simp: has_errors_map filter_empty_conv)
  with RuleFieldParent show ?thesis
    by (simp add: check_parent_def parent_ok_def bex_doc [OF assms] split: option.split)
next
  case (RuleValidatorParent dt v)
  then show ?thesis
    by (simp add: check_parent_def parent_ok_def bex_doc [OF assms] split: option.split)
qed (auto simp: check_parent_def parent_ok_def)

lemma check_rules_from_errors:
  assumes "distinct (map dt_id (rq_doc_types rq))"
  shows "has_errors (check_rules_from rq seen i rs) \<longleftrightarrow>
    \<not> (distinct (map ru_id rs) \<and> ru_id ` set rs \<inter> seen = {})
    \<or> (\<exists>r\<in>set rs. \<exists>p\<in>set (ru_parents r). \<not> parent_ok rq r p \<or> p = RuleRuleParent (ru_id r))"
proof (induction rs arbitrary: seen i)
  case (Cons r rs)
  have "has_errors (enum_map (\<lambda>j p. check_parent rq r (q j) p) (ru_parents r)) \<longleftrightarrow>
      (\<exists>p\<in>set (ru_parents r). \<not> parent_ok rq r p \<or> p = RuleRuleParent (ru_id r))" for q
    by (rule has_errors_enum) (rule check_parent_errors [OF assms])
  with Cons.IH show ?case by auto
qed simp

lemma rule_graph_edge: "graph_edge (rule_adds rules) = rule_edge rules"
proof (intro ext)
  fix q n
  have "q \<in> set (concat (map (\<lambda>p. case p of RuleRuleParent q \<Rightarrow> if q \<in> ids then [q] else [] | _ \<Rightarrow> []) ps))
      \<longleftrightarrow> q \<in> ids \<and> RuleRuleParent q \<in> set ps" for ids ps
    by (induction ps) (auto split: rule_parent.split)
  then show "graph_edge (rule_adds rules) q n = rule_edge rules q n"
    by (auto simp: graph_edge_def edges_of_iff rule_adds_def rule_edge_def)
qed

lemma check_rule_dag_errors: "has_errors (check_rule_dag rq) \<longleftrightarrow>
    (\<exists>a. (rule_edge (rq_rules rq))\<^sup>+\<^sup>+ a a)"
  unfolding rule_graph_edge [symmetric] topo.cyclic_law [symmetric]
  by (simp add: check_rule_dag_def ts_prepare_def)

lemma stage_warnings: "\<not> has_errors (check_stage_consistency sync rq)"
  by (simp add: check_stage_consistency_def Let_def)

lemma validate_request_ok: "has_errors (validate_request sync rq) \<longleftrightarrow> \<not> request_ok rq"
proof (cases "distinct (map dt_id (rq_doc_types rq))")
  case True
  have self: "(\<exists>a. (rule_edge (rq_rules rq))\<^sup>+\<^sup>+ a a)"
    if "r \<in> set (rq_rules rq)" "RuleRuleParent (ru_id r) \<in> set (ru_parents r)" for r
    using that by (intro exI [of _ "ru_id r"] tranclp.r_into_trancl) (auto simp: rule_edge_def)
  show ?thesis
    unfolding validate_request_def has_errors_simps check_files_errors check_document_types_errors
      check_rule_references_def check_rules_from_errors [OF True] check_rule_dag_errors request_ok_def
    using self stage_warnings True by (intro iffI; (elim disjE conjE)?; simp; fastforce)
next
  case False
  then have "has_errors (check_document_types rq)" by (simp add: check_document_types_errors)
  with False show ?thesis by (simp add: validate_request_def request_ok_def)
qed

section \<open>Properties\<close>

text \<open>C5: the validator is sound and complete for its specification, in both modes: it reports an
  error exactly when the request is not well formed, that is when a pinned type is not declared,
  a document type has no group, an empty group or a repeated field name, document type ids or rule
  ids repeat, a rule parent does not resolve, or the rules depend on each other in a cycle (a
  self-reference included). The stage-consistency checks only ever warn.\<close>

theorem validator_decides:
  "has_errors (validate_request sync rq) = (\<not> request_ok rq)
   \<and> report_errors (check_stage_consistency sync rq) = []"
  using validate_request_ok stage_warnings
  by (auto simp: report_errors_def has_errors_def filter_empty_conv)

end
