(* ===== verification/RuleEval.thy ===== *)
theory RuleEval
  imports RequestCheck Agents
begin

text \<open>
  \<open>RuleEngine\<close> (\<open>core/services/rules/rule_engine.py\<close>): business rules evaluated level by level
  over their dependency graph. One LLM call evaluates one level; the agent is a parameter that
  answers a call with its raw results or raises. The rendered prompt is represented by the
  values put into it: the active rules, the document context and the earlier results.
\<close>

section \<open>Results\<close>

record raw_rule_result =
  rr_rule_id :: string
  rr_predicate :: string
  rr_output :: string
  rr_summary :: string
  rr_notes :: "string list"
  rr_human :: string

record rule_result =
  re_rule_id :: string
  re_predicate :: string
  re_output :: string
  re_summary :: "string option"
  re_notes :: "string list"
  re_human :: "string option"

definition rule_by_id :: "rule_spec list \<Rightarrow> string \<Rightarrow> rule_spec option" where
  "rule_by_id rules = dict_of (map (\<lambda>r. (ru_id r, r)) rules)"

text \<open>\<open>s or None\<close>\<close>

definition or_none :: "string \<Rightarrow> string option" where
  "or_none s = (if s = [] then None else Some s)"

definition to_result :: "rule_spec list \<Rightarrow> raw_rule_result \<Rightarrow> rule_result" where
  "to_result rules raw = \<lparr>re_rule_id = rr_rule_id raw,
     re_predicate = (if rr_predicate raw \<noteq> [] then rr_predicate raw
        else (case rule_by_id rules (rr_rule_id raw) of Some r \<Rightarrow> ru_predicate r | None \<Rightarrow> [])),
     re_output = rr_output raw, re_summary = or_none (rr_summary raw), re_notes = rr_notes raw,
     re_human = or_none (rr_human raw)\<rparr>"

section \<open>Contexts\<close>

definition used_by_any :: "string \<Rightarrow> rule_spec list \<Rightarrow> bool" where
  "used_by_any rid active \<longleftrightarrow> (\<exists>r\<in>set active. RuleRuleParent rid \<in> set (ru_parents r))"

datatype serialised = SValue xvalue | SRows "(string \<times> (string \<times> xvalue) list) list"

definition serialise_field_value :: "xfield \<Rightarrow> serialised" where
  "serialise_field_value f = (case xf_value f of
     VList rs \<Rightarrow> SRows (map (\<lambda>r. (xf_name r, map (\<lambda>s. (xf_name s, xf_value s)) (rows_of (xf_value r)))) rs)
   | v \<Rightarrow> SValue v)"

datatype context_row =
    FieldRow string string string serialised field_validation judge_outcome
  | CheckRow string visual_result

definition dep_docs :: "rule_spec list \<Rightarrow> string list" where
  "dep_docs active = first_order (concat (map (\<lambda>r. concat (map (\<lambda>p. case p of
     RuleFieldParent d _ \<Rightarrow> [d] | RuleValidatorParent d _ \<Rightarrow> [d] | RuleRuleParent _ \<Rightarrow> []) (ru_parents r))) active))"

definition wanted_fields :: "rule_spec list \<Rightarrow> string \<Rightarrow> string set" where
  "wanted_fields active d = (\<Union>r\<in>set active. \<Union>p\<in>set (ru_parents r).
     case p of RuleFieldParent d' fs \<Rightarrow> if d' = d then set fs else {} | _ \<Rightarrow> {})"

definition wanted_checks :: "rule_spec list \<Rightarrow> string \<Rightarrow> string set" where
  "wanted_checks active d = (\<Union>r\<in>set active. \<Union>p\<in>set (ru_parents r).
     case p of RuleValidatorParent d' v \<Rightarrow> if d' = d then {v} else {} | _ \<Rightarrow> {})"

definition documents_context :: "rule_spec list \<Rightarrow> doc_type list \<Rightarrow> (string \<Rightarrow> xgroup list) \<Rightarrow> (string \<Rightarrow> visual_result list)
    \<Rightarrow> context_row list" where
  "documents_context active docs extracted visual = concat (map (\<lambda>d.
     if d \<notin> dt_id ` set docs then []
     else concat (map (\<lambda>g. map (\<lambda>f. FieldRow d (xg_name g) (xf_name f) (serialise_field_value f)
              (xm_validation (xf_meta f)) (xm_judge (xf_meta f)))
            (filter (\<lambda>f. xf_name f \<in> wanted_fields active d) (xg_fields g))) (extracted d))
        @ map (CheckRow d) (filter (\<lambda>v. vr_name v \<in> wanted_checks active d) (visual d)))
     (dep_docs active))"

section \<open>Evaluation\<close>

record rule_call =
  rc_active :: "rule_spec list"
  rc_documents :: "context_row list"
  rc_previous :: "rule_result list"

datatype eval_outcome = Evaluated "rule_result list" | CycleRaised | AgentRaised

type_synonym rule_agent = "rule_call \<Rightarrow> raw_rule_result list option"

definition make_call :: "rule_spec list \<Rightarrow> (rule_spec list \<Rightarrow> context_row list) \<Rightarrow> string list \<Rightarrow> rule_result list \<Rightarrow> rule_call" where
  "make_call rules ctx ready results =
     (let active = concat (map (\<lambda>i. case rule_by_id rules i of Some r \<Rightarrow> [r] | None \<Rightarrow> []) ready) in
      \<lparr>rc_active = active, rc_documents = ctx active,
       rc_previous = filter (\<lambda>r. used_by_any (re_rule_id r) active) results\<rparr>)"

text \<open>The loop over the sorter, with fuel; the second component lists the calls made.\<close>

fun rule_loop :: "nat \<Rightarrow> rule_spec list \<Rightarrow> (rule_spec list \<Rightarrow> context_row list) \<Rightarrow> rule_agent \<Rightarrow> (string \<times> string) list
    \<Rightarrow> string sorter \<Rightarrow> rule_result list \<Rightarrow> (eval_outcome \<times> rule_call list) option" where
  "rule_loop fuel rules ctx agent E st results =
     (if \<not> ts_active st then Some (Evaluated results, [])
      else let (ready, st1) = ts_get_ready st in
        if ready = [] then Some (Evaluated results, [])
        else (case fuel of 0 \<Rightarrow> None
          | Suc k \<Rightarrow> (let call = make_call rules ctx ready results in
              (case agent call of None \<Rightarrow> Some (AgentRaised, [call])
               | Some raws \<Rightarrow> map_option (\<lambda>(out, calls). (out, call # calls))
                   (rule_loop k rules ctx agent E (ts_done E ready st1) (results @ map (to_result rules) raws))))))"

declare rule_loop.simps [simp del]

definition evaluate_rules :: "rule_spec list \<Rightarrow> (rule_spec list \<Rightarrow> context_row list) \<Rightarrow> rule_agent
    \<Rightarrow> (eval_outcome \<times> rule_call list) option" where
  "evaluate_rules rules ctx agent =
     (if rules = [] then Some (Evaluated [], [])
      else (case ts_prepare (rule_adds rules) of None \<Rightarrow> Some (CycleRaised, [])
        | Some st \<Rightarrow> rule_loop (length (nodes_of (rule_adds rules))) rules ctx agent (edges_of (rule_adds rules)) st []))"

text \<open>The same evaluation over a given list of levels: the reference the loop is compared with.\<close>

fun eval_levels :: "rule_spec list \<Rightarrow> (rule_spec list \<Rightarrow> context_row list) \<Rightarrow> rule_agent \<Rightarrow> string list list
    \<Rightarrow> rule_result list \<Rightarrow> eval_outcome \<times> rule_call list" where
  "eval_levels rules ctx agent [] results = (Evaluated results, [])"
| "eval_levels rules ctx agent (l # ls) results = (let call = make_call rules ctx l results in
     (case agent call of None \<Rightarrow> (AgentRaised, [call])
      | Some raws \<Rightarrow> let (out, calls) = eval_levels rules ctx agent ls (results @ map (to_result rules) raws)
          in (out, call # calls)))"

lemma rule_loop_levels:
  "ts_levels fuel E st = Some ls \<Longrightarrow> rule_loop fuel rules ctx agent E st results = Some (eval_levels rules ctx agent ls results)"
proof (induction fuel arbitrary: st ls results)
  case 0
  then show ?case
    by (auto simp: ts_levels.simps [of 0] rule_loop.simps [of 0] Let_def split: if_splits prod.splits)
next
  case (Suc k)
  show ?case
  proof (cases "\<not> ts_active st \<or> fst (ts_get_ready st) = []")
    case True
    with Suc.prems show ?thesis
      by (auto simp: ts_levels.simps [of "Suc k"] rule_loop.simps [of "Suc k"] split: prod.splits if_splits)
  next
    case False
    obtain R st1 where g: "ts_get_ready st = (R, st1)" by force
    with False Suc.prems obtain ls' where ls: "ts_levels k E (ts_done E R st1) = Some ls'" "ls = R # ls'"
      by (auto simp: ts_levels.simps [of "Suc k"])
    show ?thesis
      using False g ls(2) Suc.IH [OF ls(1)]
      by (simp add: rule_loop.simps [of "Suc k"] Let_def split: option.split prod.split)
  qed
qed

lemma evaluate_by_schedule:
  "rules \<noteq> [] \<Longrightarrow> evaluate_rules rules ctx agent = (case ts_schedule (rule_adds rules) of
     None \<Rightarrow> Some (CycleRaised, []) | Some ls \<Rightarrow> Some (eval_levels rules ctx agent ls []))"
proof (cases "ts_prepare (rule_adds rules)")
  case (Some st)
  from prepare_levels [OF Some order_refl] obtain ls where
    ls: "ts_levels (length (nodes_of (rule_adds rules))) (edges_of (rule_adds rules)) st = Some ls" by blast
  assume "rules \<noteq> []"
  with Some ls rule_loop_levels [OF ls] show ?thesis by (simp add: evaluate_rules_def ts_schedule_def)
qed (simp add: evaluate_rules_def ts_schedule_def)

section \<open>What the calls are\<close>

definition call_ids :: "rule_call \<Rightarrow> string list" where
  "call_ids c = map ru_id (rc_active c)"

lemma rule_by_id_known:
  assumes "i \<in> ru_id ` set rules"
  obtains r where "rule_by_id rules i = Some r" and "r \<in> set rules" and "ru_id r = i"
proof -
  have "i \<in> fst ` set (map (\<lambda>r. (ru_id r, r)) rules)" using assms by (force simp: image_iff)
  then obtain r where r: "rule_by_id rules i = Some r"
    using dict_of_key [of "map (\<lambda>r. (ru_id r, r)) rules" i] unfolding rule_by_id_def by blast
  then have "(i, r) \<in> set (map (\<lambda>r. (ru_id r, r)) rules)" unfolding rule_by_id_def by (rule dict_of_in)
  with r show thesis using that by auto
qed

lemma call_active:
  "set l \<subseteq> ru_id ` set rules \<Longrightarrow> call_ids (make_call rules ctx l results) = l \<and> set (rc_active (make_call rules ctx l results)) \<subseteq> set rules"
proof (induction l)
  case (Cons i l)
  then have "i \<in> ru_id ` set rules" by simp
  then obtain r where "rule_by_id rules i = Some r" "r \<in> set rules" "ru_id r = i"
    by (rule rule_by_id_known)
  with Cons show ?case by (simp add: make_call_def call_ids_def Let_def)
qed (simp add: make_call_def call_ids_def)

lemma eval_levels_calls:
  "eval_levels rules ctx agent ls results = (out, calls) \<Longrightarrow> \<forall>l\<in>set ls. set l \<subseteq> ru_id ` set rules \<Longrightarrow>
    (\<exists>k. map call_ids calls = take k ls) \<and> (out \<noteq> AgentRaised \<longrightarrow> map call_ids calls = ls) \<and> out \<noteq> CycleRaised"
proof (induction ls arbitrary: results out calls)
  case Nil
  then show ?case by auto
next
  case (Cons l ls)
  let ?call = "make_call rules ctx l results"
  have ids: "call_ids ?call = l" using call_active [of l rules ctx results] Cons.prems(2) by simp
  show ?case
  proof (cases "agent ?call")
    case None
    with Cons.prems(1) ids show ?thesis by (auto simp: Let_def intro: exI [of _ 1])
  next
    case (Some raws)
    then obtain calls' where e: "eval_levels rules ctx agent ls (results @ map (to_result rules) raws) = (out, calls')"
        "calls = ?call # calls'"
      using Cons.prems(1) by (auto simp: Let_def split: prod.splits)
    have sub: "\<forall>l\<in>set ls. set l \<subseteq> ru_id ` set rules" using Cons.prems(2) by simp
    note ih = Cons.IH [OF e(1) sub]
    from ih obtain k where "map call_ids calls' = take k ls" by blast
    then have "map call_ids calls = take (Suc k) (l # ls)" using e(2) ids by simp
    then show ?thesis using ih e(2) ids by (intro conjI exI [of _ "Suc k"]) auto
  qed
qed

text \<open>An agent that answers every rule it is asked about.\<close>

definition answers_all :: "rule_agent \<Rightarrow> bool" where
  "answers_all agent \<longleftrightarrow> (\<forall>call raws. agent call = Some raws \<longrightarrow>
     (\<forall>r\<in>set (rc_active call). ru_id r \<in> rr_rule_id ` set raws))"

definition parents_present :: "rule_spec list \<Rightarrow> rule_call \<Rightarrow> bool" where
  "parents_present rules call \<longleftrightarrow> (\<forall>r\<in>set (rc_active call). \<forall>q. RuleRuleParent q \<in> set (ru_parents r) \<longrightarrow>
     q \<in> ru_id ` set rules \<longrightarrow> q \<in> re_rule_id ` set (rc_previous call))"

lemma eval_levels_parents:
  assumes ans: "answers_all agent"
  shows "eval_levels rules ctx agent ls results = (out, calls) \<Longrightarrow> \<forall>l\<in>set ls. set l \<subseteq> ru_id ` set rules \<Longrightarrow>
    parents_first (edges_of (rule_adds rules)) D ls \<Longrightarrow> D \<subseteq> re_rule_id ` set results \<Longrightarrow>
    \<forall>c\<in>set calls. parents_present rules c"
proof (induction ls arbitrary: results out calls D)
  case (Cons l ls)
  let ?call = "make_call rules ctx l results"
  have act: "call_ids ?call = l" "set (rc_active ?call) \<subseteq> set rules"
    using call_active [of l rules ctx results] Cons.prems(2) by simp_all
  have here: "parents_present rules ?call"
    unfolding parents_present_def
  proof (intro ballI allI impI)
    fix r q assume r: "r \<in> set (rc_active ?call)" and q: "RuleRuleParent q \<in> set (ru_parents r)" "q \<in> ru_id ` set rules"
    have "rule_edge rules q (ru_id r)" using act r q by (auto simp: rule_edge_def)
    then have "(q, ru_id r) \<in> set (edges_of (rule_adds rules))"
      by (simp add: rule_graph_edge [symmetric] graph_edge_def)
    moreover have "ru_id r \<in> set (call_ids ?call)" using r by (simp add: call_ids_def)
    then have "ru_id r \<in> set l" by (simp only: act(1))
    ultimately have "q \<in> D" using Cons.prems(3) by fastforce
    then obtain x where "x \<in> set results" "re_rule_id x = q" using Cons.prems(4) by auto
    moreover have "used_by_any q (rc_active ?call)" using r q by (auto simp: used_by_any_def)
    ultimately show "q \<in> re_rule_id ` set (rc_previous ?call)" by (auto simp: make_call_def Let_def)
  qed
  show ?case
  proof (cases "agent ?call")
    case None
    with Cons.prems(1) here show ?thesis by (auto simp: Let_def)
  next
    case (Some raws)
    then obtain calls' where e: "eval_levels rules ctx agent ls (results @ map (to_result rules) raws) = (out, calls')"
        "calls = ?call # calls'"
      using Cons.prems(1) by (auto simp: Let_def split: prod.splits)
    have "set (call_ids ?call) \<subseteq> rr_rule_id ` set raws"
      using ans Some unfolding answers_all_def call_ids_def by (simp add: image_subset_iff)
    then have "set l \<subseteq> rr_rule_id ` set raws" by (simp only: act(1))
    then have "D \<union> set l \<subseteq> re_rule_id ` set (results @ map (to_result rules) raws)"
      using Cons.prems(4) by (auto simp: to_result_def image_image image_Un)
    then have "\<forall>c\<in>set calls'. parents_present rules c"
      using Cons.prems(2,3) by (intro Cons.IH [OF e(1), of "D \<union> set l"]) simp_all
    with e(2) here show ?thesis by simp
  qed
qed simp

lemma schedule_facts:
  assumes "ts_schedule G = Some ls"
  shows "parents_first (edges_of G) {} ls" "distinct (concat ls)" "set (concat ls) = set (nodes_of G)"
proof -
  from assms obtain st where st: "ts_prepare G = Some st" "ts_levels (length (nodes_of G)) (edges_of G) st = Some ls"
    by (auto simp: ts_schedule_def split: option.splits)
  with prepare_levels [OF st(1) order_refl]
  show "parents_first (edges_of G) {} ls" "distinct (concat ls)" "set (concat ls) = set (nodes_of G)" by auto
qed

lemma rule_nodes: "set (nodes_of (rule_adds rules)) = ru_id ` set rules"
proof -
  have "set (concat (map (\<lambda>p. case p of RuleRuleParent q \<Rightarrow> if q \<in> ids then [q] else [] | _ \<Rightarrow> []) ps)) \<subseteq> ids" for ids ps
    by (induction ps) (auto split: rule_parent.split)
  then show ?thesis by (fastforce simp: nodes_of_iff rule_adds_def)
qed

section \<open>Properties\<close>

text \<open>C12: every rule is evaluated exactly once, after its parents, and evaluation ends. On any rule
  set without a cycle the engine makes finitely many calls and never reports a cycle; the active
  rules of the calls are pairwise disjoint; unless the agent raises, together they are exactly the
  declared rules, and every parent of an active rule was active in an earlier call. With an agent
  that answers each rule it is given, the results of all parents are in the call's context.\<close>

theorem rules_once_in_order:
  assumes "\<not> (\<exists>a. (rule_edge rules)\<^sup>+\<^sup>+ a a)"
  shows "\<exists>out calls. evaluate_rules rules ctx agent = Some (out, calls) \<and> out \<noteq> CycleRaised
    \<and> distinct (concat (map call_ids calls))
    \<and> set (concat (map call_ids calls)) \<subseteq> ru_id ` set rules
    \<and> (out \<noteq> AgentRaised \<longrightarrow> set (concat (map call_ids calls)) = ru_id ` set rules)
    \<and> (\<forall>before c later q n. calls = before @ c # later \<longrightarrow> n \<in> set (call_ids c) \<longrightarrow> rule_edge rules q n \<longrightarrow>
        q \<in> set (concat (map call_ids before)))
    \<and> (answers_all agent \<longrightarrow> (\<forall>c\<in>set calls. parents_present rules c))"
proof (cases "rules = []")
  case True
  then show ?thesis by (simp add: evaluate_rules_def)
next
  case False
  have "\<not> has_cycle (rule_adds rules)"
    using assms topo.cyclic_law [of "rule_adds rules"] by (simp add: rule_graph_edge)
  then obtain ls where ls: "ts_schedule (rule_adds rules) = Some ls"
    using topo.schedule_law by blast
  note sf = schedule_facts [OF ls]
  obtain out calls where e: "eval_levels rules ctx agent ls [] = (out, calls)" by force
  have sub: "\<forall>l\<in>set ls. set l \<subseteq> ru_id ` set rules" using sf(3) rule_nodes by fastforce
  note c = eval_levels_calls [OF e sub]
  from c obtain k where k: "map call_ids calls = take k ls" by blast
  have dist: "distinct (concat (take k ls))"
    using sf(2) append_take_drop_id [of k ls] by (metis concat_append distinct_append)
  have all: "set (concat (map call_ids calls)) = ru_id ` set rules" if "out \<noteq> AgentRaised"
    using c that sf(3) rule_nodes by simp
  have order: "q \<in> set (concat (map call_ids before))"
    if "calls = before @ d # later" "n \<in> set (call_ids d)" "rule_edge rules q n" for before d later q n
  proof -
    let ?E = "edges_of (rule_adds rules)" and ?bs = "map call_ids before" and ?ys = "map call_ids later @ drop k ls"
    have "ls = map call_ids before @ call_ids d # (map call_ids later @ drop k ls)"
      using arg_cong [OF k, of "\<lambda>x. x @ drop k ls"] that(1) by simp
    with sf(1) have "parents_first ?E {} (?bs @ call_ids d # ?ys)" by simp
    moreover have "(q, n) \<in> set (edges_of (rule_adds rules))"
      using that(3) by (simp add: rule_graph_edge [symmetric] graph_edge_def)
    ultimately show ?thesis using parents_first_split [of ?E "{}" ?bs "call_ids d" ?ys n q] that(2) by simp
  qed
  have "set (concat (map call_ids calls)) \<subseteq> ru_id ` set rules"
    using k sub by (auto dest!: in_set_takeD)
  moreover have "\<forall>c\<in>set calls. parents_present rules c" if "answers_all agent"
    using eval_levels_parents [OF that e sub sf(1)] by simp
  moreover have "evaluate_rules rules ctx agent = Some (out, calls)"
    using evaluate_by_schedule [OF False, of ctx agent] ls e by simp
  moreover have "distinct (concat (map call_ids calls))" using dist k by simp
  moreover have "\<forall>before c later q n. calls = before @ c # later \<longrightarrow> n \<in> set (call_ids c) \<longrightarrow> rule_edge rules q n \<longrightarrow>
      q \<in> set (concat (map call_ids before))" by (intro allI impI) (rule order)
  ultimately show ?thesis using c all by (intro exI [of _ out] exI [of _ calls] conjI impI) simp_all
qed

definition two_rules :: "rule_spec list" where
  "two_rules = [\<lparr>ru_id = ''B'', ru_predicate = ''b'', ru_parents = [RuleRuleParent ''A''], ru_output = \<lparr>ro_type = ''boolean'', ro_valid_outputs = None\<rparr>\<rparr>,
    \<lparr>ru_id = ''A'', ru_predicate = ''a'', ru_parents = [], ru_output = \<lparr>ro_type = ''boolean'', ro_valid_outputs = None\<rparr>\<rparr>]"

theorem rules_once_in_order_witness:
  "\<exists>out calls. evaluate_rules two_rules (\<lambda>_. []) (\<lambda>_. Some []) = Some (out, calls) \<and> out \<noteq> CycleRaised
    \<and> distinct (concat (map call_ids calls)) \<and> set (concat (map call_ids calls)) \<subseteq> {''A'', ''B''}"
proof -
  have edge: "rule_edge two_rules a b \<Longrightarrow> a = ''A'' \<and> b = ''B''" for a b
    by (auto simp: rule_edge_def two_rules_def)
  have "(rule_edge two_rules)\<^sup>+\<^sup>+ a b \<Longrightarrow> a = ''A'' \<and> b = ''B''" for a b
    by (induction rule: tranclp_induct) (auto dest: edge)
  then have "\<not> (\<exists>a. (rule_edge two_rules)\<^sup>+\<^sup>+ a a)" by force
  moreover have "ru_id ` set two_rules = {''A'', ''B''}" by (auto simp: two_rules_def)
  ultimately show ?thesis
    using rules_once_in_order [of two_rules "\<lambda>_. []" "\<lambda>_. Some []"] by metis
qed

end
