(* ===== verification/EntityResolution.thy ===== *)
theory EntityResolution
  imports Validators "HOL-Library.List_Lexorder" "HOL-Library.Product_Lexorder" "HOL-Library.Multiset"
begin

text \<open>
  \<open>EntityResolutionTransformer\<close> (\<open>core/services/transformations/entity_resolution.py\<close>): rows of an
  array are clustered, first by a strong key, then by the tokens of a name, and every cluster becomes
  one canonical row. Accent folding is the identity on the ASCII text of the model.
\<close>

section \<open>Rows and keys\<close>

record er_config =
  er_target :: string
  er_output :: "string option"
  er_match_by :: "string list"
  er_min_shared :: nat

definition scalar_text :: "pylib \<Rightarrow> xvalue \<Rightarrow> string option" where
  "scalar_text L v = (case v of VNone \<Rightarrow> None | VList _ \<Rightarrow> None | _ \<Rightarrow> Some (py_strip (py_str L v)))"

text \<open>\<open>_row_value\<close>: the first sub-field of the name with a scalar value.\<close>

fun row_value_in :: "pylib \<Rightarrow> string \<Rightarrow> xfield list \<Rightarrow> string" where
  "row_value_in L n [] = []"
| "row_value_in L n (s # ss) = (if xf_name s = n then
      (case scalar_text L (xf_value s) of Some t \<Rightarrow> t | None \<Rightarrow> row_value_in L n ss) else row_value_in L n ss)"

definition row_value :: "pylib \<Rightarrow> xfield \<Rightarrow> string \<Rightarrow> string" where
  "row_value L row n = row_value_in L n (rows_of (xf_value row))"

definition normalise_key :: "string \<Rightarrow> string" where
  "normalise_key v = filter is_alnum (py_upper v)"

definition normalise_text :: "string \<Rightarrow> string" where
  "normalise_text v = py_join '' '' (py_split (py_lower v))"

definition name_tokens :: "string \<Rightarrow> string set" where
  "name_tokens v = set (py_split (normalise_text v))"

definition name_variant_match :: "string \<Rightarrow> string \<Rightarrow> nat \<Rightarrow> bool" where
  "name_variant_match a b min_shared = (let ta = name_tokens a; tb = name_tokens b in
     if ta = {} \<or> tb = {} then False
     else if \<not> (ta \<subseteq> tb \<or> tb \<subseteq> ta) then False
     else min_shared \<le> min (card ta) (card tb))"

definition strong_key :: "string list \<Rightarrow> string" where
  "strong_key match_by = (case match_by of [] \<Rightarrow> [] | k # _ \<Rightarrow> k)"

definition select_name_field :: "string list \<Rightarrow> string \<Rightarrow> string" where
  "select_name_field match_by key = (case List.find (\<lambda>f. f \<noteq> key) match_by of Some f \<Rightarrow> f | None \<Rightarrow> [])"

section \<open>Clustering\<close>

type_synonym clusters = "xfield list list \<times> (string \<times> nat) list"

definition key_value :: "pylib \<Rightarrow> string \<Rightarrow> xfield \<Rightarrow> string" where
  "key_value L strong row = (if strong \<noteq> [] then row_value L row strong else [])"

definition compatible :: "pylib \<Rightarrow> string \<Rightarrow> string \<Rightarrow> nat \<Rightarrow> xfield \<Rightarrow> xfield list \<Rightarrow> bool" where
  "compatible L strong name m row cluster = (let rep = hd cluster in
     \<not> (strong \<noteq> [] \<and> row_value L rep strong \<noteq> [])
     \<and> name_variant_match (row_value L row name) (row_value L rep name) m)"

text \<open>The row is appended to the first cluster that satisfies the condition.\<close>

fun add_to_first :: "('a list \<Rightarrow> bool) \<Rightarrow> 'a \<Rightarrow> 'a list list \<Rightarrow> 'a list list option" where
  "add_to_first P x [] = None"
| "add_to_first P x (c # cs) = (if P c then Some ((c @ [x]) # cs) else map_option ((#) c) (add_to_first P x cs))"

definition place_row :: "pylib \<Rightarrow> string \<Rightarrow> string \<Rightarrow> nat \<Rightarrow> clusters \<Rightarrow> xfield \<Rightarrow> clusters" where
  "place_row L strong name m st row = (case st of (cs, keys) \<Rightarrow>
     if key_value L strong row \<noteq> [] then
       (let key = normalise_key (key_value L strong row) in
        case map_of keys key of
          Some i \<Rightarrow> (cs[i := cs ! i @ [row]], keys)
        | None \<Rightarrow> (cs @ [[row]], keys @ [(key, length cs)]))
     else if name \<noteq> [] then
       (case add_to_first (compatible L strong name m row) row cs of
          Some cs' \<Rightarrow> (cs', keys)
        | None \<Rightarrow> (cs @ [[row]], keys))
     else (cs @ [[row]], keys))"

definition cluster_rows :: "pylib \<Rightarrow> er_config \<Rightarrow> xfield list \<Rightarrow> xfield list list" where
  "cluster_rows L t rows = (let strong = strong_key (er_match_by t); name = select_name_field (er_match_by t) strong in
     fst (foldl (place_row L strong name (er_min_shared t)) ([], []) rows))"

section \<open>Canonical rows\<close>

definition score :: "pylib \<Rightarrow> xfield \<Rightarrow> nat \<times> nat \<times> string" where
  "score L s = (case xf_value s of
     VStr t \<Rightarrow> (1, length (py_strip t), t)
   | VNone \<Rightarrow> (0, 0, [])
   | VList fs \<Rightarrow> (1, length fs, py_str L (xf_value s))
   | v \<Rightarrow> (1, 1, py_str L v))"

text \<open>\<open>max(candidates, key=score)\<close>: the first of the best.\<close>

definition max_by :: "('a \<Rightarrow> 'k :: linorder) \<Rightarrow> 'a \<Rightarrow> 'a list \<Rightarrow> 'a" where
  "max_by f x xs = foldl (\<lambda>b y. if f b < f y then y else b) x xs"

definition names_in_order :: "xfield list \<Rightarrow> string list" where
  "names_in_order subs = rev (remdups (rev (map xf_name subs)))"

definition pick_canonical :: "pylib \<Rightarrow> xfield list \<Rightarrow> string \<Rightarrow> xfield list" where
  "pick_canonical L subs n = (case filter (\<lambda>s. xf_name s = n) subs of [] \<Rightarrow> [] | c # cs \<Rightarrow> [max_by (score L) c cs])"

definition merge_pages :: "xfield list \<Rightarrow> int list" where
  "merge_pages cluster = sort (remdups (concat (map (\<lambda>r. xm_pages (xf_meta r)) cluster)))"

definition canonicalise :: "pylib \<Rightarrow> xfield list \<Rightarrow> xfield" where
  "canonicalise L cluster = (case cluster of
     [] \<Rightarrow> XField (plain_meta ''row'') VNone
   | base # rest \<Rightarrow> if \<not> is_rows (xf_value base) then base
      else (let subs = concat (map (\<lambda>r. rows_of (xf_value r)) cluster) in
        XField ((plain_meta (xf_name base))\<lparr>xm_pages := merge_pages cluster,
                  xm_confidence := foldl max (xm_confidence (xf_meta base)) (map (\<lambda>r. xm_confidence (xf_meta r)) rest),
                  xm_bbox := xm_bbox (xf_meta base)\<rparr>)
          (VList (concat (map (pick_canonical L subs) (names_in_order subs))))))"

definition dedupe_rows :: "pylib \<Rightarrow> er_config \<Rightarrow> xfield list \<Rightarrow> xfield list" where
  "dedupe_rows L t rows = map (canonicalise L) (cluster_rows L t rows)"

section \<open>Applying it to the groups of a task\<close>

text \<open>Shared by the two transformers: the first group of a name, its first field that holds a list, and
  where the produced array goes.\<close>

definition first_index :: "('a \<Rightarrow> bool) \<Rightarrow> 'a list \<Rightarrow> nat option" where
  "first_index P xs = (if list_ex P xs then Some (length (takeWhile (\<lambda>x. \<not> P x) xs)) else None)"

definition target_array :: "string \<Rightarrow> xgroup list \<Rightarrow> (nat \<times> nat) option" where
  "target_array n groups = (case first_index (\<lambda>g. xg_name g = n) groups of
     None \<Rightarrow> None
   | Some i \<Rightarrow> map_option (Pair i) (first_index (\<lambda>f. is_rows (xf_value f)) (xg_fields (groups ! i))))"

definition new_array :: "xfield \<Rightarrow> xfield list \<Rightarrow> xfield" where
  "new_array old rows = XField ((plain_meta (xf_name old))\<lparr>xm_pages := xm_pages (xf_meta old),
     xm_confidence := xm_confidence (xf_meta old), xm_bbox := xm_bbox (xf_meta old)\<rparr>) (VList rows)"

definition put_array :: "string option \<Rightarrow> nat \<Rightarrow> nat \<Rightarrow> xfield \<Rightarrow> xgroup list \<Rightarrow> xgroup \<times> xgroup list" where
  "put_array out i j arr groups = (if out \<noteq> None \<and> out \<noteq> Some []
     then (let g = \<lparr>xg_name = the out, xg_fields = [arr]\<rparr> in (g, groups @ [g]))
     else (let g = (groups ! i)\<lparr>xg_fields := (xg_fields (groups ! i))[j := arr]\<rparr> in (g, groups[i := g])))"

text \<open>\<open>apply\<close>: the returned group, if any, and the groups after the call.\<close>

definition er_apply :: "pylib \<Rightarrow> er_config \<Rightarrow> xgroup list \<Rightarrow> xgroup option \<times> xgroup list" where
  "er_apply L t groups = (case target_array (er_target t) groups of
     None \<Rightarrow> (None, groups)
   | Some (i, j) \<Rightarrow> (let arr = xg_fields (groups ! i) ! j; rows = rows_of (xf_value arr) in
       if rows = [] then (None, groups)
       else (case put_array (er_output t) i j (new_array arr (dedupe_rows L t rows)) groups of (g, gs) \<Rightarrow> (Some g, gs))))"

section \<open>The clusters are a partition\<close>

definition row_key :: "pylib \<Rightarrow> string \<Rightarrow> xfield \<Rightarrow> string option" where
  "row_key L strong r = (if key_value L strong r = [] then None else Some (normalise_key (key_value L strong r)))"

definition variant_of :: "pylib \<Rightarrow> string \<Rightarrow> nat \<Rightarrow> xfield \<Rightarrow> xfield \<Rightarrow> bool" where
  "variant_of L name m r rep \<longleftrightarrow> name_variant_match (row_value L r name) (row_value L rep name) m"

lemma compatible_iff: "compatible L strong name m row c \<longleftrightarrow> row_key L strong (hd c) = None \<and> variant_of L name m row (hd c)"
  by (simp add: compatible_def Let_def row_key_def key_value_def variant_of_def)

definition cluster_ok :: "pylib \<Rightarrow> string \<Rightarrow> string \<Rightarrow> nat \<Rightarrow> xfield list \<Rightarrow> bool" where
  "cluster_ok L strong name m c \<longleftrightarrow> c \<noteq> [] \<and> (\<forall>r\<in>set c. row_key L strong r = row_key L strong (hd c))
     \<and> (row_key L strong (hd c) = None \<longrightarrow> (\<forall>r\<in>set (tl c). variant_of L name m r (hd c)))"

definition clusters_inv :: "pylib \<Rightarrow> string \<Rightarrow> string \<Rightarrow> nat \<Rightarrow> clusters \<Rightarrow> bool" where
  "clusters_inv L strong name m st \<longleftrightarrow> (case st of (cs, keys) \<Rightarrow>
     (\<forall>i<length cs. cluster_ok L strong name m (cs ! i) \<and> (\<forall>k. row_key L strong (hd (cs ! i)) = Some k \<longrightarrow> map_of keys k = Some i))
     \<and> (\<forall>k i. map_of keys k = Some i \<longrightarrow> i < length cs \<and> row_key L strong (hd (cs ! i)) = Some k))"

lemma cluster_ok_single [simp]: "cluster_ok L strong name m [r]"
  by (simp add: cluster_ok_def)

lemma cluster_ok_ne: "cluster_ok L strong name m c \<Longrightarrow> c \<noteq> []"
  by (simp add: cluster_ok_def)

lemma cluster_ok_snoc:
  assumes ok: "cluster_ok L strong name m c" and "row_key L strong r = row_key L strong (hd c)"
    "row_key L strong r = None \<Longrightarrow> variant_of L name m r (hd c)"
  shows "cluster_ok L strong name m (c @ [r])"
proof -
  obtain x xs where c: "c = x # xs" using cluster_ok_ne [OF ok] by (cases c) simp_all
  from ok c have "\<forall>q\<in>set xs. row_key L strong q = row_key L strong x"
    "row_key L strong x = None \<longrightarrow> (\<forall>q\<in>set xs. variant_of L name m q x)"
    unfolding cluster_ok_def by simp_all
  with assms(2,3) c show ?thesis unfolding cluster_ok_def
    by (simp only: list.sel append_Cons set_append list.set Un_iff insert_iff empty_iff) blast
qed

lemma invD_ok: "clusters_inv L strong name m (cs, keys) \<Longrightarrow> i < length cs \<Longrightarrow> cluster_ok L strong name m (cs ! i)"
  unfolding clusters_inv_def prod.case by blast

lemma invD_key: "clusters_inv L strong name m (cs, keys) \<Longrightarrow> i < length cs \<Longrightarrow> row_key L strong (hd (cs ! i)) = Some k \<Longrightarrow> map_of keys k = Some i"
  unfolding clusters_inv_def prod.case by blast

lemma invD_idx: "clusters_inv L strong name m (cs, keys) \<Longrightarrow> map_of keys k = Some i \<Longrightarrow> i < length cs \<and> row_key L strong (hd (cs ! i)) = Some k"
  unfolding clusters_inv_def prod.case by blast

lemma invI:
  assumes "\<And>i. i < length cs \<Longrightarrow> cluster_ok L strong name m (cs ! i)"
    "\<And>i k. i < length cs \<Longrightarrow> row_key L strong (hd (cs ! i)) = Some k \<Longrightarrow> map_of keys k = Some i"
    "\<And>k i. map_of keys k = Some i \<Longrightarrow> i < length cs \<and> row_key L strong (hd (cs ! i)) = Some k"
  shows "clusters_inv L strong name m (cs, keys)"
  unfolding clusters_inv_def prod.case using assms by blast

lemma add_to_first_Some:
  "add_to_first P x cs = Some cs' \<Longrightarrow> \<exists>i<length cs. P (cs ! i) \<and> cs' = cs[i := cs ! i @ [x]]"
proof (induction cs arbitrary: cs')
  case (Cons c cs)
  show ?case
  proof (cases "P c")
    case True
    with Cons.prems show ?thesis by (intro exI [of _ 0]) simp
  next
    case False
    with Cons.prems obtain ds where ds: "add_to_first P x cs = Some ds" "cs' = c # ds" by auto
    from Cons.IH [OF ds(1)] obtain i where "i < length cs \<and> P (cs ! i) \<and> ds = cs[i := cs ! i @ [x]]" by (elim exE)
    with ds(2) show ?thesis by (intro exI [of _ "Suc i"]) simp
  qed
qed simp

lemma concat_grow: "i < length cs \<Longrightarrow> mset (concat (cs[i := cs ! i @ [x]])) = add_mset x (mset (concat cs))"
  by (induction cs arbitrary: i) (auto split: nat.split)

text \<open>The two ways a row is placed: into an existing cluster of its kind, or into a new one.\<close>

lemma inv_grow:
  assumes "clusters_inv L strong name m (cs, keys)" "i < length cs" "row_key L strong r = row_key L strong (hd (cs ! i))"
    "row_key L strong r = None \<Longrightarrow> variant_of L name m r (hd (cs ! i))"
  shows "clusters_inv L strong name m (cs[i := cs ! i @ [r]], keys)"
proof -
  note ok = invD_ok [OF assms(1,2)]
  from cluster_ok_ne [OF ok] have hd: "hd (cs[i := cs ! i @ [r]] ! j) = hd (cs ! j)" for j
    by (cases "j = i") (simp_all add: assms(2))
  show ?thesis
  proof (rule invI)
    fix j assume "j < length (cs[i := cs ! i @ [r]])"
    then show "cluster_ok L strong name m (cs[i := cs ! i @ [r]] ! j)"
      using cluster_ok_snoc [OF ok assms(3,4)] invD_ok [OF assms(1), of j] by (cases "j = i") simp_all
  next
    fix j k assume "j < length (cs[i := cs ! i @ [r]])" "row_key L strong (hd (cs[i := cs ! i @ [r]] ! j)) = Some k"
    then show "map_of keys k = Some j" using invD_key [OF assms(1), of j k] hd [of j] by simp
  next
    fix k j assume "map_of keys k = Some j"
    then show "j < length (cs[i := cs ! i @ [r]]) \<and> row_key L strong (hd (cs[i := cs ! i @ [r]] ! j)) = Some k"
      using invD_idx [OF assms(1), of k j] hd [of j] by simp
  qed
qed

lemma inv_new:
  assumes "clusters_inv L strong name m (cs, keys)"
    "row_key L strong r = None \<and> keys' = keys \<or> (\<exists>k. row_key L strong r = Some k \<and> map_of keys k = None \<and> keys' = keys @ [(k, length cs)])"
  shows "clusters_inv L strong name m (cs @ [[r]], keys')"
proof -
  have old: "map_of keys' k = map_of keys k" if "map_of keys k \<noteq> None" for k
    using assms(2) that by (auto simp: map_add_def)
  have new: "map_of keys' k = Some (length cs)" if "row_key L strong r = Some k" for k
    using assms(2) that by (auto simp: map_add_def)
  have only: "map_of keys' k = Some i \<Longrightarrow> map_of keys k = Some i \<or> (i = length cs \<and> row_key L strong r = Some k)" for k i
    using assms(2) by (auto simp: map_add_def split: option.splits if_splits)
  show ?thesis
  proof (rule invI)
    fix i assume i: "i < length (cs @ [[r]])"
    show "cluster_ok L strong name m ((cs @ [[r]]) ! i)"
      using i invD_ok [OF assms(1), of i] by (cases "i < length cs") (simp_all add: nth_append less_Suc_eq)
  next
    fix i k assume i: "i < length (cs @ [[r]])" and k: "row_key L strong (hd ((cs @ [[r]]) ! i)) = Some k"
    show "map_of keys' k = Some i"
    proof (cases "i < length cs")
      case True
      with k invD_key [OF assms(1), of i k] old [of k] show ?thesis by (simp add: nth_append)
    next
      case False
      with i k new [of k] show ?thesis by (simp add: less_Suc_eq)
    qed
  next
    fix k i assume k: "map_of keys' k = Some i"
    from only [OF k] show "i < length (cs @ [[r]]) \<and> row_key L strong (hd ((cs @ [[r]]) ! i)) = Some k"
    proof
      assume "map_of keys k = Some i"
      with invD_idx [OF assms(1), of k i] show ?thesis by (simp add: nth_append)
    qed simp
  qed
qed

lemma place_row_inv:
  assumes "clusters_inv L strong name m st"
  shows "clusters_inv L strong name m (place_row L strong name m st r)
    \<and> mset (concat (fst (place_row L strong name m st r))) = add_mset r (mset (concat (fst st)))"
proof (cases st)
  case (Pair cs keys)
  let ?key = "normalise_key (key_value L strong r)"
  consider (known) i where "key_value L strong r \<noteq> []" "map_of keys ?key = Some i"
    | (fresh) "key_value L strong r \<noteq> []" "map_of keys ?key = None"
    | (variant) cs' where "key_value L strong r = []" "name \<noteq> []" "add_to_first (compatible L strong name m r) r cs = Some cs'"
    | (single) "key_value L strong r = []" "name \<noteq> []" "add_to_first (compatible L strong name m r) r cs = None"
    | (unnamed) "key_value L strong r = []" "name = []"
    by (cases "map_of keys ?key"; cases "add_to_first (compatible L strong name m r) r cs"; cases "key_value L strong r = []"; cases "name = []") simp_all
  then show ?thesis
  proof cases
    case known
    then have key: "row_key L strong r = Some ?key" by (simp add: row_key_def)
    have "i < length cs \<and> row_key L strong (hd (cs ! i)) = Some ?key"
      using invD_idx [of L strong name m cs keys ?key i] assms known(2) Pair by simp
    with known assms Pair key show ?thesis
      using inv_grow [of L strong name m cs keys i r] concat_grow [of i cs r] by (simp add: place_row_def)
  next
    case fresh
    then have "row_key L strong r = Some ?key" by (simp add: row_key_def)
    with fresh assms Pair show ?thesis
      using inv_new [of L strong name m cs keys r "keys @ [(?key, length cs)]"] by (simp add: place_row_def)
  next
    case variant
    then have key: "row_key L strong r = None" by (simp add: row_key_def)
    from add_to_first_Some [OF variant(3)] obtain i where
      i: "i < length cs" "compatible L strong name m r (cs ! i)" "cs' = cs[i := cs ! i @ [r]]" by (elim exE conjE)
    with variant assms Pair key show ?thesis
      using inv_grow [of L strong name m cs keys i r] concat_grow [of i cs r] by (simp add: place_row_def compatible_iff)
  next
    case single
    then have "row_key L strong r = None" by (simp add: row_key_def)
    with single assms Pair show ?thesis using inv_new [of L strong name m cs keys r keys] by (simp add: place_row_def)
  next
    case unnamed
    then have "row_key L strong r = None" by (simp add: row_key_def)
    with unnamed assms Pair show ?thesis using inv_new [of L strong name m cs keys r keys] by (simp add: place_row_def)
  qed
qed

lemma place_rows_inv:
  assumes "clusters_inv L strong name m st"
  shows "clusters_inv L strong name m (foldl (place_row L strong name m) st rows)
    \<and> mset (concat (fst (foldl (place_row L strong name m) st rows))) = mset rows + mset (concat (fst st))"
  using assms
proof (induction rows arbitrary: st)
  case (Cons r rows)
  with place_row_inv [OF Cons.prems, of r] Cons.IH [of "place_row L strong name m st r"] show ?case by simp
qed simp

text \<open>C15: entity resolution partitions the rows. Every row ends in exactly one cluster and no cluster is
  empty; all rows of a cluster agree on the normalised strong key, or all lack one; two clusters
  never share a key; and a row without a key only joins a cluster whose first row has none and is a
  name variant of it.\<close>

theorem clusters_partition:
  fixes L t rows
  defines "strong \<equiv> strong_key (er_match_by t)" and "cs \<equiv> cluster_rows L t rows"
  shows "mset (concat cs) = mset rows \<and> [] \<notin> set cs
    \<and> (\<forall>c\<in>set cs. \<forall>r\<in>set c. row_key L strong r = row_key L strong (hd c))
    \<and> (\<forall>i<length cs. \<forall>j<length cs. i \<noteq> j \<longrightarrow> row_key L strong (hd (cs ! i)) \<noteq> None
        \<longrightarrow> row_key L strong (hd (cs ! i)) \<noteq> row_key L strong (hd (cs ! j)))
    \<and> (\<forall>c\<in>set cs. row_key L strong (hd c) = None
        \<longrightarrow> (\<forall>r\<in>set (tl c). variant_of L (select_name_field (er_match_by t) strong) (er_min_shared t) r (hd c)))"
proof -
  let ?name = "select_name_field (er_match_by t) strong" and ?m = "er_min_shared t"
  let ?st = "foldl (place_row L strong ?name ?m) ([], []) rows"
  have inv: "clusters_inv L strong ?name ?m ?st" and ms: "mset (concat (fst ?st)) = mset rows"
    using place_rows_inv [of L strong ?name ?m "([], [])" rows] by (simp_all add: clusters_inv_def)
  have cs: "cs = fst ?st" by (simp add: cs_def cluster_rows_def strong_def Let_def)
  obtain keys where inv': "clusters_inv L strong ?name ?m (cs, keys)" using inv cs by (cases ?st) simp
  have ok: "cluster_ok L strong ?name ?m c" if "c \<in> set cs" for c
    using invD_ok [OF inv'] that by (auto simp: in_set_conv_nth)
  have uniq: "i = j" if "i < length cs" "j < length cs" "row_key L strong (hd (cs ! i)) = Some k" "row_key L strong (hd (cs ! j)) = Some k" for i j k
    using invD_key [OF inv' that(1,3)] invD_key [OF inv' that(2,4)] by simp
  show ?thesis
  proof (intro conjI ballI allI impI)
    show "mset (concat cs) = mset rows" using ms cs by simp
    show "[] \<notin> set cs" using ok [of "[]"] by (auto simp: cluster_ok_def)
  next
    fix c r assume "c \<in> set cs" "r \<in> set c"
    then show "row_key L strong r = row_key L strong (hd c)" using ok [of c] unfolding cluster_ok_def by blast
  next
    fix i j assume "i < length cs" "j < length cs" "i \<noteq> j" "row_key L strong (hd (cs ! i)) \<noteq> None"
    then show "row_key L strong (hd (cs ! i)) \<noteq> row_key L strong (hd (cs ! j))"
      using uniq [of i j] by (auto simp: option.expand)
  next
    fix c r assume "c \<in> set cs" "row_key L strong (hd c) = None" "r \<in> set (tl c)"
    then show "variant_of L ?name ?m r (hd c)" using ok [of c] unfolding cluster_ok_def by blast
  qed
qed

text \<open>Two tax ids written differently, and two rows with a name only.\<close>

definition person :: "string \<Rightarrow> string \<Rightarrow> xfield" where
  "person dni name = XField (plain_meta ''row'') (VList
     ((if dni = [] then [] else [XField (plain_meta ''dni'') (VStr dni)]) @ [XField (plain_meta ''name'') (VStr name)]))"

definition dni_config :: er_config where
  "dni_config = \<lparr>er_target = ''people'', er_output = None, er_match_by = [''dni'', ''name''], er_min_shared = 2\<rparr>"

definition people :: "xfield list" where
  "people = [person ''1234-Z'' ''Ana Gil'', person [] ''Juan Perez Garcia'', person ''1.234.z'' ''Ana'', person [] ''JUAN perez'']"

lemma people_clusters: "cluster_rows no_pylib dni_config people = [[people ! 0, people ! 2], [people ! 1, people ! 3]]"
  by code_simp

lemma clusters_partition_witness:
  "mset (concat (cluster_rows no_pylib dni_config people)) = mset people \<and> length (cluster_rows no_pylib dni_config people) = 2"
  using clusters_partition [of no_pylib dni_config people] people_clusters by simp

section \<open>The canonical row\<close>

lemma max_by_best: "max_by f x xs \<in> set (x # xs) \<and> (\<forall>y\<in>set (x # xs). f y \<le> f (max_by f x xs))"
proof (induction xs rule: rev_induct)
  case (snoc y ys)
  have step: "max_by f x (ys @ [y]) = (if f (max_by f x ys) < f y then y else max_by f x ys)"
    by (simp add: max_by_def)
  show ?case
  proof (cases "f (max_by f x ys) < f y")
    case True
    with snoc have "\<forall>z\<in>set (x # ys). f z \<le> f y" by (auto intro: order_trans less_imp_le)
    with True show ?thesis by (simp add: step)
  next
    case False
    with snoc show ?thesis by (auto simp: step not_less)
  qed
qed (simp add: max_by_def)

lemma pick_canonical_best:
  assumes "n \<in> set (map xf_name subs)"
  shows "\<exists>b. pick_canonical L subs n = [b] \<and> b \<in> set subs \<and> xf_name b = n
    \<and> (\<forall>s\<in>set subs. xf_name s = n \<longrightarrow> score L s \<le> score L b)"
proof -
  obtain c cs where f: "filter (\<lambda>s. xf_name s = n) subs = c # cs"
    using assms by (cases "filter (\<lambda>s. xf_name s = n) subs") (auto simp: filter_empty_conv)
  have all: "set (c # cs) = {s \<in> set subs. xf_name s = n}" unfolding f [symmetric] by auto
  show ?thesis
    using max_by_best [of "score L" c cs] unfolding all by (intro exI [of _ "max_by (score L) c cs"]) (simp add: pick_canonical_def f)
qed

lemma set_names_in_order: "set (names_in_order subs) = set (map xf_name subs)"
  by (simp add: names_in_order_def)

lemma distinct_names_in_order: "distinct (names_in_order subs)"
  by (simp add: names_in_order_def)

definition cluster_subs :: "xfield list \<Rightarrow> xfield list" where
  "cluster_subs cluster = concat (map (\<lambda>r. rows_of (xf_value r)) cluster)"

lemma pick_each:
  assumes "set ns \<subseteq> set (map xf_name subs)"
  shows "map xf_name (concat (map (pick_canonical L subs) ns)) = ns
    \<and> (\<forall>b\<in>set (concat (map (pick_canonical L subs) ns)). b \<in> set subs \<and> (\<forall>s\<in>set subs. xf_name s = xf_name b \<longrightarrow> score L s \<le> score L b))"
  using assms
proof (induction ns)
  case (Cons n ns)
  with pick_canonical_best [of n subs L] obtain b where
    "pick_canonical L subs n = [b]" "b \<in> set subs" "xf_name b = n" "\<forall>s\<in>set subs. xf_name s = n \<longrightarrow> score L s \<le> score L b" by auto
  with Cons show ?case by simp
qed simp

text \<open>The canonical row of a cluster. It carries every sub-field name of the cluster once, in the order of
  first appearance; each chosen sub-field is one the cluster has, with a score no candidate of the
  name beats; its confidence is the best of the cluster and its pages are their sorted union. What
  it does not carry is where it came from: \<open>source\<close> is always empty, also when every row of the
  cluster had one.\<close>

theorem canonical_row:
  assumes "cluster \<noteq> []" "is_rows (xf_value (hd cluster))"
  shows "map xf_name (rows_of (xf_value (canonicalise L cluster))) = names_in_order (cluster_subs cluster)
    \<and> (\<forall>b\<in>set (rows_of (xf_value (canonicalise L cluster))). b \<in> set (cluster_subs cluster)
         \<and> (\<forall>s\<in>set (cluster_subs cluster). xf_name s = xf_name b \<longrightarrow> score L s \<le> score L b))
    \<and> (\<forall>r\<in>set cluster. xm_confidence (xf_meta r) \<le> xm_confidence (xf_meta (canonicalise L cluster)))
    \<and> set (xm_pages (xf_meta (canonicalise L cluster))) = (\<Union>r\<in>set cluster. set (xm_pages (xf_meta r)))
    \<and> sorted (xm_pages (xf_meta (canonicalise L cluster))) \<and> distinct (xm_pages (xf_meta (canonicalise L cluster)))
    \<and> xm_source (xf_meta (canonicalise L cluster)) = None"
proof -
  obtain base rest where c: "cluster = base # rest" using assms(1) by (cases cluster) simp_all
  let ?subs = "cluster_subs cluster"
  have "canonicalise L cluster = XField ((plain_meta (xf_name base))\<lparr>xm_pages := merge_pages cluster,
      xm_confidence := foldl max (xm_confidence (xf_meta base)) (map (\<lambda>r. xm_confidence (xf_meta r)) rest), xm_bbox := xm_bbox (xf_meta base)\<rparr>)
      (VList (concat (map (pick_canonical L ?subs) (names_in_order ?subs))))"
    using assms(2) by (simp add: c canonicalise_def cluster_subs_def Let_def)
  note can = this
  have best: "\<forall>x\<in>set (a # as). x \<le> foldl max a as" for a and as :: "rat list"
    by (induction as rule: rev_induct) (auto simp: le_max_iff_disj)
  have sets: "set (names_in_order ?subs) \<subseteq> set (map xf_name ?subs)" by (simp add: set_names_in_order)
  have conf: "\<forall>r\<in>set cluster. xm_confidence (xf_meta r)
      \<le> foldl max (xm_confidence (xf_meta base)) (map (\<lambda>r. xm_confidence (xf_meta r)) rest)"
    using best [of "xm_confidence (xf_meta base)" "map (\<lambda>r. xm_confidence (xf_meta r)) rest"] by (simp add: c)
  show ?thesis
    unfolding can xfield.sel rows_of_def xvalue.case
    using pick_each [OF sets, of L] conf by (simp add: merge_pages_def plain_meta_def)
qed

lemma two_people: "[people ! 0, people ! 2] \<noteq> [] \<and> is_rows (xf_value (hd [people ! 0, people ! 2]))"
  by code_simp

lemma canonical_row_witness:
  "canonicalise no_pylib [people ! 0, people ! 2] = person ''1.234.z'' ''Ana Gil'' \<and> sorted (xm_pages (xf_meta (canonicalise no_pylib [people ! 0, people ! 2])))"
proof
  show "canonicalise no_pylib [people ! 0, people ! 2] = person ''1.234.z'' ''Ana Gil''" by code_simp
  show "sorted (xm_pages (xf_meta (canonicalise no_pylib [people ! 0, people ! 2])))"
    using canonical_row [of "[people ! 0, people ! 2]" no_pylib] two_people by blast
qed

lemma same_key_rows:
  assumes "\<forall>r\<in>set rows. key_value L strong r \<noteq> [] \<and> normalise_key (key_value L strong r) = k"
  shows "foldl (place_row L strong name m) ([c], [(k, 0)]) rows = ([c @ rows], [(k, 0)])"
  using assms by (induction rows arbitrary: c) (simp_all add: place_row_def)

text \<open>Rows whose strong keys normalise to the same text become one row, whatever else they hold. The
  check for a usable key looks at the raw value, so the keys \<open>-\<close> and \<open>./.\<close> (nothing but
  punctuation) are usable and equal, and unrelated rows that carry such placeholders are merged.\<close>

theorem same_key_one_cluster:
  assumes "rows \<noteq> []" "\<forall>r\<in>set rows. key_value L (strong_key (er_match_by t)) r \<noteq> []
      \<and> normalise_key (key_value L (strong_key (er_match_by t)) r) = k"
  shows "cluster_rows L t rows = [rows]"
proof -
  obtain r rs where rows: "rows = r # rs" using assms(1) by (cases rows) simp_all
  let ?strong = "strong_key (er_match_by t)" and ?name = "select_name_field (er_match_by t) (strong_key (er_match_by t))"
  have "place_row L ?strong ?name (er_min_shared t) ([], []) r = ([[r]], [(k, 0)])"
    using assms(2) by (simp add: rows place_row_def)
  with same_key_rows [of rs L ?strong k ?name "er_min_shared t" "[r]"] assms(2) rows
  show ?thesis by (simp add: cluster_rows_def Let_def)
qed

lemma same_key_one_cluster_witness:
  "cluster_rows no_pylib dni_config [person ''-'' ''Ana Gil'', person ''./.'' ''Juan Perez''] = [[person ''-'' ''Ana Gil'', person ''./.'' ''Juan Perez'']]"
  by (rule same_key_one_cluster [where k = "[]"]) code_simp+

end
