(* ===== verification/LlmTransform.thy ===== *)
theory LlmTransform
  imports EntityResolution "HOL-Library.Sublist"
begin

text \<open>
  \<open>LlmTransformer\<close> (\<open>core/services/transformations/llm_transformer.py\<close>): what the model is shown of the
  rows of an array, how its answer is turned back into rows with provenance, and the guard that
  drops rows until their shares add up to the declared whole. The answer of the model is an
  argument, and so is pydantic's reading of a non-empty list as nested fields.
\<close>

section \<open>Numbers\<close>

text \<open>\<open>round(x, n)\<close>: half to even.\<close>

definition py_round :: "nat \<Rightarrow> rat \<Rightarrow> rat" where
  "py_round n q = (let x = q * 10 ^ n; lo = \<lfloor>x\<rfloor>; d = x - of_int lo in
     of_int (if d < 1 / 2 then lo else if d > 1 / 2 then lo + 1 else if even lo then lo else lo + 1) / 10 ^ n)"

fun fl_add :: "pyfloat \<Rightarrow> pyfloat \<Rightarrow> pyfloat" where
  "fl_add (Fin a) (Fin b) = Fin (a + b)"
| "fl_add NaN b = NaN"
| "fl_add a NaN = NaN"
| "fl_add PosInf NegInf = NaN"
| "fl_add NegInf PosInf = NaN"
| "fl_add PosInf b = PosInf"
| "fl_add a PosInf = PosInf"
| "fl_add NegInf b = NegInf"
| "fl_add a NegInf = NegInf"

fun fl_round :: "nat \<Rightarrow> pyfloat \<Rightarrow> pyfloat" where
  "fl_round n (Fin q) = Fin (py_round n q)"
| "fl_round n x = x"

definition fl_sum :: "pyfloat list \<Rightarrow> pyfloat" where
  "fl_sum xs = fold (\<lambda>x acc. fl_add acc x) xs (Fin 0)"

lemma fl_add_comm: "fl_add a b = fl_add b a"
  by (cases a; cases b) simp_all

lemma fl_add_assoc: "fl_add (fl_add a b) c = fl_add a (fl_add b c)"
  by (cases a; cases b; cases c) simp_all

lemma fl_add_left_comm: "fl_add a (fl_add b c) = fl_add b (fl_add a c)"
  by (simp add: fl_add_assoc [symmetric] fl_add_comm [of a b])

lemma fl_sum_perm: "mset xs = mset ys \<Longrightarrow> fl_sum xs = fl_sum ys"
  unfolding fl_sum_def fl_add_comm [of "Fin 0"]
  by (rule fun_cong [OF fold_multiset_equiv]) (auto simp: fun_eq_iff fl_add_assoc fl_add_comm fl_add_left_comm)

lemma fold_NaN: "fold (\<lambda>x acc. fl_add acc x) xs NaN = NaN"
  by (induction xs) simp_all

lemma fl_sum_NaN: "NaN \<in> set xs \<Longrightarrow> fl_sum xs = NaN"
proof -
  have "NaN \<in> set xs \<Longrightarrow> fold (\<lambda>x acc. fl_add acc x) xs a = NaN" for a
    by (induction xs arbitrary: a) (auto simp: fold_NaN fl_add_comm [of _ NaN])
  then show "NaN \<in> set xs \<Longrightarrow> fl_sum xs = NaN" by (simp add: fl_sum_def)
qed

section \<open>What the model is shown\<close>

record share_invariant =
  in_share_field :: string
  in_total :: pyfloat
  in_tolerance :: pyfloat
  in_warn :: bool

record llm_config =
  lt_target :: string
  lt_output :: "string option"
  lt_intention :: string
  lt_provenance :: bool
  lt_invariant :: "share_invariant option"

text \<open>A value as \<open>json.dumps\<close> writes it; \<open>None\<close> where it raises \<open>TypeError\<close>, on nested fields.\<close>

definition json_value :: "xvalue \<Rightarrow> pyval option" where
  "json_value v = (case v of
     VNone \<Rightarrow> Some PNone | VStr s \<Rightarrow> Some (PStr s) | VInt i \<Rightarrow> Some (PInt i) | VFloat f \<Rightarrow> Some (PFloat f)
   | VBool b \<Rightarrow> Some (PBool b) | VList fs \<Rightarrow> if fs = [] then Some (PList []) else None)"

definition present :: "string option \<Rightarrow> bool" where
  "present s \<longleftrightarrow> s \<noteq> None \<and> s \<noteq> Some []"

definition field_provenance :: "xfield \<Rightarrow> pyval" where
  "field_provenance s = PDict ((''confidence'', PFloat (Fin (py_round 3 (xm_confidence (xf_meta s)))))
     # (if present (jo_evidence (xm_judge (xf_meta s))) then [(''evidence'', PStr (the (jo_evidence (xm_judge (xf_meta s)))))] else []))"

definition row_id :: "nat \<Rightarrow> string" where
  "row_id i = CHR ''r'' # str_of_nat (i + 1)"

definition row_provenance :: "xfield \<Rightarrow> pyval" where
  "row_provenance row = (let m = xf_meta row; subs = rows_of (xf_value row);
     fields = foldl (\<lambda>d s. AList.update (xf_name s) (field_provenance s) d) [] subs in
     PDict ((if present (xm_source m) then [(''source_document'', PStr (the (xm_source m)))] else [])
       @ (if xm_pages m \<noteq> [] then [(''pages'', PList (map PInt (xm_pages m)))] else [])
       @ [(''confidence'', PFloat (Fin (py_round 3 (xm_confidence m))))]
       @ (if fields \<noteq> [] then [(''fields'', PDict fields)] else [])))"

definition serialise_row :: "bool \<Rightarrow> nat \<Rightarrow> xfield \<Rightarrow> (string \<times> pyval option) list" where
  "serialise_row provenance i row =
     (let out = foldl (\<lambda>d s. AList.update (xf_name s) (json_value (xf_value s)) d) [] (rows_of (xf_value row));
          out = AList.update ''_row_id'' (Some (PStr (row_id i))) out
      in if provenance then AList.update ''_provenance'' (Some (row_provenance row)) out else out)"

definition dump_rows :: "bool \<Rightarrow> xfield list \<Rightarrow> (string \<times> pyval) list list res" where
  "dump_rows provenance rows =
     (let ds = map (\<lambda>(i, r). serialise_row provenance i r) (List.enumerate 0 rows) in
      if list_ex (list_ex (\<lambda>(k, v). v = None)) ds then Inl TypeErr else Inr (map (map (\<lambda>(k, v). (k, the v))) ds))"

section \<open>Identity tokens\<close>

definition is_word :: "char \<Rightarrow> bool" where
  "is_word c \<longleftrightarrow> is_alnum c \<or> c = CHR ''_''"

fun word_runs :: "string \<Rightarrow> string \<Rightarrow> string list" where
  "word_runs acc [] = (if acc = [] then [] else [rev acc])"
| "word_runs acc (c # cs) = (if is_word c then word_runs (c # acc) cs
     else if acc = [] then word_runs [] cs else rev acc # word_runs [] cs)"

definition norm_tokens :: "string \<Rightarrow> string list" where
  "norm_tokens s = remdups (filter (\<lambda>t. 3 \<le> length t \<or> list_all is_digit t) (word_runs [] (py_lower s)))"

definition str_of_field :: "xvalue \<Rightarrow> string option" where
  "str_of_field v = (case v of VStr s \<Rightarrow> if py_strip s \<noteq> [] then Some s else None | _ \<Rightarrow> None)"

definition row_tokens :: "xfield \<Rightarrow> string list" where
  "row_tokens row = remdups (concat (map (\<lambda>s. case str_of_field (xf_value s) of Some t \<Rightarrow> norm_tokens t | None \<Rightarrow> []) (rows_of (xf_value row))))"

definition distinctive :: "string list list \<Rightarrow> string \<Rightarrow> bool" where
  "distinctive sets t = (let df = length (filter (\<lambda>ts. t \<in> set ts) sets) in 0 < df \<and> df \<le> max 1 (length sets div 2))"

definition is_grounded :: "string list list \<Rightarrow> xfield \<Rightarrow> bool" where
  "is_grounded sets row = (sets = [] \<or> row_tokens row = [] \<or> list_ex (distinctive sets) (row_tokens row))"

definition reserved_key :: "string \<Rightarrow> bool" where
  "reserved_key k = (k \<in> set [''_row_id'', ''_provenance'', ''_source_rows''])"

definition data_items :: "(string \<times> pyval) list \<Rightarrow> (string \<times> pyval) list" where
  "data_items lr = filter (\<lambda>(k, v). \<not> reserved_key k) lr"

definition lr_identity_tokens :: "(string \<times> pyval) list \<Rightarrow> string list" where
  "lr_identity_tokens lr = remdups (concat (map (\<lambda>(k, v). case v of PStr s \<Rightarrow> if py_strip s \<noteq> [] then norm_tokens s else [] | _ \<Rightarrow> []) (data_items lr)))"

definition identity_contributors :: "string list \<Rightarrow> xfield list \<Rightarrow> string list list \<Rightarrow> xfield list" where
  "identity_contributors tokens rows sets = (if tokens = [] \<or> sets = [] then []
     else map fst (filter (\<lambda>(r, ts). list_ex (distinctive sets) (filter (\<lambda>t. t \<in> set ts) tokens)) (zip rows sets)))"

section \<open>Rebuilding the rows\<close>

definition union_pages :: "xfield list \<Rightarrow> int list" where
  "union_pages rows = sort (remdups (concat (map (\<lambda>r. xm_pages (xf_meta r)) rows)))"

definition mean_confidence :: "xfield list \<Rightarrow> rat" where
  "mean_confidence rows = (if rows = [] then 0
     else py_round 4 (sum_list (map (\<lambda>r. xm_confidence (xf_meta r)) rows) / of_nat (length rows)))"

definition cell_key :: "xfield \<Rightarrow> bool \<times> rat" where
  "cell_key s = (xm_bbox (xf_meta s) \<noteq> None, xm_confidence (xf_meta s))"

text \<open>The source of a cell: the first of the best sub-fields of its name.\<close>

definition provenance_sub :: "xfield list \<Rightarrow> xfield \<Rightarrow> string \<Rightarrow> xfield option" where
  "provenance_sub contributors fallback n =
     (let sources = if contributors \<noteq> [] then contributors else [fallback] in
      case filter (\<lambda>s. xf_name s = n) (concat (map (\<lambda>c. rows_of (xf_value c)) sources)) of
        [] \<Rightarrow> None | s # ss \<Rightarrow> Some (max_by cell_key s ss))"

text \<open>\<open>_source_rows\<close>: a text cites one row, anything else is iterated and its items looked up.\<close>

definition cited_values :: "pyval \<Rightarrow> pyval list res" where
  "cited_values v = (if \<not> truthy v then Inr [] else case v of
     PStr s \<Rightarrow> Inr [PStr s] | PList vs \<Rightarrow> Inr vs | PDict kvs \<Rightarrow> Inr (map (PStr \<circ> fst) kvs) | _ \<Rightarrow> Inl TypeErr)"

definition row_with_id :: "xfield list \<Rightarrow> pyval \<Rightarrow> xfield list res" where
  "row_with_id rows v = (case v of
     PStr s \<Rightarrow> Inr (map snd (filter (\<lambda>(i, r). row_id i = s) (List.enumerate 0 rows)))
   | PList _ \<Rightarrow> Inl TypeErr | PDict _ \<Rightarrow> Inl TypeErr | _ \<Rightarrow> Inr [])"

definition cited_rows :: "xfield list \<Rightarrow> (string \<times> pyval) list \<Rightarrow> xfield list res" where
  "cited_rows rows lr = (case cited_values (dict_get lr ''_source_rows'') of Inl e \<Rightarrow> Inl e
     | Inr vs \<Rightarrow> (case map_res (row_with_id rows) vs of Inl e \<Rightarrow> Inl e | Inr rs \<Rightarrow> Inr (concat rs)))"

definition resolve_contributors :: "xfield list \<Rightarrow> bool \<Rightarrow> nat \<Rightarrow> (string \<times> pyval) list \<Rightarrow> xfield list res" where
  "resolve_contributors rows positional i lr = (case cited_rows rows lr of Inl e \<Rightarrow> Inl e
     | Inr cs \<Rightarrow> Inr (if cs \<noteq> [] then cs else if positional then [rows ! i]
         else identity_contributors (lr_identity_tokens lr) rows (map row_tokens rows)))"

text \<open>\<open>ExtractedField(value=...)\<close> of a value of the answer: a mapping, and a list that is not one of
  fields, is pydantic's \<open>ValidationError\<close>.\<close>

definition field_value :: "(pyval list \<Rightarrow> xfield list option) \<Rightarrow> pyval \<Rightarrow> xvalue res" where
  "field_value nested v = (case v of
     PNone \<Rightarrow> Inr VNone | PStr s \<Rightarrow> Inr (VStr s) | PInt i \<Rightarrow> Inr (VInt i) | PFloat f \<Rightarrow> Inr (VFloat f) | PBool b \<Rightarrow> Inr (VBool b)
   | PDict _ \<Rightarrow> Inl (OtherExn ''ValidationError'')
   | PList vs \<Rightarrow> if vs = [] then Inr (VList []) else
      (case nested vs of Some fs \<Rightarrow> Inr (VList fs) | None \<Rightarrow> Inl (OtherExn ''ValidationError'')))"

definition rebuild_cell :: "(pyval list \<Rightarrow> xfield list option) \<Rightarrow> xmeta \<Rightarrow> (string \<Rightarrow> xfield option) \<Rightarrow> string \<times> pyval \<Rightarrow> xfield res" where
  "rebuild_cell nested row_meta prov item = (case item of (n, v) \<Rightarrow> (case field_value nested v of Inl e \<Rightarrow> Inl e
     | Inr x \<Rightarrow> Inr (XField (case prov n of
          Some s \<Rightarrow> (plain_meta n)\<lparr>xm_pages := xm_pages (xf_meta s), xm_confidence := xm_confidence (xf_meta s),
            xm_bbox := xm_bbox (xf_meta s), xm_judge := xm_judge (xf_meta s), xm_notes := xm_notes (xf_meta s)\<rparr>
        | None \<Rightarrow> (plain_meta n)\<lparr>xm_pages := xm_pages row_meta, xm_confidence := xm_confidence row_meta, xm_bbox := xm_bbox row_meta\<rparr>) x)))"

definition row_meta_of :: "xfield list \<Rightarrow> xfield \<Rightarrow> nat \<Rightarrow> xmeta" where
  "row_meta_of contributors template i = (plain_meta (''row_'' @ str_of_nat (i + 1)))
     \<lparr>xm_pages := if contributors \<noteq> [] then union_pages contributors else xm_pages (xf_meta template),
      xm_confidence := if contributors \<noteq> [] then mean_confidence contributors else xm_confidence (xf_meta template),
      xm_bbox := xm_bbox (xf_meta (if contributors \<noteq> [] then hd contributors else template))\<rparr>"

definition unmatched_note :: string where
  "unmatched_note = ''unmatched to source''"

definition flag_row :: "bool \<Rightarrow> string list list \<Rightarrow> xfield \<Rightarrow> xfield" where
  "flag_row flag sets row = (if flag \<and> \<not> is_grounded sets row
     then upd_meta (\<lambda>m. m\<lparr>xm_confidence := 0, xm_notes := Some unmatched_note\<rparr>) row else row)"

definition rebuild_row :: "(pyval list \<Rightarrow> xfield list option) \<Rightarrow> bool \<Rightarrow> xfield list \<Rightarrow> bool \<Rightarrow> nat \<times> (string \<times> pyval) list \<Rightarrow> xfield res" where
  "rebuild_row nested flag rows positional item = (case item of (i, lr) \<Rightarrow>
     (case resolve_contributors rows positional i lr of Inl e \<Rightarrow> Inl e
      | Inr cs \<Rightarrow> (let m = row_meta_of cs (hd rows) i in
          case map_res (rebuild_cell nested m (provenance_sub cs (hd rows))) (data_items lr) of Inl e \<Rightarrow> Inl e
          | Inr subs \<Rightarrow> Inr (flag_row flag (map row_tokens rows) (XField m (VList subs))))))"

definition rebuild_rows :: "(pyval list \<Rightarrow> xfield list option) \<Rightarrow> bool \<Rightarrow> (string \<times> pyval) list list \<Rightarrow> xfield list \<Rightarrow> xfield list res" where
  "rebuild_rows nested flag lrs rows =
     (let cites = list_ex (\<lambda>lr. truthy (dict_get lr ''_source_rows'')) lrs in
      map_res (rebuild_row nested flag rows (\<not> cites \<and> length lrs = length rows)) (List.enumerate 0 lrs))"

section \<open>The parts-of-whole guard\<close>

fun share_in :: "string \<Rightarrow> xfield list \<Rightarrow> pyfloat res" where
  "share_in n [] = Inr (Fin 0)"
| "share_in n (s # ss) = (if xf_name s = n then
      (case float_of (xf_value s) of Inr f \<Rightarrow> Inr f
       | Inl e \<Rightarrow> if e = TypeErr \<or> e = ValueErr then Inr (Fin 0) else Inl e)
    else share_in n ss)"

definition row_share :: "string \<Rightarrow> xfield \<Rightarrow> pyfloat res" where
  "row_share n row = share_in n (rows_of (xf_value row))"

definition sum_shares :: "string \<Rightarrow> xfield list \<Rightarrow> pyfloat res" where
  "sum_shares n rows = (case map_res (row_share n) rows of Inl e \<Rightarrow> Inl e | Inr fs \<Rightarrow> Inr (fl_round 6 (fl_sum fs)))"

definition victim_key :: "xfield \<Rightarrow> nat \<times> rat \<times> nat \<times> string" where
  "victim_key r = (let ts = row_tokens r in
     (if xm_notes (xf_meta r) = Some unmatched_note then 0 else 1, xm_confidence (xf_meta r), length ts, py_join '' '' (sort ts)))"

text \<open>\<open>min(kept, key=...)\<close>: the first of the least.\<close>

definition min_by :: "('a \<Rightarrow> 'k :: linorder) \<Rightarrow> 'a \<Rightarrow> 'a list \<Rightarrow> 'a" where
  "min_by f x xs = foldl (\<lambda>b y. if f y < f b then y else b) x xs"

lemma min_by_best: "min_by f x xs \<in> set (x # xs) \<and> (\<forall>y\<in>set (x # xs). f (min_by f x xs) \<le> f y)"
proof (induction xs rule: rev_induct)
  case (snoc y ys)
  have step: "min_by f x (ys @ [y]) = (if f y < f (min_by f x ys) then y else min_by f x ys)"
    by (simp add: min_by_def)
  show ?case
  proof (cases "f y < f (min_by f x ys)")
    case True
    with snoc have "\<forall>z\<in>set (x # ys). f y \<le> f z" by (auto intro: order_trans less_imp_le)
    with True show ?thesis by (simp add: step)
  next
    case False
    with snoc show ?thesis by (auto simp: step not_less)
  qed
qed (simp add: min_by_def)

function drop_while_over :: "('a list \<Rightarrow> bool) \<Rightarrow> ('a \<Rightarrow> 'k :: linorder) \<Rightarrow> 'a list \<Rightarrow> 'a list" where
  "drop_while_over over key kept = (if over kept \<and> 1 < length kept
     then drop_while_over over key (remove1 (min_by key (hd kept) (tl kept)) kept) else kept)"
  by pat_completeness auto
termination
proof (relation "measure (\<lambda>(over, key, kept). length kept)")
  fix over :: "'a list \<Rightarrow> bool" and key :: "'a \<Rightarrow> 'k :: linorder" and kept :: "'a list"
  assume a: "over kept \<and> 1 < length kept"
  then have "min_by key (hd kept) (tl kept) \<in> set kept" using min_by_best [of key "hd kept" "tl kept"] by (cases kept) simp_all
  with a show "((over, key, remove1 (min_by key (hd kept) (tl kept)) kept), (over, key, kept)) \<in> measure (\<lambda>(over, key, kept). length kept)"
    by (auto simp: length_remove1)
qed simp

declare drop_while_over.simps [simp del]

definition sum_limit :: "share_invariant \<Rightarrow> pyfloat" where
  "sum_limit v = fl_add (in_total v) (in_tolerance v)"

text \<open>The sum of all rows is taken first; once it has not raised, no later sum does.\<close>

definition over_limit :: "share_invariant \<Rightarrow> xfield list \<Rightarrow> bool" where
  "over_limit v rows = (case sum_shares (in_share_field v) rows of Inl _ \<Rightarrow> False | Inr s \<Rightarrow> fl_lt (sum_limit v) s)"

definition enforce_invariant :: "share_invariant \<Rightarrow> xfield list \<Rightarrow> xfield list res" where
  "enforce_invariant v rows = (case sum_shares (in_share_field v) rows of Inl e \<Rightarrow> Inl e
     | Inr current \<Rightarrow> Inr (if fl_le current (sum_limit v) then rows else if in_warn v then rows
         else drop_while_over (over_limit v) victim_key rows))"

section \<open>The whole call\<close>

type_synonym llm_rows = "(string \<times> pyval) list list"

definition llm_apply :: "(pyval list \<Rightarrow> xfield list option) \<Rightarrow> (llm_config \<Rightarrow> llm_rows \<Rightarrow> llm_rows option) \<Rightarrow> llm_config
    \<Rightarrow> xgroup list \<Rightarrow> (xgroup option \<times> xgroup list) res" where
  "llm_apply nested ask t groups = (case target_array (lt_target t) groups of
     None \<Rightarrow> Inr (None, groups)
   | Some (i, j) \<Rightarrow> (let arr = xg_fields (groups ! i) ! j; rows = rows_of (xf_value arr) in
       if rows = [] then Inr (None, groups)
       else (case dump_rows (lt_provenance t) rows of Inl e \<Rightarrow> Inl e
         | Inr shown \<Rightarrow> (case ask t shown of None \<Rightarrow> Inr (None, groups)
         | Some answer \<Rightarrow> (case rebuild_rows nested (lt_invariant t \<noteq> None) answer rows of Inl e \<Rightarrow> Inl e
         | Inr produced \<Rightarrow> (case (case lt_invariant t of None \<Rightarrow> Inr produced | Some v \<Rightarrow> enforce_invariant v produced) of Inl e \<Rightarrow> Inl e
         | Inr final \<Rightarrow> (case put_array (lt_output t) i j (new_array arr final) groups of (g, gs) \<Rightarrow> Inr (Some g, gs))))))))"

section \<open>What the guard keeps\<close>

lemma subseq_remove1: "subseq (remove1 x xs) xs"
  by (induction xs) auto

lemma subseq_mem: "subseq xs ys \<Longrightarrow> x \<in> set xs \<Longrightarrow> x \<in> set ys"
  by (induction rule: list_emb.induct) auto

lemma drop_step:
  fixes over :: "'a list \<Rightarrow> bool" and key :: "'a \<Rightarrow> 'k :: linorder"
  assumes "over kept \<and> 1 < length kept"
  defines "v \<equiv> min_by key (hd kept) (tl kept)"
  shows "drop_while_over over key kept = drop_while_over over key (remove1 v kept)" "v \<in> set kept" "y \<in> set kept \<Longrightarrow> key v \<le> key y"
    "remove1 v kept \<noteq> []"
proof -
  obtain k ks where kept: "kept = k # ks" "ks \<noteq> []" using assms(1) by (cases kept) auto
  show "drop_while_over over key kept = drop_while_over over key (remove1 v kept)"
    unfolding v_def using assms(1) by (subst drop_while_over.simps) simp
  show v: "v \<in> set kept" and "y \<in> set kept \<Longrightarrow> key v \<le> key y" using min_by_best [of key k ks] by (auto simp: v_def kept)
  have "0 < length (remove1 v kept)" using assms(1) v by (simp add: length_remove1)
  then show "remove1 v kept \<noteq> []" by simp
qed

lemma drop_stop: "(over kept \<and> 1 < length kept) = False \<Longrightarrow> drop_while_over over key kept = kept"
  by (subst drop_while_over.simps) auto

lemma drop_while_over_spec:
  "subseq (drop_while_over over key kept) kept \<and> (kept \<noteq> [] \<longrightarrow> drop_while_over over key kept \<noteq> [])
   \<and> (\<not> over (drop_while_over over key kept) \<or> length (drop_while_over over key kept) \<le> 1)
   \<and> (\<forall>d. d \<in># mset kept - mset (drop_while_over over key kept) \<longrightarrow> (\<forall>k\<in>set (drop_while_over over key kept). key d \<le> key k))"
proof (induction over key kept rule: drop_while_over.induct)
  case (1 over key kept)
  let ?v = "min_by key (hd kept) (tl kept)" and ?r = "drop_while_over over key kept"
  show ?case
  proof (cases "over kept \<and> 1 < length kept")
    case False
    then have "?r = kept" by (intro drop_stop) simp
    with False show ?thesis by auto
  next
    case True
    note st = drop_step [of over kept, OF True, where key = key]
    from 1 [OF True] st(1,4) have ih: "subseq ?r (remove1 ?v kept)" "?r \<noteq> []" "\<not> over ?r \<or> length ?r \<le> 1"
      "d \<in># mset (remove1 ?v kept) - mset ?r \<Longrightarrow> k \<in> set ?r \<Longrightarrow> key d \<le> key k" for d k by auto
    from subseq_remove1 ih(1) have sub: "subseq ?r kept" by (rule subseq_order.trans [rotated])
    then have ks: "k \<in> set ?r \<Longrightarrow> k \<in> set kept" for k by (rule subseq_mem)
    have "key d \<le> key k" if "d \<in># mset kept - mset ?r" "k \<in> set ?r" for d k
    proof (cases "d = ?v")
      case True
      with st(3) [of k] ks that(2) show ?thesis by simp
    next
      case False
      have "count (mset kept - mset ?r) d = count (mset (remove1 ?v kept) - mset ?r) d" using False by simp
      with that(1) have "d \<in># mset (remove1 ?v kept) - mset ?r" by (metis count_greater_zero_iff)
      from ih(4) [OF this that(2)] show ?thesis .
    qed
    with sub ih(2,3) show ?thesis by blast
  qed
qed

lemma map_res_projr: "map_res f xs = Inr ys \<longleftrightarrow> (\<forall>x\<in>set xs. \<not> isl (f x)) \<and> ys = map (projr \<circ> f) xs"
proof (induction xs arbitrary: ys)
  case (Cons x xs)
  show ?case
  proof (cases "map_res f xs")
    case (Inl e)
    with Cons.IH [of "map (projr \<circ> f) xs"] show ?thesis by (auto split: sum.splits)
  next
    case (Inr zs)
    with Cons.IH [of zs] show ?thesis by (cases "f x") auto
  qed
qed auto

lemma row_share_error: "row_share n r = Inl e \<Longrightarrow> e = OverflowErr"
proof -
  have "share_in n ss = Inl e \<Longrightarrow> e = OverflowErr" for ss
    by (induction ss) (auto simp: float_of_def split: if_splits sum.splits xvalue.splits option.splits)
  then show "row_share n r = Inl e \<Longrightarrow> e = OverflowErr" by (simp add: row_share_def)
qed

lemma sum_shares_perm:
  assumes "mset xs = mset ys"
  shows "sum_shares n xs = sum_shares n ys"
proof -
  have sets: "set xs = set ys" using mset_eq_setD [OF assms] .
  show ?thesis
  proof (cases "map_res (row_share n) xs")
    case (Inl e)
    then obtain x where "x \<in> set xs" "row_share n x = Inl e" using map_res_Inl by blast
    with row_share_error have e: "e = OverflowErr" and "isl (row_share n x)" "x \<in> set ys" using sets by auto
    then obtain e' where e': "map_res (row_share n) ys = Inl e'" using map_res_projr [of "row_share n" ys]
      by (cases "map_res (row_share n) ys") auto
    with map_res_Inl row_share_error have "e' = OverflowErr" by blast
    with Inl e e' show ?thesis by (simp add: sum_shares_def)
  next
    case (Inr fs)
    with map_res_projr [of "row_share n" xs fs] have fs: "fs = map (projr \<circ> row_share n) xs" "\<forall>x\<in>set ys. \<not> isl (row_share n x)"
      using sets by simp_all
    then have "map_res (row_share n) ys = Inr (map (projr \<circ> row_share n) ys)" by (simp add: map_res_projr)
    moreover have "fl_sum (map (projr \<circ> row_share n) ys) = fl_sum fs" by (rule fl_sum_perm) (simp add: fs(1) assms)
    ultimately show ?thesis using Inr by (simp add: sum_shares_def)
  qed
qed

lemma drop_while_over_perm:
  assumes "\<And>zs ws. mset zs = mset ws \<Longrightarrow> over zs = over ws"
  shows "mset xs = mset ys \<Longrightarrow> inj_on key (set xs) \<Longrightarrow> mset (drop_while_over over key xs) = mset (drop_while_over over key ys)"
proof (induction xs arbitrary: ys rule: length_induct)
  case (1 xs)
  have sets: "set xs = set ys" and len: "length xs = length ys" using mset_eq_setD [OF 1(2)] mset_eq_length [OF 1(2)] .
  have ov: "over xs = over ys" using assms 1(2) .
  show ?case
  proof (cases "over xs \<and> 1 < length xs")
    case False
    then have "\<not> (over ys \<and> 1 < length ys)" using ov len by simp
    with False 1(2) drop_stop [of over xs key] drop_stop [of over ys key] show ?thesis by simp
  next
    case True
    then have True': "over ys \<and> 1 < length ys" using ov len by simp
    let ?v = "min_by key (hd xs) (tl xs)" and ?w = "min_by key (hd ys) (tl ys)"
    note sx = drop_step [of over xs, OF True, where key = key] and sy = drop_step [of over ys, OF True', where key = key]
    have "key ?v = key ?w" using sx(2) sx(3) [of ?w] sy(2) sy(3) [of ?v] sets by (intro order.antisym) simp_all
    with 1(3) sx(2) sy(2) sets have vw: "?v = ?w" by (auto dest: inj_onD)
    have "length (remove1 ?v xs) < length xs" using sx(2) True by (auto simp: length_remove1)
    moreover have "mset (remove1 ?v xs) = mset (remove1 ?w ys)" using 1(2) vw by simp
    moreover have "inj_on key (set (remove1 ?v xs))" using 1(3) set_remove1_subset by (rule inj_on_subset)
    ultimately have "mset (drop_while_over over key (remove1 ?v xs)) = mset (drop_while_over over key (remove1 ?w ys))"
      using 1(1) by blast
    then show ?thesis using sx(1) sy(1) by simp
  qed
qed

lemma not_over: "sum_shares (in_share_field v) rows = Inr s \<Longrightarrow> \<not> over_limit v rows \<Longrightarrow> enforce_invariant v rows = Inr rows"
  by (auto simp: enforce_invariant_def over_limit_def drop_stop)

text \<open>C19: the parts-of-whole guard. What it returns are some of the rows, in their order, and at least one;
  rows that fit are returned unchanged, and so are all in \<open>warn\<close> mode; in \<open>repair\<close> mode the result
  fits or is a single row; and no dropped row is more trustworthy than a kept one. The loop ends for
  every input.\<close>

theorem enforce_invariant_repairs:
  assumes "enforce_invariant v rows = Inr kept"
  shows "subseq kept rows \<and> (rows \<noteq> [] \<longrightarrow> kept \<noteq> []) \<and> (in_warn v \<or> \<not> over_limit v rows \<longrightarrow> kept = rows)
    \<and> (in_warn v \<or> \<not> over_limit v kept \<or> length kept \<le> 1)
    \<and> (\<forall>d. d \<in># mset rows - mset kept \<longrightarrow> (\<forall>k\<in>set kept. victim_key d \<le> victim_key k))"
proof (cases "in_warn v \<or> \<not> over_limit v rows")
  case True
  with assms have "kept = rows" by (auto simp: enforce_invariant_def drop_stop split: sum.splits if_splits)
  with True show ?thesis by auto
next
  case False
  then have "\<not> fl_le s (sum_limit v)" if "sum_shares (in_share_field v) rows = Inr s" for s
    using that by (cases s; cases "sum_limit v") (auto simp: over_limit_def fl_le_def)
  with assms False have "kept = drop_while_over (over_limit v) victim_key rows"
    by (auto simp: enforce_invariant_def split: sum.splits if_splits)
  with drop_while_over_spec [of "over_limit v" victim_key rows] False show ?thesis by auto
qed

text \<open>The guard does not depend on the order of the rows: as long as no two rows have the same place in the
  order of victims (unmatched first, then confidence, number of tokens, tokens), it keeps the same rows
  of every permutation, and raises on one exactly if it does on the other.\<close>

theorem enforce_order_independent:
  assumes "mset rows = mset rows'" "inj_on victim_key (set rows)"
  shows "map_sum id mset (enforce_invariant v rows) = map_sum id mset (enforce_invariant v rows')"
proof -
  have "mset (drop_while_over (over_limit v) victim_key rows) = mset (drop_while_over (over_limit v) victim_key rows')"
  proof (rule drop_while_over_perm [OF _ assms])
    fix zs ws :: "xfield list"
    assume "mset zs = mset ws"
    from sum_shares_perm [OF this] show "over_limit v zs = over_limit v ws" by (simp add: over_limit_def)
  qed
  with assms(1) sum_shares_perm [OF assms(1), of "in_share_field v"] show ?thesis
    by (cases "sum_shares (in_share_field v) rows'") (simp_all add: enforce_invariant_def)
qed

text \<open>One share that reads as NaN switches the guard off: the sum is NaN, every comparison with it is
  false, and all rows are kept, however far the others exceed the whole.\<close>

theorem nan_share_disables:
  assumes "r \<in> set rows" "row_share (in_share_field v) r = Inr NaN" "enforce_invariant v rows = Inr kept"
  shows "kept = rows"
proof -
  obtain fs where fs: "map_res (row_share (in_share_field v)) rows = Inr fs"
    using assms(3) by (cases "map_res (row_share (in_share_field v)) rows") (auto simp: enforce_invariant_def sum_shares_def)
  with assms(1,2) have "NaN \<in> set fs" by (force simp: map_res_projr)
  with fs have "sum_shares (in_share_field v) rows = Inr NaN" by (simp add: sum_shares_def fl_sum_NaN)
  then have "\<not> over_limit v rows" by (cases "sum_limit v") (simp_all add: over_limit_def)
  with assms(3) show ?thesis by (auto simp: enforce_invariant_def drop_stop split: sum.splits if_splits)
qed

section \<open>Witnesses\<close>

definition owner :: "string \<Rightarrow> pyfloat \<Rightarrow> rat \<Rightarrow> xfield" where
  "owner n share conf = XField ((plain_meta ''row'')\<lparr>xm_confidence := conf\<rparr>)
     (VList [XField (plain_meta ''name'') (VStr n), XField (plain_meta ''share'') (VFloat share)])"

definition percent :: share_invariant where
  "percent = \<lparr>in_share_field = ''share'', in_total = Fin 100, in_tolerance = Fin 1, in_warn = False\<rparr>"

lemma py_round_int [simp]: "py_round n (of_int i) = of_int i"
proof -
  have "(of_int i :: rat) * 10 ^ n = of_int (i * 10 ^ n)" by simp
  then show ?thesis unfolding py_round_def Let_def by (simp only: floor_of_int) simp
qed

lemma py_round_numeral [simp]: "py_round n (numeral k) = numeral k"
  using py_round_int [of n "numeral k"] by (simp del: py_round_int)

lemma owner_share [simp]: "row_share ''share'' (owner n f c) = Inr f"
  by (simp add: row_share_def owner_def rows_of_def plain_meta_def float_of_def)

lemma owner_key: "victim_key (owner n f c) = (1, c, length (row_tokens (owner n f c)), py_join '' '' (sort (row_tokens (owner n f c))))"
  by (simp add: victim_key_def owner_def plain_meta_def Let_def)

lemma owner_eq [simp]: "owner n f c = owner n' f' c' \<longleftrightarrow> n = n' \<and> f = f' \<and> c = c'"
  by (auto simp: owner_def plain_meta_def)

lemma percent_simps [simp]: "in_share_field percent = ''share''" "in_warn percent = False" "sum_limit percent = Fin 101"
  by (simp_all add: percent_def sum_limit_def)

abbreviation "ana \<equiv> owner ''Ana Gil'' (Fin 60) (9 / 10)"
abbreviation "acme \<equiv> owner ''Acme'' (Fin 45) (1 / 2)"
abbreviation "juan \<equiv> owner ''Juan'' (Fin 40) (8 / 10)"

lemma owners_repaired: "enforce_invariant percent [ana, acme, juan] = Inr [ana, juan]"
  by (simp add: enforce_invariant_def sum_shares_def fl_sum_def fl_le_def drop_while_over.simps over_limit_def min_by_def owner_key)

lemma enforce_invariant_repairs_witness: "subseq [ana, juan] [ana, acme, juan]"
  using enforce_invariant_repairs [OF owners_repaired] by blast

lemma enforce_order_independent_witness:
  "map_sum id mset (enforce_invariant percent [juan, acme, ana]) = Inr (mset [ana, juan])"
proof -
  have "inj_on victim_key (set [ana, acme, juan])" by (simp add: inj_on_def owner_key)
  from enforce_order_independent [OF _ this, of "[juan, acme, ana]" percent] show ?thesis
    unfolding owners_repaired by (simp add: add_mset_commute)
qed

lemma nan_share_disables_witness:
  "enforce_invariant percent [owner ''Ana Gil'' (Fin 400) 1, owner ''Acme'' NaN 0] = Inr [owner ''Ana Gil'' (Fin 400) 1, owner ''Acme'' NaN 0]"
proof -
  obtain kept where kept: "enforce_invariant percent [owner ''Ana Gil'' (Fin 400) 1, owner ''Acme'' NaN 0] = Inr kept"
    by (simp add: enforce_invariant_def sum_shares_def)
  with nan_share_disables [OF _ _ kept, of "owner ''Acme'' NaN 0"] show ?thesis by simp
qed

text \<open>The order of victims is not total on rows: two with the same tokens and confidence tie, and the first of
  them goes.\<close>

lemma tied_key: "victim_key (owner n f c) = victim_key (owner n g c)"
  by (simp add: victim_key_def row_tokens_def owner_def rows_of_def str_of_field_def)

lemma equal_keys_order_matters:
  "enforce_invariant percent [owner ''Ana'' (Fin 30) 0, owner ''Ana'' (Fin 80) 0] = Inr [owner ''Ana'' (Fin 80) 0]
   \<and> enforce_invariant percent [owner ''Ana'' (Fin 80) 0, owner ''Ana'' (Fin 30) 0] = Inr [owner ''Ana'' (Fin 30) 0]"
  by (simp add: enforce_invariant_def sum_shares_def fl_sum_def fl_le_def drop_while_over.simps over_limit_def min_by_def
    tied_key [of "''Ana''" "Fin 30" 0 "Fin 80"])

section \<open>Where a rebuilt row comes from\<close>

definition same_evidence :: "xfield \<Rightarrow> xfield \<Rightarrow> bool" where
  "same_evidence c s \<longleftrightarrow> xm_pages (xf_meta c) = xm_pages (xf_meta s) \<and> xm_confidence (xf_meta c) = xm_confidence (xf_meta s)
     \<and> xm_bbox (xf_meta c) = xm_bbox (xf_meta s) \<and> xm_judge (xf_meta c) = xm_judge (xf_meta s) \<and> xm_notes (xf_meta c) = xm_notes (xf_meta s)"

text \<open>A cell carries the evidence of a cell of that name of an input row, or the pages and the box of its row.\<close>

definition cell_sourced :: "xfield list \<Rightarrow> xfield \<Rightarrow> xfield \<Rightarrow> bool" where
  "cell_sourced rows r c \<longleftrightarrow> (\<exists>q\<in>set rows. \<exists>s\<in>set (rows_of (xf_value q)). xf_name s = xf_name c \<and> same_evidence c s)
     \<or> xm_pages (xf_meta c) = xm_pages (xf_meta r) \<and> xm_bbox (xf_meta c) = xm_bbox (xf_meta r)
       \<and> xm_judge (xf_meta c) = default_judge \<and> xm_notes (xf_meta c) = None"

definition row_sourced :: "xfield list \<Rightarrow> bool \<Rightarrow> nat \<Rightarrow> (string \<times> pyval) list \<Rightarrow> xfield \<Rightarrow> bool" where
  "row_sourced rows flag i lr r \<longleftrightarrow> xf_name r = ''row_'' @ str_of_nat (i + 1)
     \<and> map xf_name (rows_of (xf_value r)) = map fst (data_items lr)
     \<and> set (xm_pages (xf_meta r)) \<subseteq> (\<Union>q\<in>set rows. set (xm_pages (xf_meta q)))
     \<and> xm_bbox (xf_meta r) \<in> (\<lambda>q. xm_bbox (xf_meta q)) ` set rows
     \<and> (\<forall>c\<in>set (rows_of (xf_value r)). cell_sourced rows r c)
     \<and> (if flag \<and> \<not> is_grounded (map row_tokens rows) r
        then xm_confidence (xf_meta r) = 0 \<and> xm_notes (xf_meta r) = Some unmatched_note else xm_notes (xf_meta r) = None)"

lemma row_with_id_mem: "row_with_id rows v = Inr rs \<Longrightarrow> set rs \<subseteq> set rows"
  by (auto simp: row_with_id_def in_set_enumerate_eq split: pyval.splits)

lemma cited_rows_mem:
  assumes "cited_rows rows lr = Inr cs"
  shows "set cs \<subseteq> set rows"
proof -
  from assms obtain vs rs where "map_res (row_with_id rows) vs = Inr rs" "cs = concat rs"
    by (auto simp: cited_rows_def split: sum.splits)
  then have "list_all2 (\<lambda>v r. row_with_id rows v = Inr r) vs rs" "cs = concat rs" by (simp_all add: map_res_Inr)
  then show ?thesis using row_with_id_mem by (fastforce simp: list_all2_conv_all_nth in_set_conv_nth [of _ rs])
qed

lemma contributors_mem:
  assumes "resolve_contributors rows positional i lr = Inr cs" "positional \<longrightarrow> i < length rows"
  shows "set cs \<subseteq> set rows"
proof -
  obtain ds where ds: "cited_rows rows lr = Inr ds" using assms(1) by (cases "cited_rows rows lr") (simp_all add: resolve_contributors_def)
  have "set (identity_contributors ts rows sets) \<subseteq> set rows" for ts sets
    by (auto simp: identity_contributors_def dest: set_zip_leftD)
  with assms ds cited_rows_mem [OF ds] show ?thesis by (auto simp: resolve_contributors_def split: if_splits)
qed

lemma provenance_sub_mem:
  assumes "provenance_sub cs fb n = Some s" "set cs \<subseteq> set rows" "fb \<in> set rows"
  shows "xf_name s = n \<and> (\<exists>q\<in>set rows. s \<in> set (rows_of (xf_value q)))"
proof -
  let ?sources = "if cs \<noteq> [] then cs else [fb]"
  let ?subs = "concat (map (\<lambda>c. rows_of (xf_value c)) ?sources)"
  obtain x xs where f: "filter (\<lambda>s. xf_name s = n) ?subs = x # xs" and s: "s = max_by cell_key x xs"
    using assms(1) unfolding provenance_sub_def Let_def by (auto split: list.splits)
  from max_by_best [of cell_key x xs] s have "s \<in> set (filter (\<lambda>s. xf_name s = n) ?subs)" by (simp only: f)
  with assms(2,3) show ?thesis by (auto split: if_splits)
qed

lemma rebuild_cell_sourced:
  assumes "rebuild_cell nested (row_meta_of cs fb i) (provenance_sub cs fb) item = Inr c" "set cs \<subseteq> set rows" "fb \<in> set rows"
  shows "xf_name c = fst item"
    and "xm_pages (xf_meta r) = xm_pages (row_meta_of cs fb i) \<Longrightarrow> xm_bbox (xf_meta r) = xm_bbox (row_meta_of cs fb i) \<Longrightarrow> cell_sourced rows r c"
proof -
  obtain n v where item: "item = (n, v)" by force
  obtain x where x: "field_value nested v = Inr x" using assms(1) by (cases "field_value nested v") (simp_all add: rebuild_cell_def item)
  show "xf_name c = fst item" using assms(1) x by (auto simp: rebuild_cell_def item plain_meta_def split: option.splits)
  assume r: "xm_pages (xf_meta r) = xm_pages (row_meta_of cs fb i)" "xm_bbox (xf_meta r) = xm_bbox (row_meta_of cs fb i)"
  show "cell_sourced rows r c"
  proof (cases "provenance_sub cs fb n")
    case None
    with assms(1) x r show ?thesis by (auto simp: rebuild_cell_def item plain_meta_def cell_sourced_def)
  next
    case (Some s)
    from provenance_sub_mem [OF Some assms(2,3)] obtain q where "xf_name s = n" "q \<in> set rows" "s \<in> set (rows_of (xf_value q))" by blast
    moreover have "xf_name c = n \<and> same_evidence c s" using assms(1) x Some by (auto simp: rebuild_cell_def item plain_meta_def same_evidence_def)
    ultimately show ?thesis unfolding cell_sourced_def by metis
  qed
qed

lemma flag_row_simps:
  "xf_value (flag_row flag sets r) = xf_value r" "xf_name (flag_row flag sets r) = xf_name r"
  "xm_pages (xf_meta (flag_row flag sets r)) = xm_pages (xf_meta r)" "xm_bbox (xf_meta (flag_row flag sets r)) = xm_bbox (xf_meta r)"
  by (simp_all add: flag_row_def)

lemma is_grounded_flag: "is_grounded sets (flag_row flag sets' r) = is_grounded sets r"
  by (simp add: is_grounded_def row_tokens_def flag_row_simps)

lemma rebuild_row_sourced:
  assumes "rebuild_row nested flag rows positional (i, lr) = Inr r" "rows \<noteq> []" "positional \<longrightarrow> i < length rows"
  shows "row_sourced rows flag i lr r"
proof -
  obtain cs where cs: "resolve_contributors rows positional i lr = Inr cs"
    using assms(1) by (cases "resolve_contributors rows positional i lr") (simp_all add: rebuild_row_def)
  let ?m = "row_meta_of cs (hd rows) i"
  obtain subs where subs: "map_res (rebuild_cell nested ?m (provenance_sub cs (hd rows))) (data_items lr) = Inr subs"
    and r: "r = flag_row flag (map row_tokens rows) (XField ?m (VList subs))"
    using assms(1) by (auto simp: rebuild_row_def cs Let_def split: sum.splits)
  note mem = contributors_mem [OF cs assms(3)]
  have hd: "hd rows \<in> set rows" using assms(2) by simp
  have all: "list_all2 (\<lambda>item c. rebuild_cell nested ?m (provenance_sub cs (hd rows)) item = Inr c) (data_items lr) subs"
    using subs by (simp add: map_res_Inr)
  then have names: "map xf_name subs = map fst (data_items lr)"
    using rebuild_cell_sourced(1) [OF _ mem hd] by (induction rule: list_all2_induct) simp_all
  have cells: "cell_sourced rows r c" if "c \<in> set subs" for c
  proof -
    from that obtain k where k: "k < length subs" "c = subs ! k" by (auto simp: in_set_conv_nth)
    with all have "rebuild_cell nested ?m (provenance_sub cs (hd rows)) (data_items lr ! k) = Inr c"
      by (simp add: list_all2_conv_all_nth)
    from rebuild_cell_sourced(2) [OF this mem hd, of r] show ?thesis by (simp add: r flag_row_simps)
  qed
  have "set (xm_pages ?m) \<subseteq> (\<Union>q\<in>set rows. set (xm_pages (xf_meta q)))"
    using mem hd by (auto simp: row_meta_of_def union_pages_def)
  moreover have "xm_bbox ?m \<in> (\<lambda>q. xm_bbox (xf_meta q)) ` set rows"
  proof -
    have "(if cs \<noteq> [] then hd cs else hd rows) \<in> set rows" using mem hd hd_in_set [of cs] by auto
    then show ?thesis by (simp add: row_meta_of_def)
  qed
  moreover have "xm_name ?m = ''row_'' @ str_of_nat (i + 1)" "xm_notes ?m = None" by (simp_all add: row_meta_of_def plain_meta_def)
  ultimately show ?thesis
    using names cells by (auto simp: row_sourced_def r flag_row_simps is_grounded_flag rows_of_def) (simp_all add: flag_row_def)
qed


definition answer_rows :: "(string \<times> pyval) list list" where
  "answer_rows = [[(''name'', PStr ''Acme''), (''_source_rows'', PStr ''r2'')], [(''name'', PStr ''Unknown Person'')]]"

lemma answer_rebuilt: "\<not> isl (rebuild_rows (\<lambda>_. None) True answer_rows [ana, acme])"
  by code_simp


end
