(* ===== verification/TransformEngine.thy ===== *)
theory TransformEngine
  imports LlmTransform
begin

text \<open>
  \<open>TransformationEngine\<close> (\<open>core/services/transformations/transformation_engine.py\<close>): a transformation is
  applied to the groups of one task, where any exception leaves them as they were, or to the rows of
  all tasks put together, where an exception reaches the caller.
\<close>

datatype transformation = EntityResolution er_config | LlmRewrite llm_config

definition tf_target :: "transformation \<Rightarrow> string" where
  "tf_target t = (case t of EntityResolution c \<Rightarrow> er_target c | LlmRewrite c \<Rightarrow> lt_target c)"

definition tf_output :: "transformation \<Rightarrow> string option" where
  "tf_output t = (case t of EntityResolution c \<Rightarrow> er_output c | LlmRewrite c \<Rightarrow> lt_output c)"

definition set_output :: "string option \<Rightarrow> transformation \<Rightarrow> transformation" where
  "set_output out t = (case t of EntityResolution c \<Rightarrow> EntityResolution (c\<lparr>er_output := out\<rparr>)
     | LlmRewrite c \<Rightarrow> LlmRewrite (c\<lparr>lt_output := out\<rparr>))"

text \<open>What the transformers call: the library, pydantic's reading of a list, and the model.\<close>

record transform_env =
  te_lib :: pylib
  te_nested :: "pyval list \<Rightarrow> xfield list option"
  te_ask :: "llm_config \<Rightarrow> llm_rows \<Rightarrow> llm_rows option"

definition dispatch :: "transform_env \<Rightarrow> transformation \<Rightarrow> xgroup list \<Rightarrow> (xgroup option \<times> xgroup list) res" where
  "dispatch E t groups = (case t of
     EntityResolution c \<Rightarrow> Inr (er_apply (te_lib E) c groups)
   | LlmRewrite c \<Rightarrow> llm_apply (te_nested E) (te_ask E) c groups)"

definition apply_to_task :: "transform_env \<Rightarrow> transformation \<Rightarrow> xgroup list \<Rightarrow> xgroup option \<times> xgroup list" where
  "apply_to_task E t groups = (case dispatch E t groups of Inl _ \<Rightarrow> (None, groups) | Inr r \<Rightarrow> r)"

section \<open>Request scope\<close>

definition label_row :: "string option \<Rightarrow> xfield \<Rightarrow> xfield" where
  "label_row label r = (if present label then upd_meta (\<lambda>m. m\<lparr>xm_source := label\<rparr>) r else r)"

definition source_label :: "string option list option \<Rightarrow> nat \<Rightarrow> string option" where
  "source_label sources i = (case sources of None \<Rightarrow> None | Some ls \<Rightarrow> if i < length ls then ls ! i else None)"

definition target_lists :: "string \<Rightarrow> xgroup list \<Rightarrow> xfield list" where
  "target_lists n groups = filter (\<lambda>f. is_rows (xf_value f)) (concat (map xg_fields (filter (\<lambda>g. xg_name g = n) groups)))"

definition first_named :: "string list \<Rightarrow> string" where
  "first_named ns = (case List.find (\<lambda>n. n \<noteq> []) ns of Some n \<Rightarrow> n | None \<Rightarrow> ''rows'')"

definition consolidated_rows :: "xgroup list list \<Rightarrow> string \<Rightarrow> string option list option \<Rightarrow> xfield list" where
  "consolidated_rows per_task n sources =
     concat (map (\<lambda>(i, gs). map (label_row (source_label sources i)) (concat (map (\<lambda>f. rows_of (xf_value f)) (target_lists n gs))))
       (List.enumerate 0 per_task))"

definition consolidate_groups :: "xgroup list list \<Rightarrow> string \<Rightarrow> string option list option \<Rightarrow> xgroup option" where
  "consolidate_groups per_task n sources =
     (let rows = consolidated_rows per_task n sources in
      if rows = [] then None
      else Some \<lparr>xg_name = n, xg_fields = [XField (plain_meta (first_named (map xf_name (concat (map (target_lists n) per_task))))) (VList rows)]\<rparr>)"

definition apply_request_scope :: "transform_env \<Rightarrow> transformation \<Rightarrow> xgroup list list \<Rightarrow> string option list option \<Rightarrow> xgroup option res" where
  "apply_request_scope E t per_task sources = (case consolidate_groups per_task (tf_target t) sources of
     None \<Rightarrow> Inr None
   | Some g \<Rightarrow> (let t' = (if tf_output t = None then set_output (Some (tf_target t)) t else t) in
       case dispatch E t' [g] of Inl e \<Rightarrow> Inl e
       | Inr (result, working) \<Rightarrow> Inr (if 1 < length working then Some (last working) else result)))"

section \<open>What a transformation touches\<close>

lemma first_index_Some: "first_index P xs = Some i \<Longrightarrow> i < length xs \<and> P (xs ! i)"
  unfolding first_index_def
proof (induction xs arbitrary: i)
  case (Cons x xs)
  show ?case
  proof (cases "P x")
    case False
    with Cons.prems have "(if list_ex P xs then Some (length (takeWhile (\<lambda>x. \<not> P x) xs)) else None) = Some (i - 1)" "0 < i"
      by (auto split: if_splits)
    with Cons.IH [of "i - 1"] show ?thesis by (cases i) auto
  qed (use Cons.prems in simp)
qed simp

lemma target_array_Some:
  assumes "target_array n groups = Some (i, j)"
  shows "i < length groups \<and> xg_name (groups ! i) = n \<and> j < length (xg_fields (groups ! i)) \<and> is_rows (xf_value (xg_fields (groups ! i) ! j))"
  using assms first_index_Some [of "\<lambda>g. xg_name g = n" groups i]
    first_index_Some [of "\<lambda>f. is_rows (xf_value f)" "xg_fields (groups ! i)" j]
  by (auto simp: target_array_def split: option.splits)

text \<open>The groups are left alone, one is appended, or one field of the target group is replaced by a list
  with the same name.\<close>

definition touches :: "string \<Rightarrow> string option \<Rightarrow> xgroup list \<Rightarrow> xgroup option \<times> xgroup list \<Rightarrow> bool" where
  "touches target out groups r \<longleftrightarrow> r = (None, groups)
     \<or> (\<exists>g. present out \<and> r = (Some g, groups @ [g]) \<and> xg_name g = the out \<and> length (xg_fields g) = 1)
     \<or> (\<exists>i j arr. \<not> present out \<and> i < length groups \<and> xg_name (groups ! i) = target \<and> j < length (xg_fields (groups ! i))
        \<and> is_rows (xf_value (xg_fields (groups ! i) ! j)) \<and> is_rows (xf_value arr) \<and> xf_name arr = xf_name (xg_fields (groups ! i) ! j)
        \<and> r = (Some ((groups ! i)\<lparr>xg_fields := (xg_fields (groups ! i))[j := arr]\<rparr>),
               groups[i := (groups ! i)\<lparr>xg_fields := (xg_fields (groups ! i))[j := arr]\<rparr>]))"

lemma put_array_touches:
  assumes "target_array target groups = Some (i, j)" "put_array out i j (new_array (xg_fields (groups ! i) ! j) rows) groups = (g, gs)"
  shows "touches target out groups (Some g, gs)"
proof -
  let ?arr = "new_array (xg_fields (groups ! i) ! j) rows"
  have arr: "is_rows (xf_value ?arr)" "xf_name ?arr = xf_name (xg_fields (groups ! i) ! j)"
    by (simp_all add: new_array_def is_rows_def plain_meta_def)
  show ?thesis
  proof (cases "present out")
    case True
    with assms(2) show ?thesis by (auto simp: put_array_def present_def touches_def Let_def)
  next
    case False
    with assms(2) have "g = (groups ! i)\<lparr>xg_fields := (xg_fields (groups ! i))[j := ?arr]\<rparr>" "gs = groups[i := g]"
      by (auto simp: put_array_def present_def Let_def)
    with False arr target_array_Some [OF assms(1)] show ?thesis
      unfolding touches_def by (intro disjI2 exI [of _ i] exI [of _ j] exI [of _ ?arr]) simp
  qed
qed

lemma touches_none: "touches target out groups (None, groups)"
  by (simp add: touches_def)

lemma er_apply_touches: "touches (er_target c) (er_output c) groups (er_apply L c groups)"
proof (cases "target_array (er_target c) groups")
  case (Some p)
  obtain i j where p: "p = (i, j)" by force
  let ?arr = "xg_fields (groups ! i) ! j"
  obtain g gs where put: "put_array (er_output c) i j (new_array ?arr (dedupe_rows L c (rows_of (xf_value ?arr)))) groups = (g, gs)" by force
  from put_array_touches [OF Some [unfolded p] put] put Some p show ?thesis by (simp add: er_apply_def Let_def touches_none)
qed (simp add: er_apply_def touches_none)

lemma llm_apply_touches: "llm_apply nested ask c groups = Inr r \<Longrightarrow> touches (lt_target c) (lt_output c) groups r"
proof (cases "target_array (lt_target c) groups")
  case (Some p)
  assume r: "llm_apply nested ask c groups = Inr r"
  obtain i j where p: "p = (i, j)" by force
  let ?arr = "xg_fields (groups ! i) ! j"
  from r Some p consider "r = (None, groups)"
    | rows g gs where "r = (Some g, gs)" "put_array (lt_output c) i j (new_array ?arr rows) groups = (g, gs)"
    by (auto simp: llm_apply_def Let_def split: if_splits sum.splits option.splits prod.splits)
  then show ?thesis
  proof cases
    case 2
    with put_array_touches [OF Some [unfolded p]] show ?thesis by simp
  qed (simp add: touches_none)
qed (auto simp: llm_apply_def touches_none)

text \<open>A task-scope transformation never raises, whatever the model answers, and touches only its target:
  it leaves the groups as they are, appends one group named \<open>output_group\<close>, or replaces the list of
  the target group by one of the same name. All other groups and fields are unchanged.\<close>

theorem task_scope_touches_target:
  "touches (tf_target t) (tf_output t) groups (apply_to_task E t groups)"
proof (cases t)
  case (EntityResolution c)
  then show ?thesis by (simp add: apply_to_task_def dispatch_def tf_target_def tf_output_def er_apply_touches)
next
  case (LlmRewrite c)
  then show ?thesis
    using llm_apply_touches [of "te_nested E" "te_ask E" c groups]
    by (auto simp: apply_to_task_def dispatch_def tf_target_def tf_output_def touches_none split: sum.split)
qed

text \<open>The request scope is not shielded in the same way. A mapping among the values of the model's answer is
  refused when the cell is built; at task scope the groups are kept, at request scope the exception
  leaves the engine.\<close>

theorem request_scope_raises:
  assumes "consolidate_groups per_task (tf_target t) sources = Some g"
    and "dispatch E (if tf_output t = None then set_output (Some (tf_target t)) t else t) [g] = Inl e"
  shows "apply_request_scope E t per_task sources = Inl e
    \<and> apply_to_task E (if tf_output t = None then set_output (Some (tf_target t)) t else t) [g] = (None, [g])"
  using assms by (simp add: apply_request_scope_def apply_to_task_def Let_def)

definition sample_env :: transform_env where
  "sample_env = \<lparr>te_lib = no_pylib, te_nested = (\<lambda>_. None), te_ask = (\<lambda>c shown. Some [[(''name'', PDict [(''first'', PStr ''Ana'')])]])\<rparr>"

definition sample_rewrite :: transformation where
  "sample_rewrite = LlmRewrite \<lparr>lt_target = ''owners'', lt_output = None, lt_intention = ''split the names'', lt_provenance = False, lt_invariant = None\<rparr>"

definition owners_group :: xgroup where
  "owners_group = \<lparr>xg_name = ''owners'', xg_fields = [XField (plain_meta ''rows'') (VList [ana])]\<rparr>"

lemma request_scope_raises_witness:
  "apply_request_scope sample_env sample_rewrite [[owners_group]] None = Inl (OtherExn ''ValidationError'')"
proof -
  have c: "consolidate_groups [[owners_group]] (tf_target sample_rewrite) None = Some owners_group"
    and d: "dispatch sample_env (if tf_output sample_rewrite = None then set_output (Some (tf_target sample_rewrite)) sample_rewrite else sample_rewrite)
      [owners_group] = Inl (OtherExn ''ValidationError'')" by code_simp+
  from request_scope_raises [OF c d] show ?thesis by simp
qed

text \<open>Request scope works on all the data. The rows it hands to the transformer are exactly the rows of the
  lists of every target group of every task, in order, each stamped with its task's label if it has a
  nonempty one, and with nothing else changed.\<close>

theorem request_scope_rows:
  "(case consolidate_groups per_task n sources of
      None \<Rightarrow> concat (map (\<lambda>f. rows_of (xf_value f)) (concat (map (target_lists n) per_task))) = []
    | Some g \<Rightarrow> xg_name g = n \<and> target_array n [g] = Some (0, 0)
        \<and> map (upd_meta (\<lambda>m. m\<lparr>xm_source := None\<rparr>)) (rows_of (xf_value (hd (xg_fields g))))
          = map (upd_meta (\<lambda>m. m\<lparr>xm_source := None\<rparr>)) (concat (map (\<lambda>f. rows_of (xf_value f)) (concat (map (target_lists n) per_task)))))"
proof -
  let ?erase = "upd_meta (\<lambda>m. m\<lparr>xm_source := None\<rparr>)"
  have erase: "map ?erase (map (label_row l) rs) = map ?erase rs" for l rs
    by (simp add: label_row_def upd_meta_def)
  have gen: "map ?erase (concat (map (\<lambda>(i, gs). map (label_row (source_label sources i)) (concat (map (\<lambda>f. rows_of (xf_value f)) (target_lists n gs))))
       (List.enumerate k ps)))
     = map ?erase (concat (map (\<lambda>f. rows_of (xf_value f)) (concat (map (target_lists n) ps))))" for k ps
    by (induction ps arbitrary: k) (simp_all add: erase del: map_map)
  let ?rows = "consolidated_rows per_task n sources"
  have rows: "map ?erase ?rows = map ?erase (concat (map (\<lambda>f. rows_of (xf_value f)) (concat (map (target_lists n) per_task))))"
    unfolding consolidated_rows_def by (rule gen)
  show ?thesis
  proof (cases "?rows = []")
    case True
    with rows have "concat (map (\<lambda>f. rows_of (xf_value f)) (concat (map (target_lists n) per_task))) = []" by simp
    with True show ?thesis by (simp add: consolidate_groups_def)
  next
    case False
    then show ?thesis using rows
      by (simp add: consolidate_groups_def Let_def rows_of_def is_rows_def target_array_def first_index_def)
  qed
qed

end
