(* ===== verification/BboxCheck.thy ===== *)
theory BboxCheck
  imports LlmTransform
begin

text \<open>
  \<open>BboxValidator\<close> (\<open>core/services/bbox/bbox_validator.py\<close>): every box of a field with a value gets a
  verdict and a score from its geometry; a box of a field without a value is dropped. Coordinates
  are exact rationals.
\<close>

section \<open>Geometry\<close>

definition area_min :: rat where "area_min = 5 / 100000"
definition area_typ_min :: rat where "area_typ_min = 1 / 10000"
definition area_typ_max :: rat where "area_typ_max = 1 / 2"
definition area_suspicious :: rat where "area_suspicious = 7 / 10"
definition aspect_max :: rat where "aspect_max = 30"
definition edge_epsilon :: rat where "edge_epsilon = 1 / 1000"

definition is_zero_placeholder :: "bounding_box \<Rightarrow> bool" where
  "is_zero_placeholder b = (bb_xmax b - bb_xmin b \<le> 2 / 10 ^ 9 \<and> bb_ymax b - bb_ymin b \<le> 2 / 10 ^ 9)"

definition area_score :: "rat \<Rightarrow> rat" where
  "area_score a = (if area_typ_min \<le> a \<and> a \<le> area_typ_max then 1
     else if a < area_typ_min then (if a \<le> area_min then 0 else (a - area_min) / (area_typ_min - area_min))
     else if area_suspicious \<le> a then 0
     else 1 - (a - area_typ_max) / (area_suspicious - area_typ_max))"

definition aspect_score :: "rat \<Rightarrow> rat" where
  "aspect_score a = (if 5 / 100 \<le> a \<and> a \<le> 25 then 1 else if a < 5 / 100 then a / (5 / 100) else max 0 (1 - (a - 25) / 30))"

definition hugs :: "bounding_box \<Rightarrow> nat" where
  "hugs b = (if bb_xmin b \<le> edge_epsilon then 1 else 0) + (if bb_ymin b \<le> edge_epsilon then 1 else 0)
     + (if 1 - edge_epsilon \<le> bb_xmax b then 1 else 0) + (if 1 - edge_epsilon \<le> bb_ymax b then 1 else 0)"

definition margin_score :: "bounding_box \<Rightarrow> rat" where
  "margin_score b = max 0 (1 - of_nat (hugs b) * (25 / 100))"

definition classify_box :: "bounding_box \<Rightarrow> bbox_quality \<times> rat" where
  "classify_box b = (let width = bb_xmax b - bb_xmin b; height = bb_ymax b - bb_ymin b; area = width * height;
       aspect = (if 0 < height then width / height else 0) in
     if width \<le> 0 \<or> height \<le> 0 \<or> area \<le> 0 then (Q_INVALID, 0)
     else if area_suspicious < area \<or> 9 / 10 < width \<or> 9 / 10 < height then (Q_SUSPICIOUS, 2 / 10)
     else if area < area_min \<or> aspect_max < aspect \<or> aspect < 1 / 30 then (Q_POOR, 4 / 10)
     else (Q_GOOD, 5 / 10 * area_score area + 3 / 10 * aspect_score aspect + 2 / 10 * margin_score b))"

definition stamp_box :: "bounding_box \<Rightarrow> bounding_box" where
  "stamp_box b = (case classify_box b of (q, s) \<Rightarrow> b\<lparr>bb_quality := Some q, bb_score := py_round 4 (max 0 (min 1 s))\<rparr>)"

section \<open>Fields\<close>

definition grade_box :: "xvalue \<Rightarrow> bounding_box option \<Rightarrow> bounding_box option" where
  "grade_box v b = (case b of None \<Rightarrow> None
     | Some x \<Rightarrow> if v = VNone \<or> is_zero_placeholder x then None else Some (stamp_box x))"

text \<open>\<open>_validate_field\<close> visits the rows of a list, and the fields of each row once more; the fuel is the
  depth of the field.\<close>

fun visit_field :: "nat \<Rightarrow> xfield \<Rightarrow> xfield" where
  "visit_field 0 f = f"
| "visit_field (Suc n) f = XField ((xf_meta f)\<lparr>xm_bbox := grade_box (xf_value f) (xm_bbox (xf_meta f))\<rparr>)
     (case xf_value f of
        VList rows \<Rightarrow> VList (map (\<lambda>row. let row' = visit_field n row in
          (case xf_value row' of VList subs \<Rightarrow> set_value (VList (map (visit_field n) subs)) row' | _ \<Rightarrow> row')) rows)
      | v \<Rightarrow> v)"

primrec fdepth :: "xfield \<Rightarrow> nat"
and vdepth :: "xvalue \<Rightarrow> nat" where
  "fdepth (XField m v) = Suc (vdepth v)"
| "vdepth VNone = 0"
| "vdepth (VStr s) = 0"
| "vdepth (VInt i) = 0"
| "vdepth (VFloat f) = 0"
| "vdepth (VBool b) = 0"
| "vdepth (VList fs) = foldr max (map fdepth fs) 0"

definition validate_boxes :: "xgroup list \<Rightarrow> xgroup list" where
  "validate_boxes groups = map (\<lambda>g. g\<lparr>xg_fields := map (\<lambda>f. visit_field (fdepth f) f) (xg_fields g)\<rparr>) groups"

section \<open>One visit of each field\<close>

primrec grade_once :: "xfield \<Rightarrow> xfield"
and grade_value :: "xvalue \<Rightarrow> xvalue" where
  "grade_once (XField m v) = XField (m\<lparr>xm_bbox := grade_box v (xm_bbox m)\<rparr>) (grade_value v)"
| "grade_value VNone = VNone"
| "grade_value (VStr s) = VStr s"
| "grade_value (VInt i) = VInt i"
| "grade_value (VFloat f) = VFloat f"
| "grade_value (VBool b) = VBool b"
| "grade_value (VList fs) = VList (map grade_once fs)"

lemma stamp_corners [simp]:
  "bb_xmin (stamp_box b) = bb_xmin b" "bb_xmax (stamp_box b) = bb_xmax b"
  "bb_ymin (stamp_box b) = bb_ymin b" "bb_ymax (stamp_box b) = bb_ymax b"
  "bb_source (stamp_box b) = bb_source b" "bb_refinement (stamp_box b) = bb_refinement b"
  by (simp_all add: stamp_box_def split: prod.split)

lemma margin_stamp [simp]: "margin_score (stamp_box b) = margin_score b"
  by (simp add: margin_score_def hugs_def)

lemma classify_stamp [simp]: "classify_box (stamp_box b) = classify_box b"
  unfolding classify_box_def stamp_corners margin_stamp ..

lemma stamp_eq: "classify_box b = (q, s) \<Longrightarrow> stamp_box b = b\<lparr>bb_quality := Some q, bb_score := py_round 4 (max 0 (min 1 s))\<rparr>"
  by (simp add: stamp_box_def)

lemma stamp_idem [simp]: "stamp_box (stamp_box b) = stamp_box b"
proof -
  obtain q s where qs: "classify_box b = (q, s)" by force
  then have "classify_box (stamp_box b) = (q, s)" by simp
  from stamp_eq [OF this] stamp_eq [OF qs] show ?thesis by simp
qed

lemma grade_value_none [simp]: "grade_value v = VNone \<longleftrightarrow> v = VNone"
  by (cases v) simp_all

lemma grade_box_idem [simp]: "grade_box (grade_value v) (grade_box v b) = grade_box v b"
  by (cases b) (simp_all add: grade_box_def is_zero_placeholder_def)

lemma grade_idem [simp]: "grade_once (grade_once f) = grade_once f"
  and "grade_value (grade_value v) = grade_value v"
  by (induction f and v) simp_all

lemma grade_depth [simp]: "fdepth (grade_once f) = fdepth f"
  and "vdepth (grade_value v) = vdepth v"
  by (induction f and v) (simp_all cong: map_cong)

lemma foldr_max_ge: "x \<in> set xs \<Longrightarrow> (x :: nat) \<le> foldr max xs 0"
  by (induction xs) auto

lemma row_depth: "row \<in> set rows \<Longrightarrow> vdepth (VList rows) \<le> n \<Longrightarrow> fdepth row \<le> n"
  using foldr_max_ge [of "fdepth row" "map fdepth rows"] by auto

lemma visit_field_once: "fdepth f \<le> n \<Longrightarrow> visit_field n f = grade_once f"
proof (induction n arbitrary: f)
  case 0
  then show ?case by (cases f) simp
next
  case (Suc n)
  obtain m v where f: "f = XField m v" by (cases f)
  show ?case
  proof (cases v)
    case (VList rows)
    have row: "(let row' = visit_field n row in
          (case xf_value row' of VList subs \<Rightarrow> set_value (VList (map (visit_field n) subs)) row' | _ \<Rightarrow> row')) = grade_once row"
      if "row \<in> set rows" for row
    proof -
      have d: "fdepth row \<le> n" using row_depth [OF that] Suc.prems f VList by simp
      obtain rm rv where r: "row = XField rm rv" by (cases row)
      show ?thesis
      proof (cases rv)
        case (VList subs)
        have "visit_field n (grade_once s) = grade_once s" if "s \<in> set subs" for s
        proof -
          have "fdepth s \<le> n" using row_depth [OF that, of n] d r VList by simp
          then show ?thesis using Suc.IH [of "grade_once s"] by simp
        qed
        then have "map (visit_field n) (map grade_once subs) = map grade_once subs" by simp
        with Suc.IH [OF d] r VList show ?thesis by (simp add: set_value_def)
      qed (use Suc.IH [OF d] r in simp_all)
    qed
    then show ?thesis using f VList by (simp cong: map_cong)
  qed (use f in simp_all)
qed

text \<open>C36: The validator visits the cells of nested rows more than once; each visit after the first changes
  nothing, and the outcome is that of grading every box exactly once. Running the whole pass again,
  as happens after repair and escalation, changes nothing either.\<close>

theorem boxes_graded_once:
  "validate_boxes groups = map (\<lambda>g. g\<lparr>xg_fields := map grade_once (xg_fields g)\<rparr>) groups
   \<and> validate_boxes (validate_boxes groups) = validate_boxes groups"
proof -
  have once: "validate_boxes gs = map (\<lambda>g. g\<lparr>xg_fields := map grade_once (xg_fields g)\<rparr>) gs" for gs
    by (simp add: validate_boxes_def visit_field_once)
  show ?thesis unfolding once by simp
qed

section \<open>What a grade says\<close>

primrec field_nodes :: "xfield \<Rightarrow> xfield list"
and value_nodes :: "xvalue \<Rightarrow> xfield list" where
  "field_nodes (XField m v) = XField m v # value_nodes v"
| "value_nodes VNone = []"
| "value_nodes (VStr s) = []"
| "value_nodes (VInt i) = []"
| "value_nodes (VFloat f) = []"
| "value_nodes (VBool b) = []"
| "value_nodes (VList fs) = concat (map field_nodes fs)"

lemma grade_nodes: "field_nodes (grade_once f) = map grade_once (field_nodes f)"
  and "value_nodes (grade_value v) = map grade_once (value_nodes v)"
  by (induction f and v) (simp_all add: map_concat comp_def cong: map_cong)

lemma py_round_mono_bounds:
  assumes "0 \<le> q" "q \<le> 1"
  shows "0 \<le> py_round n q \<and> py_round n q \<le> 1"
proof -
  define x where "x = q * 10 ^ n"
  define r where "r = (if x - of_int \<lfloor>x\<rfloor> < 1 / 2 then \<lfloor>x\<rfloor> else if x - of_int \<lfloor>x\<rfloor> > 1 / 2 then \<lfloor>x\<rfloor> + 1 else if even \<lfloor>x\<rfloor> then \<lfloor>x\<rfloor> else \<lfloor>x\<rfloor> + 1)"
  have x: "0 \<le> x" "x \<le> 10 ^ n" using assms by (simp_all add: x_def mult_le_cancel_right1)
  have lo: "0 \<le> \<lfloor>x\<rfloor>" using x by simp
  have "\<lfloor>x\<rfloor> \<le> \<lfloor>10 ^ n :: rat\<rfloor>" using x(2) by (rule floor_mono)
  moreover have ten: "\<lfloor>10 ^ n :: rat\<rfloor> = 10 ^ n" using floor_of_int [of "10 ^ n", where ?'a = rat] by simp
  ultimately have hi: "\<lfloor>x\<rfloor> \<le> 10 ^ n" by simp
  have "0 \<le> r \<and> r \<le> 10 ^ n"
  proof (cases "\<lfloor>x\<rfloor> = 10 ^ n")
    case True
    then have "of_int \<lfloor>x\<rfloor> = (10 ^ n :: rat)" by simp
    then have "x - of_int \<lfloor>x\<rfloor> < 1 / 2" using x(2) by simp
    then show ?thesis using lo hi by (simp add: r_def)
  qed (use lo hi in \<open>auto simp: r_def\<close>)
  then have "(0 :: rat) \<le> of_int r" "(of_int r :: rat) \<le> of_int (10 ^ n)" by (simp_all only: of_int_0_le_iff of_int_le_iff)
  moreover have "py_round n q = of_int r / 10 ^ n" by (simp only: py_round_def Let_def r_def x_def)
  ultimately show ?thesis by (simp add: divide_le_eq)
qed

text \<open>A valid box is graded \<open>good\<close>, \<open>poor\<close> or \<open>suspicious\<close>.\<close>

lemma classify_valid: "bbox_valid b \<Longrightarrow> fst (classify_box b) \<noteq> Q_INVALID"
  by (auto simp: classify_box_def bbox_valid_def Let_def not_le)

definition graded :: "xfield \<Rightarrow> bool" where
  "graded f \<longleftrightarrow> (case xm_bbox (xf_meta f) of None \<Rightarrow> True
     | Some b \<Rightarrow> xf_value f \<noteq> VNone \<and> bb_quality b = Some (fst (classify_box b)) \<and> 0 \<le> bb_score b \<and> bb_score b \<le> 1)"

lemma graded_once: "graded (grade_once f)"
proof (cases f)
  case (XField m v)
  have "0 \<le> py_round 4 (max 0 (min 1 s)) \<and> py_round 4 (max 0 (min 1 s)) \<le> 1" for s
    by (rule py_round_mono_bounds) simp_all
  moreover have "bb_quality (stamp_box b) = Some (fst (classify_box b)) \<and> bb_score (stamp_box b) = py_round 4 (max 0 (min 1 (snd (classify_box b))))" for b
    by (simp add: stamp_box_def split: prod.split)
  ultimately show ?thesis by (auto simp: XField graded_def grade_box_def split: option.splits if_splits)
qed

text \<open>After the pass every box left, at any depth, is on a field with a value, carries the verdict of its own
  geometry and a score between 0 and 1; fields, values and names are as before.\<close>

theorem boxes_graded:
  "list_all (\<lambda>g. list_all (\<lambda>f. list_all graded (field_nodes f)) (xg_fields g)) (validate_boxes groups)
   \<and> map xg_name (validate_boxes groups) = map xg_name groups
   \<and> map (\<lambda>g. map (\<lambda>f. map xf_name (field_nodes f)) (xg_fields g)) (validate_boxes groups)
     = map (\<lambda>g. map (\<lambda>f. map xf_name (field_nodes f)) (xg_fields g)) groups"
proof -
  have "xf_name (grade_once f) = xf_name f" for f by (cases f) simp
  then show ?thesis
    by (simp add: validate_boxes_def visit_field_once list_all_iff grade_nodes graded_once comp_def)
qed

text \<open>A box at the lower end of the area range is \<open>good\<close> with a score far below one half.\<close>

definition thin_box :: bounding_box where
  "thin_box = \<lparr>bb_xmin = 0, bb_ymin = 0, bb_xmax = 1 / 400, bb_ymax = 1 / 50, bb_quality = None, bb_score = 0, bb_source = None, bb_refinement = None\<rparr>"

lemma good_with_low_score: "classify_box thin_box = (Q_GOOD, 4 / 10)"
  by (simp add: classify_box_def thin_box_def Let_def area_suspicious_def area_min_def aspect_max_def area_score_def
    area_typ_min_def area_typ_max_def aspect_score_def margin_score_def hugs_def edge_epsilon_def)

end
