(* ===== verification/Orchestrator.thy ===== *)
theory Orchestrator
  imports Escalation RuleEval TransformEngine BboxCheck
begin

text \<open>
  \<open>PipelineOrchestrator\<close> (\<open>core/services/pipeline/orchestrator.py\<close>): the steps a request runs through,
  each a function on the metadata of the pipeline context, the choice of the steps, and the assembly
  of the result. The agents, the normaliser, \<open>slice_pdf\<close> and the engine that runs the steps are
  arguments. The calls of one step run concurrently; they work on different tasks, and their error
  entries are listed here in task order. Trace, usage, latency and logging are not modelled.
\<close>

section \<open>Data\<close>

record slot =
  sl_index :: nat
  sl_filename :: string
  sl_media :: string
  sl_pages :: int
  sl_bytes :: "nat list"
  sl_doctype :: "string option"
  sl_segments :: "segment list"

record normal_row =
  nr_filename :: string
  nr_derived :: "string list"
  nr_media :: string
  nr_pages :: int
  nr_bytes :: "nat list"

record transform_spec =
  tr_what :: transformation
  tr_request :: bool

record extract_request = extraction_request +
  pq_media :: "string option"
  pq_model :: "string option"
  pq_transforms :: "transform_spec list"
  pq_escalation :: "escalation_config option"

record perror =
  pe_node :: string
  pe_code :: string
  pe_about :: "string option"

record stage_settings =
  ss_splitter :: string
  ss_classifier :: string
  ss_extract :: string
  ss_visual :: string
  ss_content :: string
  ss_judge :: string
  ss_rules :: string

record pipeline_env =
  en_normalise :: "nat list \<Rightarrow> string option \<Rightarrow> string \<Rightarrow> normal_row list option"
  en_split :: "string \<Rightarrow> slot \<Rightarrow> raw_segment list option"
  en_classify :: "string \<Rightarrow> nat list \<Rightarrow> string \<Rightarrow> string \<Rightarrow> string + raw_class"
  en_slice :: slicer
  en_extract :: "string \<Rightarrow> task \<Rightarrow> (xgroup list \<times> string) option"
  en_refine :: "task \<Rightarrow> xgroup list \<times> bool"
  en_lib :: pylib
  en_visual :: "string \<Rightarrow> task \<Rightarrow> raw_visual list option"
  en_content :: "string \<Rightarrow> task \<Rightarrow> content_authenticity option"
  en_judge :: "string \<Rightarrow> task \<Rightarrow> raw_judge_groups option"
  en_repair :: "task list \<Rightarrow> nat \<Rightarrow> repair_env"
  en_finish :: "nat list"
  en_rerun :: "task list \<Rightarrow> rerun_env"
  en_rules :: "string \<Rightarrow> rule_agent"
  en_transform :: transform_env
  en_settings :: stage_settings
  en_default_model :: string
  en_repair_settings :: repair_settings
  en_repair_model :: "string option"
  en_escalation_threshold :: rat
  en_escalation_model :: "string option"

text \<open>The metadata of the context; \<open>cx_loaded\<close> and \<open>cx_planned\<close> say whether the keys \<open>files_data\<close> and
  \<open>tasks\<close> have been set.\<close>

record pctx =
  cx_loaded :: bool
  cx_planned :: bool
  cx_files :: "slot list"
  cx_tasks :: "task list"
  cx_unmatched :: "segment list"
  cx_errors :: "perror list"
  cx_rules :: "rule_result list"
  cx_repair :: "repair_info option"
  cx_escalation :: "escalation_info option"
  cx_outputs :: "xgroup list"

definition empty_ctx :: pctx where
  "empty_ctx = \<lparr>cx_loaded = False, cx_planned = False, cx_files = [], cx_tasks = [], cx_unmatched = [], cx_errors = [], cx_rules = [], cx_repair = None,
     cx_escalation = None, cx_outputs = []\<rparr>"

section \<open>Helpers\<close>

definition coalesce :: "string option \<Rightarrow> string \<Rightarrow> string" where
  "coalesce a b = (if present a then the a else b)"

definition pick_model :: "string \<Rightarrow> string \<Rightarrow> string" where
  "pick_model pinned model = (if pinned \<noteq> [] then pinned else model)"

definition request_model :: "pipeline_env \<Rightarrow> extract_request \<Rightarrow> string" where
  "request_model E rq = coalesce (pq_model rq) (en_default_model E)"

definition stage_models :: "stage_settings \<Rightarrow> string \<Rightarrow> stage_settings" where
  "stage_models s m = \<lparr>ss_splitter = pick_model (ss_splitter s) m, ss_classifier = pick_model (ss_classifier s) m,
     ss_extract = pick_model (ss_extract s) m, ss_visual = pick_model (ss_visual s) m,
     ss_content = pick_model (ss_content s) m, ss_judge = pick_model (ss_judge s) m, ss_rules = pick_model (ss_rules s) m\<rparr>"

definition models_of :: "pipeline_env \<Rightarrow> extract_request \<Rightarrow> stage_settings" where
  "models_of E rq = stage_models (en_settings E) (request_model E rq)"

definition perr :: "string \<Rightarrow> string \<Rightarrow> string option \<Rightarrow> perror" where
  "perr node code about = \<lparr>pe_node = node, pe_code = code, pe_about = about\<rparr>"

definition docs_by_type :: "extract_request \<Rightarrow> string \<Rightarrow> doc_type option" where
  "docs_by_type rq = dict_of (map (\<lambda>d. (dt_id d, d)) (rq_doc_types rq))"

definition slice_segment :: "pipeline_env \<Rightarrow> slot \<Rightarrow> segment \<Rightarrow> perror list \<times> nat list \<times> int" where
  "slice_segment E s g = (if (sg_page_start g = 1 \<and> sg_page_end g = sl_pages s) \<or> sl_media s \<noteq> pdf_type
     then ([], sl_bytes s, sl_pages s)
     else case en_slice E (sl_bytes s) (sg_page_start g) (sg_page_end g) of
       Some sliced \<Rightarrow> ([], sliced, sg_page_end g - sg_page_start g + 1)
     | None \<Rightarrow> ([perr ''pdf_slicer'' ''SLICE_ERROR''
          (Some (sl_filename s @ '':'' @ str_of_int (sg_page_start g) @ ''-'' @ str_of_int (sg_page_end g)))], sl_bytes s, sl_pages s))"

definition slice_for_segment :: "pipeline_env \<Rightarrow> slot \<Rightarrow> segment \<Rightarrow> perror list \<times> nat list" where
  "slice_for_segment E s g = (if length (sl_segments s) \<le> 1 then ([], sl_bytes s)
     else case slice_segment E s g of (es, bs, n) \<Rightarrow> (es, bs))"

section \<open>Loading and routing\<close>

definition file_rows :: "pipeline_env \<Rightarrow> extract_request \<Rightarrow> file_input \<Rightarrow> normal_row list res" where
  "file_rows E rq f = (case decoded_bytes f of Inl _ \<Rightarrow> Inl ValueErr
     | Inr bs \<Rightarrow> (case en_normalise E bs (if present (pq_media rq) then pq_media rq else f_ctype f) (f_filename f) of
         None \<Rightarrow> Inl (OtherExn ''normalise'') | Some rows \<Rightarrow> Inr rows))"

definition sole_doctype :: "extract_request \<Rightarrow> string option" where
  "sole_doctype rq = (case rq_doc_types rq of [d] \<Rightarrow> Some (dt_id d) | _ \<Rightarrow> None)"

definition effective_doctype :: "extract_request \<Rightarrow> file_input \<Rightarrow> bool \<Rightarrow> string option" where
  "effective_doctype rq f multi = (if multi then None
     else if f_expected f \<noteq> None then f_expected f
     else if \<not> st_classifier (rq_stages rq) \<and> present (sole_doctype rq) then sole_doctype rq else None)"

definition default_segment :: "slot \<Rightarrow> segment" where
  "default_segment s = \<lparr>sg_file_index = sl_index s, sg_filename = sl_filename s, sg_media_type = sl_media s, sg_page_start = 1,
     sg_page_end = sl_pages s, sg_file_pages = sl_pages s, sg_provisional = [], sg_description = [], sg_confidence = 1,
     sg_doctype = sl_doctype s, sg_classification = None, sg_pinned = (sl_doctype s \<noteq> None)\<rparr>"

definition slot_of :: "extract_request \<Rightarrow> nat \<Rightarrow> file_input \<times> bool \<times> normal_row \<Rightarrow> slot" where
  "slot_of rq i x = (case x of (f, multi, r) \<Rightarrow>
     (let s = \<lparr>sl_index = i, sl_filename = (if nr_derived r \<noteq> [] then py_join ''/'' (nr_derived r @ [nr_filename r]) else nr_filename r),
            sl_media = nr_media r, sl_pages = nr_pages r, sl_bytes = nr_bytes r,
            sl_doctype = effective_doctype rq f multi, sl_segments = []\<rparr>
      in s\<lparr>sl_segments := [default_segment s]\<rparr>))"

type_synonym step_result = "pyexn option \<times> pctx"

definition step_load :: "pipeline_env \<Rightarrow> extract_request \<Rightarrow> pctx \<Rightarrow> step_result" where
  "step_load E rq c = (case map_res (\<lambda>f. case file_rows E rq f of Inl e \<Rightarrow> Inl e
        | Inr rows \<Rightarrow> Inr (map (\<lambda>r. (f, 1 < length rows, r)) rows)) (rq_files rq) of
     Inl e \<Rightarrow> (Some e, c)
   | Inr rows \<Rightarrow> (None, c\<lparr>cx_loaded := True, cx_files := map (\<lambda>(i, x). slot_of rq i x) (List.enumerate 0 (concat rows))\<rparr>))"

definition segment_of :: "slot \<Rightarrow> discovered \<Rightarrow> segment" where
  "segment_of s d = \<lparr>sg_file_index = sl_index s, sg_filename = sl_filename s, sg_media_type = sl_media s, sg_page_start = ds_start d,
     sg_page_end = ds_end d, sg_file_pages = sl_pages s, sg_provisional = ds_provisional d, sg_description = ds_description d,
     sg_confidence = ds_confidence d, sg_doctype = None, sg_classification = None, sg_pinned = False\<rparr>"

definition discover_one :: "pipeline_env \<Rightarrow> extract_request \<Rightarrow> slot \<Rightarrow> perror list \<times> slot" where
  "discover_one E rq s = (if sl_doctype s \<noteq> None \<or> sl_pages s \<le> 1 then ([], s)
     else case discover (sl_pages s) (en_split E (ss_splitter (models_of E rq)) s) of
       None \<Rightarrow> ([perr ''discover'' ''SPLITTER_ERROR'' (Some (sl_filename s))], s)
     | Some ds \<Rightarrow> ([], if ds = [] then s else s\<lparr>sl_segments := map (segment_of s) ds\<rparr>))"

definition each_slot :: "(slot \<Rightarrow> perror list \<times> slot) \<Rightarrow> pctx \<Rightarrow> pctx" where
  "each_slot f c = c\<lparr>cx_files := map (snd \<circ> f) (cx_files c), cx_errors := cx_errors c @ concat (map (fst \<circ> f) (cx_files c))\<rparr>"

definition step_discover :: "pipeline_env \<Rightarrow> extract_request \<Rightarrow> pctx \<Rightarrow> step_result" where
  "step_discover E rq c = (None, each_slot (discover_one E rq) c)"

definition classify_one :: "pipeline_env \<Rightarrow> extract_request \<Rightarrow> slot \<Rightarrow> segment \<Rightarrow> perror list \<times> segment" where
  "classify_one E rq s g = (if sg_doctype g \<noteq> None then ([], g)
     else case slice_for_segment E s g of (es, bs) \<Rightarrow>
       (let answer = en_classify E (ss_classifier (models_of E rq)) bs (sl_media s) (sl_filename s);
            result = classify (map dt_id (rq_doc_types rq)) (case answer of Inl _ \<Rightarrow> None | Inr raw \<Rightarrow> Some raw) in
        case result of
          Some cl \<Rightarrow> (es, g\<lparr>sg_classification := Some cl,
             sg_doctype := if cl_matched cl \<and> docs_by_type rq (cl_type cl) \<noteq> None then Some (cl_type cl) else None\<rparr>)
        | None \<Rightarrow> (es @ [perr ''classify'' ''CLASSIFIER_ERROR'' (Some (sl_filename s))],
             g\<lparr>sg_classification := Some \<lparr>cl_type = unmatched, cl_confidence = 0, cl_description = [],
               cl_notes = take 200 (case answer of Inl e \<Rightarrow> e | Inr _ \<Rightarrow> []), cl_matched = False\<rparr>, sg_doctype := None\<rparr>)))"

definition classify_slot :: "pipeline_env \<Rightarrow> extract_request \<Rightarrow> slot \<Rightarrow> perror list \<times> slot" where
  "classify_slot E rq s = (concat (map (fst \<circ> classify_one E rq s) (sl_segments s)),
     s\<lparr>sl_segments := map (snd \<circ> classify_one E rq s) (sl_segments s)\<rparr>)"

definition assign_only :: "string \<Rightarrow> slot \<Rightarrow> perror list \<times> slot" where
  "assign_only only s = ([], s\<lparr>sl_segments := map (\<lambda>g. if sg_doctype g = None then g\<lparr>sg_doctype := Some only\<rparr> else g) (sl_segments s)\<rparr>)"

definition step_classifier :: "pipeline_env \<Rightarrow> extract_request \<Rightarrow> pctx \<Rightarrow> step_result" where
  "step_classifier E rq c = (None, each_slot (case sole_doctype rq of Some only \<Rightarrow> assign_only only | None \<Rightarrow> classify_slot E rq) c)"

definition task_id :: "nat \<Rightarrow> nat \<Rightarrow> string \<Rightarrow> string" where
  "task_id i j d = ''file'' @ str_of_nat i @ ''/seg'' @ str_of_nat j @ ''/'' @ d"

definition plan_segment :: "pipeline_env \<Rightarrow> extract_request \<Rightarrow> slot \<Rightarrow> nat \<times> segment \<Rightarrow> perror list \<times> (task + segment)" where
  "plan_segment E rq s x = (case x of (j, g) \<Rightarrow> (case sg_doctype g of
     None \<Rightarrow> ([], Inr g)
   | Some t \<Rightarrow> (case docs_by_type rq t of
       None \<Rightarrow> ([], Inr g)
     | Some d \<Rightarrow> (case slice_segment E s g of (es, bs, n) \<Rightarrow>
         (es, Inl \<lparr>tk_id = task_id (sl_index s) j t, tk_segment = g, tk_doc = d, tk_slice = bs, tk_pages = n, tk_groups = [],
            tk_model = None, tk_visual = [], tk_content = None\<rparr>)))))"

definition plan_slot :: "pipeline_env \<Rightarrow> extract_request \<Rightarrow> slot \<Rightarrow> (perror list \<times> (task + segment)) list" where
  "plan_slot E rq s = map (plan_segment E rq s) (List.enumerate 0 (sl_segments s))"

definition lefts :: "('a + 'b) list \<Rightarrow> 'a list" where
  "lefts xs = concat (map (\<lambda>x. case x of Inl a \<Rightarrow> [a] | Inr _ \<Rightarrow> []) xs)"

definition rights :: "('a + 'b) list \<Rightarrow> 'b list" where
  "rights xs = concat (map (\<lambda>x. case x of Inl _ \<Rightarrow> [] | Inr b \<Rightarrow> [b]) xs)"

definition step_plan_tasks :: "pipeline_env \<Rightarrow> extract_request \<Rightarrow> pctx \<Rightarrow> step_result" where
  "step_plan_tasks E rq c = (let ps = concat (map (plan_slot E rq) (cx_files c)) in
     (None, c\<lparr>cx_planned := True, cx_tasks := lefts (map snd ps), cx_unmatched := cx_unmatched c @ rights (map snd ps),
        cx_errors := cx_errors c @ concat (map fst ps)\<rparr>))"

section \<open>Working on the tasks\<close>

definition each_task :: "(task \<Rightarrow> perror list \<times> task) \<Rightarrow> pctx \<Rightarrow> pctx" where
  "each_task f c = c\<lparr>cx_tasks := map (snd \<circ> f) (cx_tasks c), cx_errors := cx_errors c @ concat (map (fst \<circ> f) (cx_tasks c))\<rparr>"

definition extract_one :: "pipeline_env \<Rightarrow> extract_request \<Rightarrow> task \<Rightarrow> perror list \<times> task" where
  "extract_one E rq t = (if tk_slice t = [] then ([], t)
     else case en_extract E (ss_extract (models_of E rq)) t of
       Some (groups, used) \<Rightarrow> ([], t\<lparr>tk_groups := groups, tk_model := Some used\<rparr>)
     | None \<Rightarrow> ([perr ''extractor'' ''EXTRACTOR_ERROR'' (Some (tk_id t))], t))"

definition step_extract :: "pipeline_env \<Rightarrow> extract_request \<Rightarrow> pctx \<Rightarrow> step_result" where
  "step_extract E rq c = (None, each_task (extract_one E rq) c)"

definition grade_task :: "task \<Rightarrow> task" where
  "grade_task t = (if tk_groups t \<noteq> [] then t\<lparr>tk_groups := validate_boxes (tk_groups t)\<rparr> else t)"

definition step_bbox_validation :: "pctx \<Rightarrow> step_result" where
  "step_bbox_validation c = (None, each_task (\<lambda>t. ([], grade_task t)) c)"

definition refine_one :: "pipeline_env \<Rightarrow> task \<Rightarrow> perror list \<times> task" where
  "refine_one E t = (if tk_groups t = [] \<or> tk_slice t = [] then ([], t)
     else case en_refine E t of (groups, raised) \<Rightarrow>
       (if raised then [perr ''bbox_refine'' ''BBOX_REFINE_ERROR'' (Some (tk_id t))] else [], t\<lparr>tk_groups := groups\<rparr>))"

definition step_bbox_refine :: "pipeline_env \<Rightarrow> pctx \<Rightarrow> step_result" where
  "step_bbox_refine E c = (None, each_task (refine_one E) c)"

text \<open>The only unguarded loop over the tasks: the first exception ends the step. What it stamped of the
  groups of the task it raised on is not modelled.\<close>

fun validate_tasks :: "pylib \<Rightarrow> task list \<Rightarrow> pyexn option \<times> task list" where
  "validate_tasks L [] = (None, [])"
| "validate_tasks L (t # ts) = (case validate_groups L (dt_groups (tk_doc t)) (tk_groups t) of
     Inl e \<Rightarrow> (Some e, t # ts)
   | Inr groups \<Rightarrow> (case validate_tasks L ts of (e, ts') \<Rightarrow> (e, t\<lparr>tk_groups := groups\<rparr> # ts')))"

definition step_field_validation :: "pipeline_env \<Rightarrow> pctx \<Rightarrow> step_result" where
  "step_field_validation E c = (case validate_tasks (en_lib E) (cx_tasks c) of (e, ts) \<Rightarrow> (e, c\<lparr>cx_tasks := ts\<rparr>))"

definition visual_one :: "pipeline_env \<Rightarrow> extract_request \<Rightarrow> task \<Rightarrow> perror list \<times> task" where
  "visual_one E rq t = (if dt_visual_checks (tk_doc t) = [] \<or> tk_slice t = [] then ([], t)
     else case visual_check (tk_doc t) (en_visual E (ss_visual (models_of E rq)) t) of
       Some vs \<Rightarrow> ([], t\<lparr>tk_visual := vs\<rparr>)
     | None \<Rightarrow> ([perr ''visual_authenticity'' ''VISUAL_AUTH_ERROR'' (Some (tk_id t))], t))"

definition step_visual_authenticity :: "pipeline_env \<Rightarrow> extract_request \<Rightarrow> pctx \<Rightarrow> step_result" where
  "step_visual_authenticity E rq c = (None, each_task (visual_one E rq) c)"

definition content_one :: "pipeline_env \<Rightarrow> extract_request \<Rightarrow> task \<Rightarrow> perror list \<times> task" where
  "content_one E rq t = (if tk_slice t = [] then ([], t)
     else case en_content E (ss_content (models_of E rq)) t of
       Some a \<Rightarrow> ([], t\<lparr>tk_content := Some a\<rparr>)
     | None \<Rightarrow> ([perr ''content_authenticity'' ''CONTENT_AUTH_ERROR'' (Some (tk_id t))], t))"

definition step_content_authenticity :: "pipeline_env \<Rightarrow> extract_request \<Rightarrow> pctx \<Rightarrow> step_result" where
  "step_content_authenticity E rq c = (None, each_task (content_one E rq) c)"

definition judge_one :: "pipeline_env \<Rightarrow> extract_request \<Rightarrow> task \<Rightarrow> perror list \<times> task" where
  "judge_one E rq t = (if tk_groups t = [] \<or> tk_slice t = [] then ([], t)
     else case run_judge (en_judge E (ss_judge (models_of E rq)) t) (tk_groups t) of
       Some groups \<Rightarrow> ([], t\<lparr>tk_groups := groups\<rparr>)
     | None \<Rightarrow> ([perr ''judge'' ''JUDGE_ERROR'' (Some (tk_id t))], t))"

definition step_judge :: "pipeline_env \<Rightarrow> extract_request \<Rightarrow> pctx \<Rightarrow> step_result" where
  "step_judge E rq c = (None, each_task (judge_one E rq) c)"

definition step_repair :: "pipeline_env \<Rightarrow> extract_request \<Rightarrow> pctx \<Rightarrow> step_result" where
  "step_repair E rq c = (case maybe_repair (en_repair_settings E) (en_repair E (cx_tasks c)) (st_judge (rq_stages rq))
       (Some (coalesce (en_repair_model E) (request_model E rq))) (en_finish E) (cx_tasks c) of
     (None, ts) \<Rightarrow> (None, c\<lparr>cx_tasks := ts\<rparr>)
   | (Some info, ts) \<Rightarrow> (None, c\<lparr>cx_repair := Some info, cx_tasks := if ri_repaired info \<noteq> 0 then map grade_task ts else ts\<rparr>))"

definition with_groups :: "per_doc \<Rightarrow> task \<Rightarrow> task" where
  "with_groups d t = t\<lparr>tk_groups := case map_of d (tk_id t) of Some gs \<Rightarrow> gs | None \<Rightarrow> tk_groups t\<rparr>"

definition with_model :: "(string \<times> string) list \<Rightarrow> task \<Rightarrow> task" where
  "with_model ms t = t\<lparr>tk_model := case map_of ms (tk_id t) of Some m \<Rightarrow> Some m | None \<Rightarrow> tk_model t\<rparr>"

text \<open>What a second run that is not accepted has changed, it has changed in the groups of the tasks.\<close>

definition step_judge_escalation :: "pipeline_env \<Rightarrow> extract_request \<Rightarrow> pctx \<Rightarrow> step_result" where
  "step_judge_escalation E rq c = (let ts = cx_tasks c; old = map (\<lambda>t. (tk_id t, tk_groups t)) ts;
       used = map (\<lambda>t. (tk_id t, coalesce (tk_model t) (request_model E rq))) ts in
     case maybe_escalate (pq_escalation rq) (en_escalation_threshold E) (en_escalation_model E) (Some (request_model E rq))
        (en_rerun E ts) old (map (\<lambda>t. (tk_id t, tk_slice t)) ts) used of
       NotTriggered \<Rightarrow> (None, c)
     | RateOutOfRange d \<Rightarrow> (None, c\<lparr>cx_tasks := map (with_groups d) ts,
          cx_errors := cx_errors c @ [perr ''judge_escalation'' ''ESCALATION_ERROR'' None]\<rparr>)
     | Escalated info d ms \<Rightarrow> (None, c\<lparr>cx_escalation := Some info,
          cx_tasks := if ei_accepted info then map (grade_task \<circ> with_model ms \<circ> with_groups d) ts else map (with_groups d) ts\<rparr>))"

section \<open>Transformations and rules\<close>

definition transform_task :: "transform_env \<Rightarrow> transformation \<Rightarrow> task \<Rightarrow> task" where
  "transform_task T w t = (if tk_groups t = [] then t else t\<lparr>tk_groups := snd (apply_to_task T w (tk_groups t))\<rparr>)"

definition transform_one :: "transform_env \<Rightarrow> transform_spec \<Rightarrow> pctx \<Rightarrow> step_result" where
  "transform_one T s c = (if tr_request s
     then (let ts = filter (\<lambda>t. tk_groups t \<noteq> []) (cx_tasks c) in
       case apply_request_scope T (tr_what s) (map tk_groups ts) (Some (map (\<lambda>t. Some (sg_filename (tk_segment t))) ts)) of
         Inl e \<Rightarrow> (Some e, c)
       | Inr None \<Rightarrow> (None, c)
       | Inr (Some g) \<Rightarrow> (None, c\<lparr>cx_outputs := cx_outputs c @ [g]\<rparr>))
     else (None, c\<lparr>cx_tasks := map (transform_task T (tr_what s)) (cx_tasks c)\<rparr>))"

fun run_transforms :: "transform_env \<Rightarrow> transform_spec list \<Rightarrow> pctx \<Rightarrow> step_result" where
  "run_transforms T [] c = (None, c)"
| "run_transforms T (s # ss) c = (case transform_one T s c of (Some e, c') \<Rightarrow> (Some e, c') | (None, c') \<Rightarrow> run_transforms T ss c')"

definition step_transform :: "pipeline_env \<Rightarrow> extract_request \<Rightarrow> pctx \<Rightarrow> step_result" where
  "step_transform E rq c = run_transforms (en_transform E) (pq_transforms rq) c"

definition by_doc :: "(task \<Rightarrow> 'a list) \<Rightarrow> task list \<Rightarrow> string \<Rightarrow> 'a list" where
  "by_doc f ts d = concat (map f (filter (\<lambda>t. dt_id (tk_doc t) = d) ts))"

definition step_rules :: "pipeline_env \<Rightarrow> extract_request \<Rightarrow> pctx \<Rightarrow> step_result" where
  "step_rules E rq c =
     (case evaluate_rules (rq_rules rq)
         (\<lambda>active. documents_context active (rq_doc_types rq) (by_doc tk_groups (cx_tasks c)) (by_doc tk_visual (cx_tasks c)))
         (en_rules E (ss_rules (models_of E rq))) of
        Some (Evaluated rs, calls) \<Rightarrow> (None, c\<lparr>cx_rules := rs\<rparr>)
      | _ \<Rightarrow> (None, c\<lparr>cx_rules := [], cx_errors := cx_errors c @ [perr ''rule_engine'' ''RULE_ENGINE_ERROR'' None]\<rparr>))"

section \<open>The chain\<close>

definition stage_chain :: "extract_request \<Rightarrow> string list" where
  "stage_chain rq = (let s = rq_stages rq in
     [''load'']
     @ (if st_splitter s \<and> list_ex (\<lambda>f. \<not> present (f_expected f)) (rq_files rq) then [''discover''] else [])
     @ (if st_classifier s then [''classify''] else [])
     @ [''plan_tasks'', ''extract'', ''bbox_validation'']
     @ (if st_bbox_refine s then [''bbox_refine''] else [])
     @ (if st_field_validation s then [''field_validation''] else [])
     @ (if st_visual_authenticity s then [''visual_authenticity''] else [])
     @ (if st_content_authenticity s then [''content_authenticity''] else [])
     @ (if st_judge s then [''judge''] else [])
     @ (if st_repair s \<and> (st_judge s \<or> st_field_validation s) then [''repair''] else [])
     @ (if st_judge s \<and> st_judge_escalation s then [''judge_escalation''] else [])
     @ (if st_transform s \<and> pq_transforms rq \<noteq> [] then [''transform''] else [])
     @ (if st_rule_engine s \<and> rq_rules rq \<noteq> [] then [''rules''] else [])
     @ [''assemble''])"

text \<open>A step that reads \<open>files_data\<close> or \<open>tasks\<close> before it is set raises \<open>KeyError\<close>; repair asks with \<open>get\<close>.\<close>

definition missing_key :: "string \<Rightarrow> pctx \<Rightarrow> bool" where
  "missing_key n c = (if n \<in> set [''discover'', ''classify'', ''plan_tasks''] then \<not> cx_loaded c
     else n \<notin> set [''load'', ''repair'', ''assemble''] \<and> \<not> cx_planned c)"

definition run_node :: "pipeline_env \<Rightarrow> extract_request \<Rightarrow> string \<Rightarrow> pctx \<Rightarrow> step_result" where
  "run_node E rq n c =
     (if missing_key n c then (Some (OtherExn ''KeyError''), c)
      else if n = ''load'' then step_load E rq c
      else if n = ''discover'' then step_discover E rq c
      else if n = ''classify'' then step_classifier E rq c
      else if n = ''plan_tasks'' then step_plan_tasks E rq c
      else if n = ''extract'' then step_extract E rq c
      else if n = ''bbox_validation'' then step_bbox_validation c
      else if n = ''bbox_refine'' then step_bbox_refine E c
      else if n = ''field_validation'' then step_field_validation E c
      else if n = ''visual_authenticity'' then step_visual_authenticity E rq c
      else if n = ''content_authenticity'' then step_content_authenticity E rq c
      else if n = ''judge'' then step_judge E rq c
      else if n = ''repair'' then step_repair E rq c
      else if n = ''judge_escalation'' then step_judge_escalation E rq c
      else if n = ''transform'' then step_transform E rq c
      else if n = ''rules'' then step_rules E rq c
      else (None, c))"

section \<open>The result\<close>

definition pages_range :: "int \<Rightarrow> int \<Rightarrow> int list" where
  "pages_range a b = (if b < a then [] else [a..b])"

record document =
  do_type :: string
  do_source :: string
  do_pages :: "int list"
  do_description :: string
  do_confidence :: rat
  do_notes :: "string option"
  do_groups :: "xgroup list"
  do_visual :: "visual_result list"
  do_content :: "content_authenticity option"

definition segment_description :: "segment \<Rightarrow> doc_type \<Rightarrow> string" where
  "segment_description g d = (case sg_classification g of
     Some cl \<Rightarrow> if cl_description cl \<noteq> [] then cl_description cl
       else if sg_description g \<noteq> [] then sg_description g else coalesce (dt_description d) []
   | None \<Rightarrow> if sg_description g \<noteq> [] then sg_description g else coalesce (dt_description d) [])"

definition segment_confidence :: "segment \<Rightarrow> rat" where
  "segment_confidence g = (case sg_classification g of
     Some cl \<Rightarrow> if cl_matched cl then cl_confidence cl else if sg_pinned g then 1 else sg_confidence g
   | None \<Rightarrow> if sg_pinned g then 1 else sg_confidence g)"

definition task_document :: "task \<Rightarrow> document" where
  "task_document t = (let g = tk_segment t in
     \<lparr>do_type = dt_id (tk_doc t), do_source = sg_filename g, do_pages = pages_range (sg_page_start g) (sg_page_end g),
      do_description = segment_description g (tk_doc t), do_confidence = segment_confidence g, do_notes = None,
      do_groups = tk_groups t, do_visual = tk_visual t, do_content = tk_content t\<rparr>)"

definition discovered_document :: "segment \<Rightarrow> document" where
  "discovered_document g =
     \<lparr>do_type = unmatched, do_source = sg_filename g, do_pages = pages_range (sg_page_start g) (sg_page_end g),
      do_description = (case sg_classification g of Some cl \<Rightarrow> cl_description cl | None \<Rightarrow> sg_description g),
      do_confidence = (case sg_classification g of Some cl \<Rightarrow> cl_confidence cl | None \<Rightarrow> sg_confidence g),
      do_notes = (case sg_classification g of Some cl \<Rightarrow> Some (cl_notes cl) | None \<Rightarrow> None),
      do_groups = [], do_visual = [], do_content = None\<rparr>"

record file_summary =
  fi_filename :: string
  fi_media :: string
  fi_pages :: int
  fi_bytes :: nat
  fi_type :: "string option"
  fi_classification :: "classification option"

definition file_info :: "slot \<Rightarrow> file_summary" where
  "file_info s = (let one = (length (sl_segments s) = 1) in
     \<lparr>fi_filename = sl_filename s, fi_media = sl_media s, fi_pages = sl_pages s, fi_bytes = length (sl_bytes s),
      fi_type = (if one then sg_doctype (hd (sl_segments s)) else None),
      fi_classification = (if one then sg_classification (hd (sl_segments s)) else None)\<rparr>)"

record extraction_result =
  er_partial :: bool
  er_files :: "file_summary list"
  er_documents :: "document list"
  er_discovered :: "document list"
  er_rules :: "rule_result list"
  er_outputs :: "xgroup list"
  er_model :: string
  er_errors :: "perror list"
  er_escalation :: "escalation_info option"
  er_repair :: "repair_info option"

definition used_models :: "task list \<Rightarrow> string list" where
  "used_models ts = sort (remdups (concat (map (\<lambda>t. if present (tk_model t) then [the (tk_model t)] else []) ts)))"

definition build_result :: "pipeline_env \<Rightarrow> extract_request \<Rightarrow> pctx \<Rightarrow> extraction_result" where
  "build_result E rq c =
     \<lparr>er_partial = (list_ex (\<lambda>t. tk_groups t = []) (cx_tasks c) \<or> cx_errors c \<noteq> []),
      er_files = map file_info (cx_files c), er_documents = map task_document (cx_tasks c),
      er_discovered = map discovered_document (cx_unmatched c), er_rules = cx_rules c, er_outputs = cx_outputs c,
      er_model = (if used_models (cx_tasks c) \<noteq> [] then py_join '','' (used_models (cx_tasks c)) else request_model E rq),
      er_errors = cx_errors c, er_escalation = cx_escalation c, er_repair = cx_repair c\<rparr>"

text \<open>\<open>_execute_inner\<close>: the engine is given the nodes in chain order and returns the context it leaves.\<close>

type_synonym engine = "(string \<Rightarrow> pctx \<Rightarrow> step_result) \<Rightarrow> string list \<Rightarrow> pctx \<Rightarrow> pctx"

definition execute :: "engine \<Rightarrow> pipeline_env \<Rightarrow> extract_request \<Rightarrow> extraction_result" where
  "execute run E rq = build_result E rq (run (run_node E rq) (stage_chain rq) empty_ctx)"

end
