(* ===== verification/PipelineRuns.thy ===== *)
theory PipelineRuns
  imports Orchestrator
begin

text \<open>
  Runs of the pipeline: what the engine may do with the chain of nodes, the part of the context the
  later nodes leave alone, and the properties of a whole run.
\<close>

section \<open>Engines\<close>

text \<open>What is assumed of the engine: it executes nodes of the chain in chain order, each at most once, on the
  context the previous one left. It may stop or skip at a node that raises, or go on.\<close>

definition runs_in_order :: "engine \<Rightarrow> bool" where
  "runs_in_order run \<longleftrightarrow> (\<forall>steps chain c. \<exists>ns. subseq ns chain \<and> run steps chain c = foldl (\<lambda>c n. snd (steps n c)) c ns)"

fun run_until_error :: "engine" where
  "run_until_error steps [] c = c"
| "run_until_error steps (n # ns) c = (case steps n c of (None, c') \<Rightarrow> run_until_error steps ns c' | (Some e, c') \<Rightarrow> c')"

definition run_all :: engine where
  "run_all steps chain c = foldl (\<lambda>c n. snd (steps n c)) c chain"

lemma run_until_error_ok: "runs_in_order run_until_error"
  unfolding runs_in_order_def
proof (intro allI)
  fix steps chain and c :: pctx
  show "\<exists>ns. subseq ns chain \<and> run_until_error steps chain c = foldl (\<lambda>c n. snd (steps n c)) c ns"
  proof (induction chain arbitrary: c)
    case (Cons n chain)
    obtain e c' where s: "steps n c = (e, c')" by force
    show ?case
    proof (cases e)
      case None
      with Cons.IH [of c'] obtain ns where "subseq ns chain" "run_until_error steps chain c' = foldl (\<lambda>c n. snd (steps n c)) c' ns" by auto
      with s None show ?thesis by (intro exI [of _ "n # ns"]) simp
    next
      case (Some x)
      with s show ?thesis by (intro exI [of _ "[n]"]) simp
    qed
  qed (intro exI [of _ "[]"], simp)
qed

lemma run_all_ok: "runs_in_order run_all"
  unfolding runs_in_order_def run_all_def by blast

definition run_nodes :: "pipeline_env \<Rightarrow> extract_request \<Rightarrow> string list \<Rightarrow> pctx \<Rightarrow> pctx" where
  "run_nodes E rq ns c = foldl (\<lambda>c n. snd (run_node E rq n c)) c ns"

lemma run_nodes_simps [simp]:
  "run_nodes E rq [] c = c" "run_nodes E rq (n # ns) c = run_nodes E rq ns (snd (run_node E rq n c))"
  "run_nodes E rq (ns @ ms) c = run_nodes E rq ms (run_nodes E rq ns c)"
  by (simp_all add: run_nodes_def)

section \<open>What the later nodes leave alone\<close>

definition task_frame :: "task \<Rightarrow> string \<times> segment \<times> doc_type \<times> nat list \<times> int" where
  "task_frame t = (tk_id t, tk_segment t, tk_doc t, tk_slice t, tk_pages t)"

definition routing :: "pctx \<Rightarrow> slot list \<times> segment list \<times> (string \<times> segment \<times> doc_type \<times> nat list \<times> int) list" where
  "routing c = (cx_files c, cx_unmatched c, map task_frame (cx_tasks c))"

named_theorems frame_simps \<open>the frame of a task is kept\<close>

lemma each_task_routing [frame_simps]: "(\<And>t. task_frame (snd (f t)) = task_frame t) \<Longrightarrow> routing (each_task f c) = routing c"
  by (simp add: routing_def each_task_def)

lemma task_frames [frame_simps]:
  "task_frame (snd (extract_one E rq t)) = task_frame t" "task_frame (grade_task t) = task_frame t"
  "task_frame (snd (refine_one E t)) = task_frame t" "task_frame (snd (visual_one E rq t)) = task_frame t"
  "task_frame (snd (content_one E rq t)) = task_frame t" "task_frame (snd (judge_one E rq t)) = task_frame t"
  "task_frame (with_groups d t) = task_frame t" "task_frame (with_model ms t) = task_frame t"
  "task_frame (transform_task T w t) = task_frame t" "task_frame (apply_outcome out t) = task_frame t"
  by (simp_all add: task_frame_def extract_one_def grade_task_def refine_one_def visual_one_def content_one_def judge_one_def
      with_groups_def with_model_def transform_task_def apply_outcome_def split: option.split prod.split repair_outcome.split)

lemma validate_tasks_frame [frame_simps]: "map task_frame (snd (validate_tasks L ts)) = map task_frame ts"
  by (induction ts) (auto simp: task_frame_def split: sum.split prod.split)

lemma map2_frame: "length outs = length ts \<Longrightarrow> map task_frame (map2 apply_outcome outs ts) = map task_frame ts"
  by (induction outs ts rule: list_induct2) (simp_all add: frame_simps)

lemma maybe_repair_frame [frame_simps]: "map task_frame (snd (maybe_repair cfg env judged model finish ts)) = map task_frame ts"
  using map2_frame [of "map (\<lambda>(i, t). repair_task cfg (env i) judged t) (enumerate 0 ts)" ts]
  by (simp add: maybe_repair_def Let_def)

lemma run_transforms_routing [frame_simps]: "routing (snd (run_transforms T ss c)) = routing c"
proof (induction ss arbitrary: c)
  case (Cons s ss)
  have "routing (snd (transform_one T s c)) = routing c"
    by (auto simp: transform_one_def Let_def routing_def frame_simps split: sum.split option.split)
  with Cons.IH show ?case by (cases "transform_one T s c") (auto split: option.split)
qed simp

definition routing_node :: "string \<Rightarrow> bool" where
  "routing_node n \<longleftrightarrow> n \<in> set [''load'', ''discover'', ''classify'', ''plan_tasks'']"

lemma later_routing:
  assumes "\<not> routing_node n"
  shows "routing (snd (run_node E rq n c)) = routing c"
proof -
  have repair: "routing (snd (step_repair E rq c)) = routing c"
  proof -
    obtain info ts where r: "maybe_repair (en_repair_settings E) (en_repair E (cx_tasks c)) (st_judge (rq_stages rq))
       (Some (coalesce (en_repair_model E) (request_model E rq))) (en_finish E) (cx_tasks c) = (info, ts)" by force
    from maybe_repair_frame [of "en_repair_settings E" "en_repair E (cx_tasks c)" "st_judge (rq_stages rq)"
       "Some (coalesce (en_repair_model E) (request_model E rq))" "en_finish E" "cx_tasks c"] r
    have "map task_frame ts = map task_frame (cx_tasks c)" by simp
    with r show ?thesis by (cases info) (simp_all add: step_repair_def routing_def frame_simps comp_def)
  qed
  have validation: "routing (snd (step_field_validation E c)) = routing c"
    using validate_tasks_frame [of "en_lib E" "cx_tasks c"]
    by (cases "validate_tasks (en_lib E) (cx_tasks c)") (simp add: step_field_validation_def routing_def)
  have escalation: "routing (snd (step_judge_escalation E rq c)) = routing c"
    by (simp add: step_judge_escalation_def Let_def routing_def frame_simps comp_def split: escalation_outcome.split)
  have rules: "routing (snd (step_rules E rq c)) = routing c"
    by (auto simp: step_rules_def routing_def split: option.split prod.split eval_outcome.split)
  show ?thesis
    using assms
    by (simp add: run_node_def routing_node_def repair validation escalation rules step_extract_def step_bbox_validation_def
        step_bbox_refine_def step_visual_authenticity_def step_content_authenticity_def step_judge_def step_transform_def frame_simps)
qed

lemma later_nodes_routing: "list_all (\<lambda>n. \<not> routing_node n) ns \<Longrightarrow> routing (run_nodes E rq ns c) = routing c"
  by (induction ns arbitrary: c) (simp_all add: later_routing)

section \<open>Task ids\<close>

lemma until_slash: "takeWhile (\<lambda>c. c \<noteq> CHR ''/'') (str_of_nat n @ CHR ''/'' # s) = str_of_nat n"
proof -
  have "c \<noteq> CHR ''/''" if "c \<in> set (str_of_nat n)" for c
    using str_of_nat_digits [of n] that by (auto simp: list_all_iff is_digit_def code_point_def)
  then show ?thesis by (simp add: takeWhile_append2)
qed

lemma number_slash:
  assumes a: "str_of_nat m @ CHR ''/'' # s = str_of_nat n @ CHR ''/'' # t"
  shows "m = n" and "s = t"
proof -
  from a have "takeWhile (\<lambda>c. c \<noteq> CHR ''/'') (str_of_nat m @ CHR ''/'' # s) = takeWhile (\<lambda>c. c \<noteq> CHR ''/'') (str_of_nat n @ CHR ''/'' # t)"
    by (rule arg_cong)
  then have eq: "str_of_nat m = str_of_nat n" unfolding until_slash .
  then have "int_of_str (str_of_nat m) = int_of_str (str_of_nat n)" by (rule arg_cong)
  then show "m = n" unfolding int_of_str_nat .
  from a show "s = t" unfolding eq same_append_eq list.inject by blast
qed

lemma task_id_inj:
  assumes "task_id i j d = task_id i' j' d'"
  shows "i = i' \<and> j = j'"
proof -
  have a: "str_of_nat i @ CHR ''/'' # ''seg'' @ str_of_nat j @ CHR ''/'' # d
      = str_of_nat i' @ CHR ''/'' # ''seg'' @ str_of_nat j' @ CHR ''/'' # d'" using assms by (simp add: task_id_def)
  from number_slash(2) [OF a] have b: "str_of_nat j @ CHR ''/'' # d = str_of_nat j' @ CHR ''/'' # d'" by simp
  from number_slash(1) [OF a] number_slash(1) [OF b] show ?thesis by blast
qed

section \<open>Routing\<close>

lemma lefts_simps [simp]: "lefts [] = []" "lefts (Inl a # xs) = a # lefts xs" "lefts (Inr b # xs) = lefts xs" "lefts (xs @ ys) = lefts xs @ lefts ys"
  by (simp_all add: lefts_def)

lemma rights_simps [simp]: "rights [] = []" "rights (Inl a # xs) = rights xs" "rights (Inr b # xs) = b # rights xs" "rights (xs @ ys) = rights xs @ rights ys"
  by (simp_all add: rights_def)

definition planned :: "extract_request \<Rightarrow> segment \<Rightarrow> bool" where
  "planned rq g \<longleftrightarrow> (case sg_doctype g of None \<Rightarrow> False | Some t \<Rightarrow> docs_by_type rq t \<noteq> None)"

lemma plan_segment_cases:
  "(\<exists>t. snd (plan_segment E rq s (j, g)) = Inl t \<and> tk_segment t = g \<and> planned rq g \<and> tk_id t = task_id (sl_index s) j (the (sg_doctype g))
      \<and> docs_by_type rq (the (sg_doctype g)) = Some (tk_doc t) \<and> (tk_slice t, tk_pages t) = snd (slice_segment E s g))
   \<or> snd (plan_segment E rq s (j, g)) = Inr g \<and> \<not> planned rq g"
  by (auto simp: plan_segment_def planned_def split: option.split prod.split)

lemma plan_slot_split:
  "map tk_segment (lefts (map (snd \<circ> plan_segment E rq s) (List.enumerate k gs))) = filter (planned rq) gs
   \<and> rights (map (snd \<circ> plan_segment E rq s) (List.enumerate k gs)) = filter (\<lambda>g. \<not> planned rq g) gs"
proof (induction gs arbitrary: k)
  case (Cons g gs)
  with Cons.IH [of "Suc k"] plan_segment_cases [of E rq s k g] show ?case by auto
qed simp

lemma plan_slot_ids:
  "\<exists>js ds. map tk_id (lefts (map (snd \<circ> plan_segment E rq s) (List.enumerate k gs))) = map (\<lambda>(j, d). task_id (sl_index s) j d) (zip js ds)
     \<and> length js = length ds \<and> sorted_wrt (<) js \<and> list_all (\<lambda>j. k \<le> j) js"
proof (induction gs arbitrary: k)
  case Nil
  then show ?case by (intro exI [of _ "[]"]) simp
next
  case (Cons g gs)
  from Cons.IH [of "Suc k"] obtain js ds where
    ih: "map tk_id (lefts (map (snd \<circ> plan_segment E rq s) (List.enumerate (Suc k) gs))) = map (\<lambda>(j, d). task_id (sl_index s) j d) (zip js ds)"
      "length js = length ds" "sorted_wrt (<) js" "list_all (\<lambda>j. Suc k \<le> j) js" by blast
  from plan_segment_cases [of E rq s k g] show ?case
  proof
    assume "\<exists>t. snd (plan_segment E rq s (k, g)) = Inl t \<and> tk_segment t = g \<and> planned rq g \<and> tk_id t = task_id (sl_index s) k (the (sg_doctype g))
      \<and> docs_by_type rq (the (sg_doctype g)) = Some (tk_doc t) \<and> (tk_slice t, tk_pages t) = snd (slice_segment E s g)"
    with ih show ?thesis
      by (intro exI [of _ "k # js"] exI [of _ "the (sg_doctype g) # ds"]) (auto simp: list_all_iff comp_def)
  next
    assume "snd (plan_segment E rq s (k, g)) = Inr g \<and> \<not> planned rq g"
    with ih show ?thesis by (intro exI [of _ js] exI [of _ ds]) (auto simp: list_all_iff comp_def)
  qed
qed

lemma zip_ids_distinct: "sorted_wrt (<) (js :: nat list) \<Longrightarrow> length js = length ds \<Longrightarrow> distinct (map (\<lambda>(j, d). task_id i j d) (zip js ds))"
proof (induction js ds rule: list_induct2')
  case (4 j js d ds)
  have "task_id i j d \<noteq> task_id i j' d'" if "(j', d') \<in> set (zip js ds)" for j' d'
  proof -
    from that have "j' \<in> set js" by (rule set_zip_leftD)
    with 4(2) have "j \<noteq> j'" by auto
    then show ?thesis using task_id_inj by blast
  qed
  with 4 show ?case by auto
qed simp_all

definition slot_tasks :: "pipeline_env \<Rightarrow> extract_request \<Rightarrow> slot \<Rightarrow> task list" where
  "slot_tasks E rq s = lefts (map snd (plan_slot E rq s))"

lemma plan_tasks_of: "cx_tasks (snd (step_plan_tasks E rq c)) = concat (map (slot_tasks E rq) (cx_files c))"
proof -
  have "lefts (map snd (concat (map (plan_slot E rq) fs))) = concat (map (slot_tasks E rq) fs)" for fs
    by (induction fs) (simp_all add: slot_tasks_def)
  then show ?thesis by (simp add: step_plan_tasks_def Let_def)
qed

lemma plan_unmatched: "cx_unmatched (snd (step_plan_tasks E rq c)) = cx_unmatched c @ filter (\<lambda>g. \<not> planned rq g) (concat (map sl_segments (cx_files c)))"
proof -
  have "rights (map snd (concat (map (plan_slot E rq) fs))) = filter (\<lambda>g. \<not> planned rq g) (concat (map sl_segments fs))" for fs
  proof (induction fs)
    case (Cons s fs)
    with plan_slot_split [of E rq s 0 "sl_segments s"] show ?case by (simp add: plan_slot_def)
  qed simp
  then show ?thesis by (simp add: step_plan_tasks_def Let_def)
qed

lemma slot_tasks_segments: "map tk_segment (slot_tasks E rq s) = filter (planned rq) (sl_segments s)"
  using plan_slot_split [of E rq s 0 "sl_segments s"] by (simp add: slot_tasks_def plan_slot_def)

lemma plan_segments: "map tk_segment (cx_tasks (snd (step_plan_tasks E rq c))) = filter (planned rq) (concat (map sl_segments (cx_files c)))"
proof -
  have "map tk_segment (concat (map (slot_tasks E rq) fs)) = filter (planned rq) (concat (map sl_segments fs))" for fs
    by (induction fs) (simp_all add: slot_tasks_segments)
  then show ?thesis by (simp add: plan_tasks_of)
qed

lemma slot_tasks_ids:
  obtains js ds where "map tk_id (slot_tasks E rq s) = map (\<lambda>(j, d). task_id (sl_index s) j d) (zip js ds)" "length js = length ds" "sorted_wrt (<) js"
  using plan_slot_ids [of E rq s 0 "sl_segments s"] unfolding slot_tasks_def plan_slot_def map_map by blast

lemma plan_ids_distinct:
  assumes "distinct (map sl_index (cx_files c))"
  shows "distinct (map tk_id (cx_tasks (snd (step_plan_tasks E rq c))))"
proof -
  have own: "x \<in> tk_id ` set (slot_tasks E rq s) \<Longrightarrow> \<exists>j d. x = task_id (sl_index s) j d" for x s
  proof -
    assume a: "x \<in> tk_id ` set (slot_tasks E rq s)"
    obtain js ds where "map tk_id (slot_tasks E rq s) = map (\<lambda>(j, d). task_id (sl_index s) j d) (zip js ds)" by (rule slot_tasks_ids)
    then have "tk_id ` set (slot_tasks E rq s) = (\<lambda>(j, d). task_id (sl_index s) j d) ` set (zip js ds)" by (metis set_map)
    with a show ?thesis by auto
  qed
  have "distinct (map sl_index fs) \<Longrightarrow> distinct (map tk_id (concat (map (slot_tasks E rq) fs)))" for fs
  proof (induction fs)
    case (Cons s fs)
    have "distinct (map tk_id (slot_tasks E rq s))"
    proof -
      obtain js ds where "map tk_id (slot_tasks E rq s) = map (\<lambda>(j, d). task_id (sl_index s) j d) (zip js ds)" "length js = length ds" "sorted_wrt (<) js"
        by (rule slot_tasks_ids)
      then show ?thesis using zip_ids_distinct [of js ds "sl_index s"] by simp
    qed
    moreover have "tk_id ` set (slot_tasks E rq s) \<inter> tk_id ` set (concat (map (slot_tasks E rq) fs)) = {}"
    proof (rule ccontr)
      assume "tk_id ` set (slot_tasks E rq s) \<inter> tk_id ` set (concat (map (slot_tasks E rq) fs)) \<noteq> {}"
      then obtain x s' where "x \<in> tk_id ` set (slot_tasks E rq s)" "s' \<in> set fs" "x \<in> tk_id ` set (slot_tasks E rq s')" by auto
      with own [of x s] own [of x s'] task_id_inj have "sl_index s = sl_index s'" by metis
      with Cons.prems \<open>s' \<in> set fs\<close> show False by auto
    qed
    ultimately show ?case using Cons by (simp add: image_Un)
  qed simp
  with assms show ?thesis by (simp add: plan_tasks_of)
qed

section \<open>Whole runs\<close>

lemma subseq_split:
  assumes "subseq ns (xs @ [x] @ ys)"
  obtains us vs where "subseq us xs" "subseq vs ys" "ns = us @ vs \<or> ns = us @ [x] @ vs"
proof -
  from assms obtain us ws where "ns = us @ ws" "subseq us xs" "subseq ws (x # ys)" by (auto elim: subseq_appendE)
  moreover from this(3) obtain vs where "subseq vs ys" "ws = vs \<or> ws = x # vs" by (cases ws) (auto split: if_splits)
  ultimately show thesis using that by auto
qed

definition front_nodes :: "extract_request \<Rightarrow> string list" where
  "front_nodes rq = takeWhile (\<lambda>n. n \<noteq> ''plan_tasks'') (stage_chain rq)"

definition back_nodes :: "extract_request \<Rightarrow> string list" where
  "back_nodes rq = tl (dropWhile (\<lambda>n. n \<noteq> ''plan_tasks'') (stage_chain rq))"

lemma chain_split: "stage_chain rq = front_nodes rq @ [''plan_tasks''] @ back_nodes rq"
  by (simp add: front_nodes_def back_nodes_def stage_chain_def Let_def)

lemma front_set: "set (front_nodes rq) \<subseteq> {''load'', ''discover'', ''classify''}"
  by (auto simp: front_nodes_def stage_chain_def Let_def)

lemma back_later: "list_all (\<lambda>n. \<not> routing_node n) (back_nodes rq)"
  by (simp add: back_nodes_def stage_chain_def Let_def routing_node_def)

text \<open>A run is a part of the front nodes, possibly the planning, and a part of the later nodes.\<close>

lemma run_shape:
  assumes "runs_in_order run"
  obtains us vs where "set us \<subseteq> {''load'', ''discover'', ''classify''}" "list_all (\<lambda>n. \<not> routing_node n) vs"
    "run (run_node E rq) (stage_chain rq) empty_ctx = run_nodes E rq (us @ vs) empty_ctx
     \<or> run (run_node E rq) (stage_chain rq) empty_ctx = run_nodes E rq (us @ [''plan_tasks''] @ vs) empty_ctx"
proof -
  from assms obtain ns where ns: "subseq ns (stage_chain rq)" "run (run_node E rq) (stage_chain rq) empty_ctx = run_nodes E rq ns empty_ctx"
    unfolding runs_in_order_def run_nodes_def by blast
  from ns(1) chain_split [of rq] have "subseq ns (front_nodes rq @ [''plan_tasks''] @ back_nodes rq)" by simp
  then obtain us vs where "subseq us (front_nodes rq)" "subseq vs (back_nodes rq)" "ns = us @ vs \<or> ns = us @ [''plan_tasks''] @ vs"
    by (rule subseq_split)
  moreover from this(1) have "set us \<subseteq> {''load'', ''discover'', ''classify''}" using front_set [of rq] subseq_mem by fastforce
  moreover from \<open>subseq vs (back_nodes rq)\<close> have "list_all (\<lambda>n. \<not> routing_node n) vs"
    using back_later [of rq] subseq_mem by (fastforce simp: list_all_iff)
  ultimately show thesis using that ns(2) by blast
qed

definition before_plan :: "pctx \<Rightarrow> bool" where
  "before_plan c \<longleftrightarrow> cx_tasks c = [] \<and> cx_unmatched c = [] \<and> distinct (map sl_index (cx_files c))"

lemma slot_indices [simp]: "sl_index (snd (discover_one E rq s)) = sl_index s" "sl_index (snd (classify_slot E rq s)) = sl_index s"
    "sl_index (snd (assign_only t s)) = sl_index s" "sl_index (slot_of rq i x) = i"
  by (auto simp: discover_one_def classify_slot_def assign_only_def slot_of_def Let_def split: option.split prod.split)

lemma indices_enumerate: "map sl_index (map (\<lambda>(i, x). slot_of rq i x) (List.enumerate k xs)) = [k..<k + length xs]"
  by (induction xs arbitrary: k) (simp_all add: upt_conv_Cons del: upt_Suc)

lemma run_front:
  "run_node E rq ''load'' c = step_load E rq c"
  "run_node E rq ''discover'' c = (if cx_loaded c then step_discover E rq c else (Some (OtherExn ''KeyError''), c))"
  "run_node E rq ''classify'' c = (if cx_loaded c then step_classifier E rq c else (Some (OtherExn ''KeyError''), c))"
  "run_node E rq ''plan_tasks'' c = (if cx_loaded c then step_plan_tasks E rq c else (Some (OtherExn ''KeyError''), c))"
  by (simp_all add: run_node_def missing_key_def)

lemma front_cases:
  assumes "n \<in> {''load'', ''discover'', ''classify''}" "P c" "P (snd (step_load E rq c))" "\<And>f. f \<in> {discover_one E rq, classify_slot E rq} \<union> range assign_only \<Longrightarrow> P (each_slot f c)"
  shows "P (snd (run_node E rq n c))"
proof -
  from assms(1) consider "n = ''load''" | "n = ''discover''" | "n = ''classify''" by blast
  then show ?thesis
  proof cases
    case 1
    with assms(3) show ?thesis by (simp only: run_front)
  next
    case 2
    with assms(2,4) show ?thesis by (simp add: run_front step_discover_def)
  next
    case 3
    with assms(2,4) show ?thesis by (cases "sole_doctype rq") (simp_all add: run_front step_classifier_def)
  qed
qed

lemma front_before_plan:
  assumes "n \<in> {''load'', ''discover'', ''classify''}" "before_plan c"
  shows "before_plan (snd (run_node E rq n c))"
proof -
  have load: "before_plan (snd (step_load E rq c))"
    using assms(2) indices_enumerate [of rq 0] by (auto simp: step_load_def before_plan_def split: sum.split)
  have each: "before_plan (each_slot f c)" if "\<And>s. sl_index (snd (f s)) = sl_index s" for f
    using assms(2) that by (simp add: before_plan_def each_slot_def comp_def)
  from assms(1,2) load show ?thesis by (rule front_cases) (auto intro!: each)
qed

lemma front_run:
  assumes "set us \<subseteq> {''load'', ''discover'', ''classify''}" "before_plan c"
  shows "before_plan (run_nodes E rq us c)"
  using assms
proof (induction us arbitrary: c)
  case (Cons u us)
  with front_before_plan [of u c E rq] show ?case by simp
qed simp

definition all_segments :: "pctx \<Rightarrow> segment list" where
  "all_segments c = concat (map sl_segments (cx_files c))"

definition routed :: "extract_request \<Rightarrow> pctx \<Rightarrow> bool" where
  "routed rq c \<longleftrightarrow> distinct (map tk_id (cx_tasks c))
     \<and> (if cx_planned c then map tk_segment (cx_tasks c) = filter (planned rq) (all_segments c)
          \<and> cx_unmatched c = filter (\<lambda>g. \<not> planned rq g) (all_segments c)
        else cx_tasks c = [] \<and> cx_unmatched c = [])"

lemma planned_frame: "\<not> routing_node n \<Longrightarrow> cx_planned (snd (run_node E rq n c)) = cx_planned c"
proof -
  have tr: "cx_planned (snd (run_transforms T ss c)) = cx_planned c" for T ss c
  proof (induction ss arbitrary: c)
    case (Cons s ss)
    have "cx_planned (snd (transform_one T s c)) = cx_planned c"
      by (auto simp: transform_one_def Let_def split: sum.split option.split)
    with Cons.IH show ?case by (cases "transform_one T s c") (auto split: option.split)
  qed simp
  show "\<not> routing_node n \<Longrightarrow> cx_planned (snd (run_node E rq n c)) = cx_planned c"
    by (simp add: run_node_def routing_node_def step_extract_def step_bbox_validation_def step_bbox_refine_def
        step_field_validation_def step_visual_authenticity_def step_content_authenticity_def step_judge_def step_repair_def
        step_judge_escalation_def step_transform_def tr step_rules_def each_task_def Let_def
        split: prod.split option.split escalation_outcome.split eval_outcome.split)
qed

lemma routed_frame:
  assumes "routing c' = routing c" "cx_planned c' = cx_planned c" "routed rq c"
  shows "routed rq c'"
proof -
  from assms(1) have f: "cx_files c' = cx_files c" "cx_unmatched c' = cx_unmatched c" "map task_frame (cx_tasks c') = map task_frame (cx_tasks c)"
    by (simp_all add: routing_def)
  from f(3) have "map fst (map task_frame (cx_tasks c')) = map fst (map task_frame (cx_tasks c))"
    "map (fst \<circ> snd) (map task_frame (cx_tasks c')) = map (fst \<circ> snd) (map task_frame (cx_tasks c))" by (simp_all only:)
  then have "map tk_id (cx_tasks c') = map tk_id (cx_tasks c)" "map tk_segment (cx_tasks c') = map tk_segment (cx_tasks c)"
    by (simp_all add: task_frame_def comp_def)
  moreover have "(cx_tasks c' = []) = (cx_tasks c = [])" using map_eq_imp_length_eq [OF f(3)] by auto
  ultimately show ?thesis using assms(2,3) f(1,2) by (simp add: routed_def all_segments_def)
qed

lemma later_routed: "list_all (\<lambda>n. \<not> routing_node n) vs \<Longrightarrow> routed rq c \<Longrightarrow> routed rq (run_nodes E rq vs c)"
proof (induction vs arbitrary: c)
  case (Cons v vs)
  then have "routed rq (snd (run_node E rq v c))"
    using routed_frame [OF later_routing [of v E rq c] planned_frame [of v E rq c], of rq] by simp
  with Cons show ?case by simp
qed simp

lemma front_unplanned: "set us \<subseteq> {''load'', ''discover'', ''classify''} \<Longrightarrow> cx_planned (run_nodes E rq us c) = cx_planned c"
proof (induction us arbitrary: c)
  case (Cons u us)
  have load: "cx_planned (snd (step_load E rq c)) = cx_planned c" by (simp add: step_load_def split: sum.split)
  from Cons.prems have "u \<in> {''load'', ''discover'', ''classify''}" by simp
  then have "cx_planned (snd (run_node E rq u c)) = cx_planned c"
    by (rule front_cases [where P = "\<lambda>x. cx_planned x = cx_planned c"]) (simp_all add: load each_slot_def)
  with Cons show ?case by simp
qed simp

lemma segments_routed_aux:
  assumes "runs_in_order run"
  shows "routed rq (run (run_node E rq) (stage_chain rq) empty_ctx)"
proof -
  obtain us vs where us: "set us \<subseteq> {''load'', ''discover'', ''classify''}" and vs: "list_all (\<lambda>n. \<not> routing_node n) vs"
    and run: "run (run_node E rq) (stage_chain rq) empty_ctx = run_nodes E rq (us @ vs) empty_ctx
       \<or> run (run_node E rq) (stage_chain rq) empty_ctx = run_nodes E rq (us @ [''plan_tasks''] @ vs) empty_ctx"
    using run_shape [OF assms] by blast
  let ?c = "run_nodes E rq us empty_ctx"
  have "before_plan empty_ctx" by (simp add: before_plan_def empty_ctx_def)
  from front_run [OF us this] have b: "before_plan ?c" .
  have up: "\<not> cx_planned ?c" using front_unplanned [OF us, of E rq empty_ctx] by (simp add: empty_ctx_def)
  have c1: "routed rq ?c" using b up by (simp add: before_plan_def routed_def)
  have c2: "routed rq (snd (run_node E rq ''plan_tasks'' ?c))"
  proof (cases "cx_loaded ?c")
    case True
    have "all_segments (snd (step_plan_tasks E rq ?c)) = all_segments ?c" "cx_planned (snd (step_plan_tasks E rq ?c))"
      by (simp_all add: all_segments_def step_plan_tasks_def Let_def)
    moreover have "run_node E rq ''plan_tasks'' ?c = step_plan_tasks E rq ?c" using True by (simp add: run_node_def missing_key_def)
    moreover have "cx_unmatched ?c = []" using b by (simp add: before_plan_def)
    ultimately show ?thesis using b plan_ids_distinct [of ?c E rq] plan_segments [of E rq ?c] plan_unmatched [of E rq ?c]
      by (simp add: routed_def before_plan_def all_segments_def)
  next
    case False
    with c1 show ?thesis by (simp add: run_node_def missing_key_def)
  qed
  from later_routed [OF vs c1] later_routed [OF vs c2] run show ?thesis by auto
qed


section \<open>A sample request\<close>

definition all_stages :: "bool \<Rightarrow> stage_toggles" where
  "all_stages classifier = \<lparr>st_splitter = False, st_classifier = classifier, st_field_validation = True, st_visual_authenticity = False,
     st_content_authenticity = False, st_judge = False, st_judge_escalation = False, st_repair = False, st_bbox_refine = False,
     st_transform = False, st_rule_engine = False\<rparr>"

definition sample_file :: "string option \<Rightarrow> string option \<Rightarrow> file_input" where
  "sample_file content pin = \<lparr>f_filename = ''a.pdf'', f_content = content, f_ctype = None, f_expected = pin\<rparr>"

definition sample_request :: "file_input list \<Rightarrow> extract_request" where
  "sample_request files = \<lparr>rq_files = files, rq_doc_types = [sample_doc], rq_rules = [], rq_stages = all_stages True,
     pq_media = None, pq_model = None, pq_transforms = [], pq_escalation = None\<rparr>"

definition sample_pipeline :: pipeline_env where
  "sample_pipeline = \<lparr>en_normalise = (\<lambda>bs media name. Some [\<lparr>nr_filename = name, nr_derived = [], nr_media = pdf_type, nr_pages = 2, nr_bytes = bs\<rparr>]),
     en_split = (\<lambda>_ _. None), en_classify = (\<lambda>_ _ _ _. Inl []), en_slice = (\<lambda>_ _ _. None),
     en_extract = (\<lambda>_ _. Some (tk_groups sample_task, ''m'')), en_refine = (\<lambda>t. (tk_groups t, False)), en_lib = no_pylib,
     en_visual = (\<lambda>_ _. None), en_content = (\<lambda>_ _. None), en_judge = (\<lambda>_ _. None), en_repair = (\<lambda>_ _. sample_repair_env),
     en_finish = [], en_rerun = (\<lambda>_. answer_with []), en_rules = (\<lambda>_ _. None), en_transform = sample_env,
     en_settings = \<lparr>ss_splitter = [], ss_classifier = [], ss_extract = [], ss_visual = [], ss_content = [], ss_judge = [], ss_rules = []\<rparr>,
     en_default_model = ''m'', en_repair_settings = \<lparr>rp_include_flagged = True, rp_max_fraction = 1\<rparr>, en_repair_model = None,
     en_escalation_threshold = 1, en_escalation_model = None\<rparr>"


section \<open>Page ranges\<close>

definition segment_in :: "slot \<Rightarrow> segment \<Rightarrow> bool" where
  "segment_in s g \<longleftrightarrow> 1 \<le> sg_page_start g \<and> sg_page_start g \<le> sg_page_end g \<and> sg_page_end g \<le> sl_pages s
     \<and> sg_filename g = sl_filename s \<and> sg_file_pages g = sl_pages s"

definition slot_ok :: "slot \<Rightarrow> bool" where
  "slot_ok s \<longleftrightarrow> sl_segments s \<noteq> [] \<and> list_all (segment_in s) (sl_segments s)"

definition rows_paged :: "pipeline_env \<Rightarrow> bool" where
  "rows_paged E \<longleftrightarrow> (\<forall>bs media name rows. en_normalise E bs media name = Some rows \<longrightarrow> list_all (\<lambda>r. 1 \<le> nr_pages r) rows)"

lemma slot_of_ok: "1 \<le> nr_pages r \<Longrightarrow> slot_ok (slot_of rq i (f, multi, r))"
  by (simp add: slot_ok_def slot_of_def Let_def default_segment_def segment_in_def)

lemma discover_one_ok:
  assumes "slot_ok s" "1 \<le> sl_pages s"
  shows "slot_ok (snd (discover_one E rq s)) \<and> 1 \<le> sl_pages (snd (discover_one E rq s))"
proof -
  have "slot_ok (s\<lparr>sl_segments := map (segment_of s) ds\<rparr>)" if "discover (sl_pages s) a = Some ds" for ds a
    using discover_ranges [OF that assms(2)] by (auto simp: slot_ok_def segment_in_def segment_of_def list_all_iff)
  with assms show ?thesis by (auto simp: discover_one_def split: option.split)
qed

lemma classify_one_pages: "segment_in s (snd (classify_one E rq s' g)) = segment_in s g"
  by (auto simp: classify_one_def segment_in_def Let_def split: option.split prod.split)

lemma segment_in_slot [simp]: "segment_in (s\<lparr>sl_segments := gs\<rparr>) g = segment_in s g"
  by (simp add: segment_in_def)

lemma classify_slot_ok: "slot_ok (snd (classify_slot E rq s)) = slot_ok s"
  by (simp add: slot_ok_def classify_slot_def list_all_iff classify_one_pages)

lemma assign_only_ok: "slot_ok (snd (assign_only t s)) = slot_ok s"
proof -
  have "segment_in s' (if sg_doctype g = None then g\<lparr>sg_doctype := Some t\<rparr> else g) = segment_in s' g" for s' g
    by (simp add: segment_in_def)
  then show ?thesis by (simp add: slot_ok_def assign_only_def list.pred_map comp_def)
qed

definition files_ok :: "pctx \<Rightarrow> bool" where
  "files_ok c \<longleftrightarrow> list_all (\<lambda>s. slot_ok s \<and> 1 \<le> sl_pages s) (cx_files c)"

lemma load_files_ok:
  assumes "rows_paged E" "files_ok c"
  shows "files_ok (snd (step_load E rq c))"
proof -
  let ?f = "\<lambda>f. case file_rows E rq f of Inl e \<Rightarrow> Inl e | Inr rows \<Rightarrow> Inr (map (\<lambda>r. (f, 1 < length rows, r)) rows)"
  have row: "1 \<le> nr_pages r" if "?f f = Inr xs" "(g, m, r) \<in> set xs" for f xs g m r
  proof -
    from that obtain bs media rows where "en_normalise E bs media (f_filename f) = Some rows" "r \<in> set rows"
      by (auto simp: file_rows_def split: sum.splits option.splits if_splits)
    with assms(1) show ?thesis by (auto simp: rows_paged_def list_all_iff)
  qed
  show ?thesis
  proof (cases "map_res ?f (rq_files rq)")
    case (Inl e)
    with assms(2) show ?thesis by (simp add: step_load_def)
  next
    case (Inr xss)
    then have all: "list_all2 (\<lambda>f xs. ?f f = Inr xs) (rq_files rq) xss" by (simp add: map_res_Inr)
    have ok: "1 \<le> nr_pages r" if "(g, m, r) \<in> set (concat xss)" for g m r
    proof -
      from that obtain xs where xs: "xs \<in> set xss" "(g, m, r) \<in> set xs" by auto
      then obtain k where "k < length xss" "(g, m, r) \<in> set (xss ! k)" by (metis in_set_conv_nth)
      moreover from this all have "?f (rq_files rq ! k) = Inr (xss ! k)" by (simp add: list_all2_conv_all_nth)
      ultimately show ?thesis using row by blast
    qed
    have "slot_ok (slot_of rq i (g, m, r)) \<and> 1 \<le> sl_pages (slot_of rq i (g, m, r))" if "(i, g, m, r) \<in> set (List.enumerate 0 (concat xss))" for i g m r
    proof -
      from imageI [OF that, of snd] have "(g, m, r) \<in> set (map snd (List.enumerate 0 (concat xss)))" by (simp only: set_map snd_conv)
      then have "(g, m, r) \<in> set (concat xss)" by (simp only: map_snd_enumerate)
      from ok [OF this] show ?thesis by (simp add: slot_of_ok) (simp add: slot_of_def Let_def)
    qed
    with Inr show ?thesis by (auto simp: step_load_def files_ok_def list_all_iff)
  qed
qed

lemma front_files_ok:
  assumes "rows_paged E" "set us \<subseteq> {''load'', ''discover'', ''classify''}" "files_ok c"
  shows "files_ok (run_nodes E rq us c)"
  using assms(2,3)
proof (induction us arbitrary: c)
  case (Cons u us)
  have pages: "sl_pages (snd (classify_slot E rq s)) = sl_pages s" "sl_pages (snd (assign_only t s)) = sl_pages s" for s t
    by (simp_all add: classify_slot_def assign_only_def)
  have each: "files_ok (each_slot f c)" if "f \<in> {discover_one E rq, classify_slot E rq} \<union> range assign_only" for f
    using that Cons.prems(2) discover_one_ok
    by (auto simp: files_ok_def each_slot_def list_all_iff classify_slot_ok assign_only_ok pages)
  from Cons.prems(1) have "u \<in> {''load'', ''discover'', ''classify''}" by simp
  then have "files_ok (snd (run_node E rq u c))"
    using Cons.prems(2) load_files_ok [OF assms(1) Cons.prems(2), of rq] each by (rule front_cases)
  with Cons show ?case by simp
qed simp

text \<open>C16: page ranges. If the normaliser gives every row at least one page, then at the end of a run every file
  has a segment, and every segment, whatever ranges the splitter answered, is a nonempty range of
  pages of its file; so each document and each discovered document reports at least one page, and
  only pages its file has.\<close>

theorem page_ranges_valid:
  fixes run :: engine and E :: pipeline_env and rq :: extract_request
  assumes "runs_in_order run" "rows_paged E"
  defines "c \<equiv> run (run_node E rq) (stage_chain rq) empty_ctx"
  shows "files_ok c \<and> (\<forall>d\<in>set (er_documents (build_result E rq c) @ er_discovered (build_result E rq c)).
      \<exists>s\<in>set (cx_files c). do_source d = sl_filename s \<and> do_pages d \<noteq> [] \<and> set (do_pages d) \<subseteq> {1..sl_pages s})"
proof -
  obtain us vs where us: "set us \<subseteq> {''load'', ''discover'', ''classify''}" and vs: "list_all (\<lambda>n. \<not> routing_node n) vs"
    and run: "c = run_nodes E rq (us @ vs) empty_ctx \<or> c = run_nodes E rq (us @ [''plan_tasks''] @ vs) empty_ctx"
    using run_shape [OF assms(1)] unfolding c_def by blast
  let ?u = "run_nodes E rq us empty_ctx"
  have "files_ok empty_ctx" by (simp add: files_ok_def empty_ctx_def)
  from front_files_ok [OF assms(2) us this] have u: "files_ok ?u" .
  have "cx_files (snd (run_node E rq ''plan_tasks'' ?u)) = cx_files ?u" by (simp add: run_front step_plan_tasks_def Let_def)
  with run later_nodes_routing [OF vs, of E rq] have "cx_files c = cx_files ?u" by (auto simp: routing_def)
  with u have ok: "files_ok c" by (simp add: files_ok_def)
  have seg: "\<exists>s\<in>set (cx_files c). sg_filename g = sl_filename s \<and> pages_range (sg_page_start g) (sg_page_end g) \<noteq> []
      \<and> set (pages_range (sg_page_start g) (sg_page_end g)) \<subseteq> {1..sl_pages s}" if "g \<in> set (all_segments c)" for g
  proof -
    from that obtain s where s: "s \<in> set (cx_files c)" "g \<in> set (sl_segments s)" by (auto simp: all_segments_def)
    with ok have "segment_in s g" by (auto simp: files_ok_def slot_ok_def list_all_iff)
    then have "sg_filename g = sl_filename s" "pages_range (sg_page_start g) (sg_page_end g) \<noteq> []"
      "set (pages_range (sg_page_start g) (sg_page_end g)) \<subseteq> {1..sl_pages s}"
      by (auto simp: segment_in_def pages_range_def)
    with s(1) show ?thesis by blast
  qed
  from segments_routed_aux [OF assms(1), where E = E and rq = rq] have r: "routed rq c" by (simp add: c_def)
  then have "tk_segment ` set (cx_tasks c) \<subseteq> set (all_segments c)" "set (cx_unmatched c) \<subseteq> set (all_segments c)"
    by (auto simp: routed_def simp flip: set_map split: if_splits)
  with seg ok show ?thesis
    by (fastforce simp: build_result_def task_document_def discovered_document_def Let_def)
qed

lemma sample_paged: "rows_paged sample_pipeline"
  by (simp add: rows_paged_def sample_pipeline_def)

lemma page_ranges_valid_witness:
  "files_ok (run_all (run_node sample_pipeline (sample_request [sample_file (Some ''JVBE'') None]))
     (stage_chain (sample_request [sample_file (Some ''JVBE'') None])) empty_ctx)"
  using page_ranges_valid [OF run_all_ok sample_paged] by blast

section \<open>What the status says\<close>

text \<open>A step that raises leaves the context, except that field validation has stamped the tasks before the one
  it raised on and the transformations before the failing one have been applied.\<close>

lemma unreadable_stays_empty:
  assumes "fst (step_load E rq empty_ctx) = Some e"
  shows "snd (run_node E rq n empty_ctx) = empty_ctx"
proof (cases "missing_key n empty_ctx")
  case False
  then have "n = ''load'' \<or> n = ''repair'' \<or> n = ''assemble''" by (auto simp: missing_key_def empty_ctx_def split: if_splits)
  moreover have "snd (step_load E rq empty_ctx) = empty_ctx" using assms by (auto simp: step_load_def split: sum.splits)
  moreover have "snd (step_repair E rq empty_ctx) = empty_ctx"
    by (simp add: step_repair_def maybe_repair_def empty_ctx_def Let_def)
  moreover have "run_node E rq ''repair'' empty_ctx = step_repair E rq empty_ctx" "run_node E rq ''assemble'' empty_ctx = (None, empty_ctx)"
    by (simp_all add: run_node_def missing_key_def)
  ultimately show ?thesis using run_front(1) [of E rq empty_ctx] by auto
qed (simp add: run_node_def)

text \<open>C17: a request whose files cannot be loaded succeeds. If one file raises while it is decoded or normalised,
  no step has anything to work on; whatever the engine does next, the result has no documents, no
  errors, and the status \<open>success\<close>.\<close>

theorem unreadable_file_succeeds:
  assumes "runs_in_order run" "fst (step_load E rq empty_ctx) = Some e"
  shows "let r = execute run E rq in \<not> er_partial r \<and> er_documents r = [] \<and> er_discovered r = [] \<and> er_files r = [] \<and> er_errors r = []"
proof -
  have "run_nodes E rq ns empty_ctx = empty_ctx" for ns
    by (induction ns) (simp_all add: unreadable_stays_empty [OF assms(2)])
  with assms(1) have "run (run_node E rq) (stage_chain rq) empty_ctx = empty_ctx"
    unfolding runs_in_order_def run_nodes_def by metis
  then show ?thesis by (simp add: execute_def build_result_def empty_ctx_def)
qed

lemma unreadable_file_succeeds_witness:
  "let r = execute run_until_error sample_pipeline (sample_request [sample_file None None]) in
     \<not> er_partial r \<and> er_documents r = [] \<and> er_discovered r = [] \<and> er_files r = [] \<and> er_errors r = []"
proof -
  have "fst (step_load sample_pipeline (sample_request [sample_file None None]) empty_ctx) = Some ValueErr"
    by (simp add: step_load_def sample_request_def file_rows_def decoded_bytes_def sample_file_def)
  from unreadable_file_succeeds [OF run_until_error_ok this] show ?thesis .
qed

text \<open>An empty pin. \<open>expected_type = ""\<close> is no pin for the request validator and for the choice of the
  nodes, which test its truth, but it is one for the steps, which test for \<open>None\<close>: such a request
  passes validation, neither the splitter nor the classifier looks at the file, and as no declared
  type has an empty id it becomes no task.\<close>

theorem empty_pin_never_extracted:
  fixes f :: file_input and rq :: extract_request and r :: normal_row and i :: nat
  assumes "f_expected f = Some []" "[] \<notin> dt_id ` set (rq_doc_types rq)" "rq_files rq = [f]"
  defines "s \<equiv> slot_of rq i (f, False, r)"
  shows "check_files (extraction_request.truncate rq) = [] \<and> discover_one E rq s = ([], s) \<and> classify_slot E rq s = ([], s)
    \<and> assign_only only s = ([], s) \<and> slot_tasks E rq s = []"
proof -
  have none: "docs_by_type rq [] = None"
    using assms(2) by (simp add: docs_by_type_def dict_of_None_iff image_image)
  have s: "sl_doctype s = Some []" "sl_segments s = [default_segment s]" "sg_doctype (default_segment s) = Some []"
    using assms(1) by (simp_all add: s_def slot_of_def effective_doctype_def Let_def default_segment_def)
  have seg: "s\<lparr>sl_segments := [default_segment s]\<rparr> = s" using s(2) by (cases s) simp
  have "slot_tasks E rq s = []"
    by (simp add: slot_tasks_def plan_slot_def s plan_segment_def none)
  moreover have "check_files (extraction_request.truncate rq) = []"
    using assms(1,3) by (simp add: check_files_def enum_map_def extraction_request.truncate_def)
  ultimately show ?thesis using s seg
    by (simp add: discover_one_def classify_slot_def classify_one_def assign_only_def)
qed

lemma empty_pin_never_extracted_witness:
  "slot_tasks sample_pipeline (sample_request [sample_file (Some ''JVBE'') (Some [])])
     (slot_of (sample_request [sample_file (Some ''JVBE'') (Some [])]) 0
       (sample_file (Some ''JVBE'') (Some []), False, \<lparr>nr_filename = ''a.pdf'', nr_derived = [], nr_media = pdf_type, nr_pages = 2, nr_bytes = [1]\<rparr>)) = []"
proof -
  have "f_expected (sample_file (Some ''JVBE'') (Some [])) = Some []" "[] \<notin> dt_id ` set (rq_doc_types (sample_request [sample_file (Some ''JVBE'') (Some [])]))"
    "rq_files (sample_request [sample_file (Some ''JVBE'') (Some [])]) = [sample_file (Some ''JVBE'') (Some [])]"
    by (simp_all add: sample_file_def sample_request_def sample_doc_def)
  from empty_pin_never_extracted [OF this] show ?thesis by blast
qed

end
