(* ===== verification/ValueMatch.thy ===== *)
theory ValueMatch
  imports BboxCheck Agents
begin

text \<open>
  Word streams and their deterministic matcher: \<open>WordRouter\<close> (\<open>core/services/bbox/word_router.py\<close>) and
  \<open>ValueMatcher\<close> (\<open>core/services/bbox/value_matcher.py\<close>). Text is a list of Unicode code points
  here. The Unicode tables, \<open>rapidfuzz\<close> and the extractors of words are arguments.
\<close>

section \<open>Words\<close>

type_synonym utext = "nat list"

record word =
  wd_text :: utext
  wd_page :: int
  wd_xmin :: rat
  wd_ymin :: rat
  wd_xmax :: rat
  wd_ymax :: rat
  wd_order :: "nat option"
  wd_table :: "string option"
  wd_row :: "int option"
  wd_col :: "int option"

record page_words =
  pg_page :: int
  pg_words :: "word list"
  pg_text_layer :: bool
  pg_source :: bbox_source

definition page_by_number :: "page_words list \<Rightarrow> int \<Rightarrow> page_words option" where
  "page_by_number pages n = dict_of (map (\<lambda>p. (pg_page p, p)) pages) n"

text \<open>\<open>WordRouter.collect\<close>: the text layer, with the pages that have none taken from the OCR engine.\<close>

definition collect_words :: "string \<Rightarrow> page_words list \<Rightarrow> page_words list \<Rightarrow> page_words list" where
  "collect_words media text_pages ocr_pages =
     (if media = pdf_type then
        (if list_all pg_text_layer text_pages then text_pages
         else map (\<lambda>p. if pg_text_layer p then p else case page_by_number ocr_pages (pg_page p) of Some q \<Rightarrow> q | None \<Rightarrow> p) text_pages)
      else if starts_with media ''image/'' then ocr_pages
      else [])"

lemma collect_pages:
  "media = pdf_type \<Longrightarrow> map pg_page (collect_words media text_pages ocr_pages) = map pg_page text_pages
     \<and> list_all (\<lambda>p. pg_text_layer p \<longrightarrow> p \<in> set (collect_words media text_pages ocr_pages)) text_pages"
proof -
  assume m: "media = pdf_type"
  have "pg_page q = n" if "page_by_number ocr_pages n = Some q" for n q
    using dict_of_in [OF that [unfolded page_by_number_def]] by auto
  with m show ?thesis by (auto simp: collect_words_def list_all_iff split: option.split)
qed

section \<open>Text\<close>

record unicode =
  uc_nfc :: "utext \<Rightarrow> utext"
  uc_casefold :: "utext \<Rightarrow> utext"
  uc_space :: "nat \<Rightarrow> bool"
  uc_alpha :: "nat \<Rightarrow> bool"
  uc_digit :: "nat \<Rightarrow> bool"
  uc_ratio :: "utext \<Rightarrow> utext \<Rightarrow> rat"

fun runs_acc :: "(nat \<Rightarrow> bool) \<Rightarrow> utext \<Rightarrow> utext \<Rightarrow> utext list" where
  "runs_acc sp acc [] = (if acc = [] then [] else [rev acc])"
| "runs_acc sp acc (c # cs) = (if sp c then (if acc = [] then runs_acc sp [] cs else rev acc # runs_acc sp [] cs) else runs_acc sp (c # acc) cs)"

definition words_of :: "(nat \<Rightarrow> bool) \<Rightarrow> utext \<Rightarrow> utext list" where
  "words_of sp s = runs_acc sp [] s"

fun join_space :: "utext list \<Rightarrow> utext" where
  "join_space [] = []"
| "join_space [w] = w"
| "join_space (w # v # ws) = w @ 32 # join_space (v # ws)"

text \<open>Runs of white space become one blank and the ends are stripped.\<close>

definition normalise :: "unicode \<Rightarrow> bool \<Rightarrow> utext \<Rightarrow> utext" where
  "normalise U fold_case s = (let t = uc_nfc U s in join_space (words_of (uc_space U) (if fold_case then uc_casefold U t else t)))"

definition punctuation :: "nat list" where
  "punctuation = map code_point (''.,;:()[]{}/'' @ [CHR 0x5C] @ ''-_'' @ [CHR 0x27, CHR 0x22, CHR 0x60])"

definition add_variant :: "utext \<Rightarrow> utext list \<Rightarrow> utext list" where
  "add_variant v vs = (if v \<noteq> [] \<and> v \<notin> set vs then vs @ [v] else vs)"

definition variants :: "unicode \<Rightarrow> utext \<Rightarrow> utext list" where
  "variants U value = (let literal = add_variant (normalise U True value) []; digits = filter (uc_digit U) value;
       vs = (if 4 \<le> length digits then add_variant digits literal else literal) in
     add_variant (normalise U True (map (\<lambda>c. if c \<in> set punctuation then 32 else c) value)) vs)"

definition unspaced_ranges :: "(nat \<times> nat) list" where
  "unspaced_ranges = [(0x4E00, 0x9FFF), (0x3400, 0x4DBF), (0x20000, 0x2A6DF), (0x3040, 0x30FF), (0xAC00, 0xD7AF),
     (0x0E00, 0x0E7F), (0x0E80, 0x0EFF), (0x1780, 0x17FF)]"

definition is_unspaced_codepoint :: "nat \<Rightarrow> bool" where
  "is_unspaced_codepoint c = list_ex (\<lambda>(lo, hi). lo \<le> c \<and> c \<le> hi) unspaced_ranges"

definition is_unspaced :: "unicode \<Rightarrow> utext \<Rightarrow> bool" where
  "is_unspaced U target = (let letters = filter (\<lambda>c. uc_alpha U c \<or> is_unspaced_codepoint c) target in
     letters \<noteq> [] \<and> 3 / 10 \<le> (of_nat (length (filter is_unspaced_codepoint letters)) / of_nat (length letters) :: rat))"

section \<open>Windows\<close>

definition first_reading_order :: "word list \<Rightarrow> nat option" where
  "first_reading_order ws = fold (\<lambda>w best. case wd_order w of None \<Rightarrow> best
     | Some o' \<Rightarrow> (case best of None \<Rightarrow> Some o' | Some b \<Rightarrow> if o' < b then Some o' else best)) ws None"

definition order_less :: "nat option \<Rightarrow> nat option \<Rightarrow> bool" where
  "order_less a b = (case a of None \<Rightarrow> False | Some x \<Rightarrow> (case b of None \<Rightarrow> True | Some y \<Rightarrow> x < y))"

text \<open>The windows \<open>(start, end)\<close> of the sizes \<open>lo\<close> to \<open>hi\<close>, in the order of the loops.\<close>

definition windows :: "nat \<Rightarrow> nat \<Rightarrow> nat \<Rightarrow> (nat \<times> nat) list" where
  "windows n lo hi = concat (map (\<lambda>start. map (\<lambda>size. (start, start + size)) (filter (\<lambda>size. start + size \<le> n) [lo..<Suc hi])) [0..<n])"

definition slice :: "'a list \<Rightarrow> nat \<times> nat \<Rightarrow> 'a list" where
  "slice xs w = drop (fst w) (take (snd w) xs)"

type_synonym candidate = "rat \<times> nat option \<times> (nat \<times> nat)"

definition better :: "rat \<times> nat option \<Rightarrow> rat \<times> nat option \<Rightarrow> bool" where
  "better a b = (fst b < fst a \<or> fst a = fst b \<and> order_less (snd a) (snd b))"

definition best_window :: "candidate list \<Rightarrow> (rat \<times> nat option) \<times> (nat \<times> nat) option" where
  "best_window cands = foldl (\<lambda>best c. if better (fst c, fst (snd c)) (fst best) then ((fst c, fst (snd c)), Some (snd (snd c))) else best)
     ((0, None), None) cands"

record match_result =
  mr_page :: int
  mr_xmin :: rat
  mr_ymin :: rat
  mr_xmax :: rat
  mr_ymax :: rat
  mr_score :: rat

definition least :: "rat list \<Rightarrow> rat" where
  "least xs = foldl min (hd xs) (tl xs)"

definition greatest :: "rat list \<Rightarrow> rat" where
  "greatest xs = foldl max (hd xs) (tl xs)"

definition union_bbox :: "word list \<Rightarrow> rat \<Rightarrow> int \<Rightarrow> match_result" where
  "union_bbox ws s page = \<lparr>mr_page = page, mr_xmin = least (map wd_xmin ws), mr_ymin = least (map wd_ymin ws),
     mr_xmax = greatest (map wd_xmax ws), mr_ymax = greatest (map wd_ymax ws), mr_score = py_round 4 (min 1 (max 0 s))\<rparr>"

definition spaced_candidates :: "unicode \<Rightarrow> utext \<Rightarrow> word list \<Rightarrow> candidate list" where
  "spaced_candidates U target ws = (let n = max 1 (length (words_of (uc_space U) target)); hi = min 12 (max (n * 3) (n + 2)) in
     concat (map (\<lambda>w. let joined = join_space (filter (\<lambda>t. t \<noteq> []) (map (\<lambda>x. normalise U True (wd_text x)) (slice ws w))) in
       if joined = [] then [] else [(uc_ratio U target joined, first_reading_order (slice ws w), w)]) (windows (length ws) 1 hi)))"

definition match_spaced :: "unicode \<Rightarrow> rat \<Rightarrow> utext \<Rightarrow> word list \<Rightarrow> int \<Rightarrow> match_result option" where
  "match_spaced U threshold target ws page = (case best_window (spaced_candidates U target ws) of
     ((s, _), Some w) \<Rightarrow> if s < threshold then None else Some (union_bbox (slice ws w) s page)
   | (_, None) \<Rightarrow> None)"

definition char_words :: "unicode \<Rightarrow> word list \<Rightarrow> (nat \<times> word) list" where
  "char_words U ws = concat (map (\<lambda>w. map (\<lambda>c. (c, w)) (filter (\<lambda>c. \<not> uc_space U c) (normalise U False (wd_text w)))) ws)"

definition unspaced_candidates :: "unicode \<Rightarrow> utext \<Rightarrow> (nat \<times> word) list \<Rightarrow> candidate list" where
  "unspaced_candidates U target cs =
     map (\<lambda>w. (uc_ratio U target (map fst (slice cs w)), first_reading_order (map snd (slice cs w)), w))
       (windows (length cs) (max 1 (length target - 2)) (min 80 (max (length target + 4) 6)))"

text \<open>The winning words are told apart by identity; repeating one does not change the union.\<close>

definition match_unspaced :: "unicode \<Rightarrow> rat \<Rightarrow> utext \<Rightarrow> word list \<Rightarrow> int \<Rightarrow> match_result option" where
  "match_unspaced U threshold target ws page = (let cs = char_words U ws in
     case best_window (unspaced_candidates U target cs) of
       ((s, _), Some w) \<Rightarrow> if s < threshold then None else Some (union_bbox (map snd (slice cs w)) s page)
     | (_, None) \<Rightarrow> None)"

definition best_match_on_page :: "unicode \<Rightarrow> rat \<Rightarrow> utext \<Rightarrow> page_words \<Rightarrow> match_result option" where
  "best_match_on_page U threshold target p = (if pg_words p = [] then None
     else if is_unspaced U target then match_unspaced U threshold target (pg_words p) (pg_page p)
     else match_spaced U threshold target (pg_words p) (pg_page p))"

section \<open>Locating a value\<close>

definition in_scope :: "page_words list \<Rightarrow> int list option \<Rightarrow> page_words list" where
  "in_scope pages candidates = (case candidates of None \<Rightarrow> pages | Some [] \<Rightarrow> pages
   | Some cs \<Rightarrow> (let some = filter (\<lambda>p. pg_page p \<in> set cs) pages in if list_ex (\<lambda>p. pg_words p \<noteq> []) some then some else pages))"

text \<open>The two loops, over the hits in their order; the search ends at a hit that is nearly perfect.\<close>

fun pick_best :: "match_result option \<Rightarrow> match_result option list \<Rightarrow> match_result option" where
  "pick_best best [] = best"
| "pick_best best (None # hs) = pick_best best hs"
| "pick_best best (Some h # hs) = (if (case best of None \<Rightarrow> True | Some b \<Rightarrow> mr_score b < mr_score h)
     then (if 999 / 1000 \<le> mr_score h then Some h else pick_best (Some h) hs) else pick_best best hs)"

definition locate :: "unicode \<Rightarrow> rat \<Rightarrow> utext \<Rightarrow> page_words list \<Rightarrow> int list option \<Rightarrow> match_result option" where
  "locate U threshold value pages candidates = (if normalise U True value = [] then None
     else pick_best None (concat (map (\<lambda>p. map (\<lambda>v. best_match_on_page U threshold v p) (variants U value))
       (filter (\<lambda>p. pg_words p \<noteq> []) (in_scope pages candidates)))))"

type_synonym targets = "(string \<times> utext \<times> int list option) list"
type_synonym matches = "(string \<times> match_result option) list"

definition fuzzy_locate_all :: "unicode \<Rightarrow> rat \<Rightarrow> page_words list \<Rightarrow> targets \<Rightarrow> matches" where
  "fuzzy_locate_all U threshold pages ts =
     foldl (\<lambda>out f. AList.update (fst f) (locate U threshold (fst (snd f)) pages (snd (snd f))) out) [] ts"

section \<open>The best window\<close>

lemma best_window_spec:
  assumes "best_window cands = ((s, o'), Some w)"
  shows "\<exists>o''. (s, o'', w) \<in> set cands \<and> (\<forall>c\<in>set cands. fst c \<le> s) \<and> 0 \<le> s"
proof -
  have "(\<forall>c\<in>set cs. fst c \<le> fst (fst (best_window cs))) \<and> 0 \<le> fst (fst (best_window cs))
     \<and> (case snd (best_window cs) of None \<Rightarrow> True | Some w \<Rightarrow> \<exists>o''. (fst (fst (best_window cs)), o'', w) \<in> set cs)" for cs
  proof (induction cs rule: rev_induct)
    case (snoc c cs)
    let ?b = "best_window cs"
    have step: "best_window (cs @ [c]) = (if better (fst c, fst (snd c)) (fst ?b) then ((fst c, fst (snd c)), Some (snd (snd c))) else ?b)"
      by (simp add: best_window_def)
    show ?case
    proof (cases "better (fst c, fst (snd c)) (fst ?b)")
      case True
      then have "fst (fst ?b) \<le> fst c" by (auto simp: better_def)
      moreover obtain a b d where "c = (a, b, d)" by (cases c)
      ultimately show ?thesis using snoc True unfolding step by (auto intro: order_trans)
    next
      case False
      then have "fst c \<le> fst (fst ?b)" by (auto simp: better_def not_less)
      with snoc False show ?thesis unfolding step by (auto split: option.splits)
    qed
  qed (simp add: best_window_def)
  from this [of cands] assms show ?thesis by simp
qed

lemma least_le: "x \<in> set xs \<Longrightarrow> least xs \<le> x"
proof -
  have fold: "foldl min a xs \<le> a \<and> (\<forall>x\<in>set xs. foldl min a xs \<le> x)" for a and xs :: "rat list"
    by (induction xs rule: rev_induct) (auto simp: min_le_iff_disj)
  show "x \<in> set xs \<Longrightarrow> least xs \<le> x" using fold [of "hd xs" "tl xs"] by (cases xs) (auto simp: least_def)
qed

lemma greatest_ge: "x \<in> set xs \<Longrightarrow> x \<le> greatest xs"
proof -
  have fold: "a \<le> foldl max a xs \<and> (\<forall>x\<in>set xs. x \<le> foldl max a xs)" for a and xs :: "rat list"
    by (induction xs rule: rev_induct) (auto simp: le_max_iff_disj)
  show "x \<in> set xs \<Longrightarrow> x \<le> greatest xs" using fold [of "hd xs" "tl xs"] by (cases xs) (auto simp: greatest_def)
qed

definition encloses :: "match_result \<Rightarrow> word \<Rightarrow> bool" where
  "encloses m w \<longleftrightarrow> mr_xmin m \<le> wd_xmin w \<and> wd_xmax w \<le> mr_xmax m \<and> mr_ymin m \<le> wd_ymin w \<and> wd_ymax w \<le> mr_ymax m"

lemma union_encloses: "w \<in> set ws \<Longrightarrow> encloses (union_bbox ws s p) w"
  by (simp add: encloses_def union_bbox_def least_le greatest_ge)

text \<open>A hit of the spaced matcher: no window of the page scores higher, its score reaches the threshold, and the
  box encloses the words of the window.\<close>

lemma match_spaced_best:
  assumes "match_spaced U threshold target ws page = Some m"
  shows "\<exists>s o' w. (s, o', w) \<in> set (spaced_candidates U target ws) \<and> (\<forall>c\<in>set (spaced_candidates U target ws). fst c \<le> s)
     \<and> threshold \<le> s \<and> m = union_bbox (slice ws w) s page"
proof -
  obtain s o' w where b: "best_window (spaced_candidates U target ws) = ((s, o'), Some w)" "threshold \<le> s" "m = union_bbox (slice ws w) s page"
    using assms by (auto simp: match_spaced_def split: prod.splits option.splits if_splits)
  with best_window_spec [OF b(1)] show ?thesis by blast
qed

lemma match_unspaced_best:
  assumes "match_unspaced U threshold target ws page = Some m"
  shows "\<exists>s o' w. (s, o', w) \<in> set (unspaced_candidates U target (char_words U ws))
     \<and> (\<forall>c\<in>set (unspaced_candidates U target (char_words U ws)). fst c \<le> s)
     \<and> threshold \<le> s \<and> m = union_bbox (map snd (slice (char_words U ws) w)) s page"
proof -
  obtain s o' w where b: "best_window (unspaced_candidates U target (char_words U ws)) = ((s, o'), Some w)" "threshold \<le> s"
      "m = union_bbox (map snd (slice (char_words U ws) w)) s page"
    using assms by (auto simp: match_unspaced_def Let_def split: prod.splits option.splits if_splits)
  with best_window_spec [OF b(1)] show ?thesis by blast
qed

lemma pick_best_spec:
  "pick_best best hs = Some m \<Longrightarrow> (best = Some m \<or> Some m \<in> set hs)
     \<and> (999 / 1000 \<le> mr_score m \<or> (\<forall>h. Some h \<in> set hs \<longrightarrow> mr_score h \<le> mr_score m))
     \<and> (case best of None \<Rightarrow> True | Some b \<Rightarrow> mr_score b \<le> mr_score m)"
proof (induction best hs rule: pick_best.induct)
  case (3 best h hs)
  show ?case
  proof (cases "case best of None \<Rightarrow> True | Some b \<Rightarrow> mr_score b < mr_score h")
    case True
    show ?thesis
    proof (cases "999 / 1000 \<le> mr_score h")
      case True
      with 3(3) \<open>case best of None \<Rightarrow> True | Some b \<Rightarrow> mr_score b < mr_score h\<close> show ?thesis by (auto split: option.splits)
    next
      case False
      with 3(1) 3(3) True show ?thesis by (auto split: option.splits)
    qed
  next
    case False
    with 3(2) 3(3) show ?thesis by (auto split: option.splits)
  qed
qed (auto split: option.splits)

lemma pick_best_None: "pick_best best hs = None \<longleftrightarrow> best = None \<and> set hs \<subseteq> {None}"
  by (induction best hs rule: pick_best.induct) auto

definition page_hits :: "unicode \<Rightarrow> rat \<Rightarrow> utext \<Rightarrow> page_words list \<Rightarrow> int list option \<Rightarrow> match_result set" where
  "page_hits U threshold value pages candidates =
     {m. \<exists>p\<in>set (in_scope pages candidates). \<exists>v\<in>set (variants U value). best_match_on_page U threshold v p = Some m}"

lemma locate_hit:
  assumes "locate U threshold value pages candidates = Some m"
  shows "m \<in> page_hits U threshold value pages candidates"
proof -
  let ?hs = "concat (map (\<lambda>p. map (\<lambda>v. best_match_on_page U threshold v p) (variants U value))
       (filter (\<lambda>p. pg_words p \<noteq> []) (in_scope pages candidates)))"
  from assms have "pick_best None ?hs = Some m" by (simp add: locate_def split: if_splits)
  then have "Some m \<in> set ?hs" using pick_best_spec by blast
  then obtain p v where "p \<in> set (in_scope pages candidates)" "v \<in> set (variants U value)" "best_match_on_page U threshold v p = Some m"
    by fastforce
  then show ?thesis unfolding page_hits_def by blast
qed

text \<open>C22: locating a value. A located match is the hit of some variant of the value on some page in scope,
  and unless its score is at least 0.999 no hit on any page in scope beats it; a value is not located
  exactly if it is blank or no variant has a hit on any page in scope. Candidate pages only narrow the
  scope when one of them has words.\<close>

theorem locate_best:
  "(case locate U threshold value pages candidates of
      Some m \<Rightarrow> m \<in> page_hits U threshold value pages candidates
        \<and> (999 / 1000 \<le> mr_score m \<or> page_hits U threshold value pages candidates \<subseteq> {h. mr_score h \<le> mr_score m})
    | None \<Rightarrow> normalise U True value = [] \<or> page_hits U threshold value pages candidates = {})"
proof -
  let ?hs = "concat (map (\<lambda>p. map (\<lambda>v. best_match_on_page U threshold v p) (variants U value))
       (filter (\<lambda>p. pg_words p \<noteq> []) (in_scope pages candidates)))"
  have hits: "Some m \<in> set ?hs \<longleftrightarrow> m \<in> page_hits U threshold value pages candidates" for m
  proof
    assume "Some m \<in> set ?hs"
    then obtain p v where "p \<in> set (in_scope pages candidates)" "v \<in> set (variants U value)" "best_match_on_page U threshold v p = Some m"
      by fastforce
    then show "m \<in> page_hits U threshold value pages candidates" unfolding page_hits_def by blast
  next
    assume "m \<in> page_hits U threshold value pages candidates"
    then obtain p v where pv: "p \<in> set (in_scope pages candidates)" "v \<in> set (variants U value)" "best_match_on_page U threshold v p = Some m"
      by (auto simp: page_hits_def)
    then have "pg_words p \<noteq> []" by (auto simp: best_match_on_page_def)
    with pv show "Some m \<in> set ?hs" by force
  qed
  show ?thesis
  proof (cases "locate U threshold value pages candidates")
    case None
    then have "normalise U True value = [] \<or> set ?hs \<subseteq> {None}"
      by (auto simp: locate_def pick_best_None split: if_splits simp del: set_concat)
    with None hits show ?thesis by (auto simp del: set_concat)
  next
    case (Some m)
    then have "pick_best None ?hs = Some m" by (simp add: locate_def split: if_splits)
    from pick_best_spec [OF this] hits Some show ?thesis by (auto simp del: set_concat)
  qed
qed

end
