(* ===== verification/BboxRefine.thy ===== *)
theory BboxRefine
  imports ValueMatch
begin

text \<open>
  \<open>LlmValueMatcher\<close>, \<open>HybridValueMatcher\<close> and \<open>BboxRefiner\<close> (\<open>core/services/bbox\<close>): the matcher that asks
  a model page by page, the cascade of the two matchers, and the pass that replaces the boxes of the
  leaves of an extraction by those of located values. The answers of the model are an argument, and
  so is the order in which its concurrent calls end.
\<close>

section \<open>The matcher that asks a model\<close>

record llm_match =
  lm_field :: string
  lm_indices :: "int list"
  lm_confidence :: rat

type_synonym page_fields = "(string \<times> utext) list"

text \<open>\<open>None\<close> is a call that raises.\<close>

type_synonym match_agent = "page_words \<Rightarrow> page_fields \<Rightarrow> llm_match list option"

definition words_for_indices :: "word list \<Rightarrow> int list \<Rightarrow> word list" where
  "words_for_indices ws is = map (\<lambda>i. ws ! nat i) (filter (\<lambda>i. 0 \<le> i \<and> i < int (length ws)) is)"

definition result_of :: "matches \<Rightarrow> string \<Rightarrow> match_result option" where
  "result_of rs i = (case map_of rs i of Some m \<Rightarrow> m | None \<Rightarrow> None)"

definition apply_match :: "rat \<Rightarrow> page_words \<Rightarrow> matches \<Rightarrow> llm_match \<Rightarrow> matches" where
  "apply_match threshold p rs m = (let ws = words_for_indices (pg_words p) (lm_indices m) in
     if lm_indices m = [] \<or> lm_confidence m < threshold \<or> ws = [] then rs
     else (let r = union_bbox ws (lm_confidence m) (pg_page p) in
       case result_of rs (lm_field m) of
         None \<Rightarrow> AList.update (lm_field m) (Some r) rs
       | Some old \<Rightarrow> if mr_score old < mr_score r then AList.update (lm_field m) (Some r) rs else rs))"

definition run_one_page :: "rat \<Rightarrow> match_agent \<Rightarrow> matches \<Rightarrow> page_words \<times> page_fields \<Rightarrow> matches" where
  "run_one_page threshold ask rs call = (case ask (fst call) (snd call) of
     None \<Rightarrow> rs | Some ms \<Rightarrow> foldl (apply_match threshold (fst call)) rs ms)"

type_synonym page_plan = "(int \<times> page_fields) list"

definition add_to_page :: "page_plan \<Rightarrow> int \<Rightarrow> string \<times> utext \<Rightarrow> page_plan" where
  "add_to_page plan n f = AList.update n ((case map_of plan n of Some fs \<Rightarrow> fs | None \<Rightarrow> []) @ [f]) plan"

text \<open>The order in which the set of all pages is walked is that of the list here.\<close>

definition group_by_page :: "targets \<Rightarrow> page_words list \<Rightarrow> page_plan" where
  "group_by_page ts pages = (let valid = remdups (map pg_page pages) in
     foldl (\<lambda>plan t. case t of (i, v, cand) \<Rightarrow>
       foldl (\<lambda>plan n. add_to_page plan n (i, v)) plan
         (case cand of None \<Rightarrow> valid | Some [] \<Rightarrow> valid | Some cs \<Rightarrow> filter (\<lambda>n. n \<in> set valid) cs)) [] ts)"

definition other_pages :: "targets \<Rightarrow> page_words list \<Rightarrow> page_plan" where
  "other_pages ts pages = foldl (\<lambda>plan t. case t of (i, v, cand) \<Rightarrow>
     foldl (\<lambda>plan n. add_to_page plan n (i, v)) plan
       (filter (\<lambda>n. n \<notin> set (case cand of None \<Rightarrow> [] | Some cs \<Rightarrow> cs)) (map pg_page pages))) [] ts"

text \<open>The calls of a pass are made for the fields still open when it starts.\<close>

definition page_calls :: "page_words list \<Rightarrow> page_plan \<Rightarrow> matches \<Rightarrow> (page_words \<times> page_fields) list" where
  "page_calls pages plan rs = concat (map (\<lambda>(n, fs). case page_by_number pages n of None \<Rightarrow> []
     | Some p \<Rightarrow> (let opened = filter (\<lambda>f. result_of rs (fst f) = None) fs in if opened = [] then [] else [(p, opened)])) plan)"

text \<open>The calls of a pass run concurrently; each merges its answer when it ends, at the moment given here.\<close>

type_synonym finish_time = "page_words \<times> page_fields \<Rightarrow> nat"

definition run_pages :: "rat \<Rightarrow> match_agent \<Rightarrow> finish_time \<Rightarrow> page_words list \<Rightarrow> page_plan \<Rightarrow> matches \<Rightarrow> matches" where
  "run_pages threshold ask finish pages plan rs = foldl (run_one_page threshold ask) rs (sort_key finish (page_calls pages plan rs))"

definition blank_matches :: "targets \<Rightarrow> matches" where
  "blank_matches ts = foldl (\<lambda>d t. AList.update (fst t) None d) [] ts"

definition llm_locate_all :: "rat \<Rightarrow> match_agent \<Rightarrow> finish_time \<Rightarrow> page_words list \<Rightarrow> targets \<Rightarrow> matches" where
  "llm_locate_all threshold ask finish pages ts =
     (let ps = filter (\<lambda>p. pg_words p \<noteq> []) pages in
      if ts = [] \<or> ps = [] then blank_matches ts
      else (let rs = run_pages threshold ask finish ps (group_by_page ts ps) (blank_matches ts);
                missing = filter (\<lambda>t. result_of rs (fst t) = None) ts in
        if missing = [] then rs else run_pages threshold ask finish ps (other_pages missing ps) rs))"

section \<open>The cascade\<close>

type_synonym matcher = "page_words list \<Rightarrow> targets \<Rightarrow> matches"

definition hybrid_locate_all :: "matcher \<Rightarrow> matcher \<Rightarrow> matcher" where
  "hybrid_locate_all fuzzy llm pages ts = (if ts = [] then []
     else (let first = fuzzy pages ts; residual = filter (\<lambda>t. result_of first (fst t) = None) ts in
       if residual = [] then first else foldl (\<lambda>d (i, m). AList.update i m d) first (llm pages residual)))"

lemma foldl_update: "map_of (foldl (\<lambda>d (i, m). AList.update i m d) d kvs) i = (case dict_of kvs i of Some m \<Rightarrow> Some m | None \<Rightarrow> map_of d i)"
proof (induction kvs rule: rev_induct)
  case (snoc kv kvs)
  then show ?case by (cases kv) (simp add: update_conv')
qed simp

lemma dict_of_distinct: "distinct (map fst kvs) \<Longrightarrow> dict_of kvs = map_of kvs"
  unfolding dict_of_def by (subst map_of_inject_set) (simp_all flip: rev_map)


section \<open>The refiner\<close>

primrec leaves :: "xfield \<Rightarrow> xfield list"
and value_leaves :: "xvalue \<Rightarrow> xfield list option" where
  "leaves (XField m v) = (case value_leaves v of None \<Rightarrow> [XField m v] | Some fs \<Rightarrow> fs)"
| "value_leaves VNone = None"
| "value_leaves (VStr s) = None"
| "value_leaves (VInt i) = None"
| "value_leaves (VFloat f) = None"
| "value_leaves (VBool b) = None"
| "value_leaves (VList fs) = Some (concat (map leaves fs))"

text \<open>The leaves are shared with the tree: writing a list of new leaves back.\<close>

fun put_field :: "xfield \<Rightarrow> xfield list \<Rightarrow> xfield \<times> xfield list"
and put_fields :: "xfield list \<Rightarrow> xfield list \<Rightarrow> xfield list \<times> xfield list" where
  "put_field (XField m (VList fs)) ls = (case put_fields fs ls of (fs', r) \<Rightarrow> (XField m (VList fs'), r))"
| "put_field f [] = (f, [])"
| "put_field f (l # ls) = (l, ls)"
| "put_fields [] ls = ([], ls)"
| "put_fields (f # fs) ls = (case put_field f ls of (f', r) \<Rightarrow> (case put_fields fs r of (fs', r') \<Rightarrow> (f' # fs', r')))"

fun put_groups :: "xgroup list \<Rightarrow> xfield list \<Rightarrow> xgroup list" where
  "put_groups [] ls = []"
| "put_groups (g # gs) ls = (case put_fields (xg_fields g) ls of (fs, r) \<Rightarrow> g\<lparr>xg_fields := fs\<rparr> # put_groups gs r)"

definition group_leaves :: "xgroup list \<Rightarrow> xfield list" where
  "group_leaves gs = concat (map (\<lambda>g. concat (map leaves (xg_fields g))) gs)"

definition value_as_string :: "pylib \<Rightarrow> xvalue \<Rightarrow> string" where
  "value_as_string L v = (case v of VNone \<Rightarrow> [] | VBool _ \<Rightarrow> [] | VList _ \<Rightarrow> [] | VStr s \<Rightarrow> py_strip s | w \<Rightarrow> py_str L w)"

definition box_source :: "xfield \<Rightarrow> bbox_source option" where
  "box_source f = (case xm_bbox (xf_meta f) of None \<Rightarrow> None | Some b \<Rightarrow> bb_source b)"

definition grounded :: "xfield \<Rightarrow> bool" where
  "grounded f = (box_source f = Some S_PDF_TEXT \<or> box_source f = Some S_OCR)"

definition residual_targets :: "pylib \<Rightarrow> xfield list \<Rightarrow> targets" where
  "residual_targets L ls = concat (map (\<lambda>(i, f). let s = value_as_string L (xf_value f) in
     if s = [] \<or> grounded f then []
     else [(str_of_nat i, map code_point s, if xm_pages (xf_meta f) = [] then None else Some (xm_pages (xf_meta f)))]) (List.enumerate 0 ls))"

definition page_source :: "page_words list \<Rightarrow> int \<Rightarrow> bbox_source" where
  "page_source pages n = (case List.find (\<lambda>p. pg_page p = n) pages of Some p \<Rightarrow> pg_source p | None \<Rightarrow> S_PDF_TEXT)"

text \<open>\<open>_replace_bbox\<close>: the constructor of the box checks its corners and raises.\<close>

definition new_box :: "bounding_box option \<Rightarrow> match_result \<Rightarrow> bbox_source \<Rightarrow> bounding_box" where
  "new_box old m src = \<lparr>bb_xmin = mr_xmin m, bb_ymin = mr_ymin m, bb_xmax = mr_xmax m, bb_ymax = mr_ymax m,
     bb_quality = (case old of Some b \<Rightarrow> bb_quality b | None \<Rightarrow> None), bb_score = (case old of Some b \<Rightarrow> bb_score b | None \<Rightarrow> 0),
     bb_source = Some src, bb_refinement = Some (mr_score m)\<rparr>"

definition replace_bbox :: "xfield \<Rightarrow> match_result \<Rightarrow> bbox_source \<Rightarrow> xfield option" where
  "replace_bbox f m src = (let b = new_box (xm_bbox (xf_meta f)) m src in
     if bbox_valid b then Some (upd_meta (\<lambda>x. x\<lparr>xm_bbox := Some b,
       xm_pages := if mr_page m \<in> set (xm_pages x) then xm_pages x else mr_page m # xm_pages x\<rparr>) f) else None)"

definition keep_llm :: "xfield \<Rightarrow> xfield" where
  "keep_llm f = upd_meta (\<lambda>x. x\<lparr>xm_bbox := map_option (\<lambda>b. b\<lparr>bb_source := Some S_LLM, bb_refinement := None\<rparr>) (xm_bbox x)\<rparr>) f"

record counters =
  ct_seen :: nat
  ct_pdf :: nat
  ct_ocr :: nat
  ct_kept :: nat

definition refine_leaf :: "page_words list \<Rightarrow> match_result option \<Rightarrow> xfield \<Rightarrow> xfield option" where
  "refine_leaf pages m f = (case m of None \<Rightarrow> Some (keep_llm f) | Some r \<Rightarrow> replace_bbox f r (page_source pages (mr_page r)))"

text \<open>The loop over the residual targets: a box that is refused ends it, the leaves before are done. The flag says
  whether it raised.\<close>

fun refine_loop :: "page_words list \<Rightarrow> (nat \<Rightarrow> match_result option) \<Rightarrow> nat list \<Rightarrow> xfield list \<times> counters \<Rightarrow> (xfield list \<times> counters) \<times> bool" where
  "refine_loop pages rs [] st = (st, False)"
| "refine_loop pages rs (i # is) st = (case st of (ls, c) \<Rightarrow> (case refine_leaf pages (rs i) (ls ! i) of
     None \<Rightarrow> ((ls, c), True)
   | Some f \<Rightarrow> refine_loop pages rs is (ls[i := f], case rs i of
       None \<Rightarrow> c\<lparr>ct_kept := ct_kept c + 1\<rparr>
     | Some r \<Rightarrow> if page_source pages (mr_page r) = S_PDF_TEXT then c\<lparr>ct_pdf := ct_pdf c + 1\<rparr> else c\<lparr>ct_ocr := ct_ocr c + 1\<rparr>)))"

definition start_counters :: "xfield list \<Rightarrow> counters" where
  "start_counters ls = \<lparr>ct_seen = length ls, ct_pdf = length (filter (\<lambda>f. box_source f = Some S_PDF_TEXT) ls),
     ct_ocr = length (filter (\<lambda>f. box_source f = Some S_OCR) ls), ct_kept = 0\<rparr>"

definition refine_leaves :: "pylib \<Rightarrow> matcher \<Rightarrow> page_words list \<Rightarrow> xfield list \<Rightarrow> (xfield list \<times> counters) \<times> bool" where
  "refine_leaves L match pages ls = (let ts = residual_targets L ls in
     if ts = [] then ((ls, start_counters ls), False)
     else (let rs = match pages ts in
       refine_loop pages (\<lambda>i. result_of rs (str_of_nat i)) (map (\<lambda>t. int_of_str (fst t)) ts) (ls, start_counters ls)))"

definition no_counters :: counters where
  "no_counters = \<lparr>ct_seen = 0, ct_pdf = 0, ct_ocr = 0, ct_kept = 0\<rparr>"

definition refine :: "pylib \<Rightarrow> matcher \<Rightarrow> page_words list \<Rightarrow> xgroup list \<Rightarrow> xgroup list \<times> counters \<times> bool" where
  "refine L match pages groups = (if groups = [] then ([], no_counters, False)
     else case refine_leaves L match pages (group_leaves groups) of ((ls, c), raised) \<Rightarrow> (put_groups groups ls, c, raised))"

section \<open>What the pass changes\<close>

text \<open>A field without the boxes and pages of its leaves.\<close>

definition unboxed :: "xfield \<Rightarrow> xfield" where
  "unboxed f = upd_meta (\<lambda>x. x\<lparr>xm_bbox := None, xm_pages := []\<rparr>) f"

fun bare :: "xfield \<Rightarrow> xfield" where
  "bare (XField m (VList fs)) = XField m (VList (map bare fs))"
| "bare f = unboxed f"

lemma unboxed_simps [simp]: "xf_value (unboxed f) = xf_value f" "xf_name (unboxed f) = xf_name f"
  by (simp_all add: unboxed_def)

lemma unboxed_keep_llm [simp]: "unboxed (keep_llm f) = unboxed f"
  by (simp add: unboxed_def keep_llm_def upd_meta_def)

lemma refine_leaf_bare: "refine_leaf pages m f = Some g \<Longrightarrow> unboxed g = unboxed f"
  by (auto simp: refine_leaf_def replace_bbox_def Let_def unboxed_def upd_meta_def keep_llm_def split: option.splits if_splits)

lemma refine_leaf_grounded:
  "refine_leaf pages (Some r) f = Some g \<Longrightarrow> box_source g = Some (page_source pages (mr_page r)) \<and> rel_option (\<lambda>b _. bbox_valid b) (xm_bbox (xf_meta g)) (Some ())"
  by (auto simp: refine_leaf_def replace_bbox_def Let_def box_source_def new_box_def split: if_splits)

text \<open>The targets before the first one whose box is refused are done, the others untouched.\<close>

definition done_targets :: "page_words list \<Rightarrow> (nat \<Rightarrow> match_result option) \<Rightarrow> xfield list \<Rightarrow> nat list \<Rightarrow> nat list" where
  "done_targets pages rs ls is = takeWhile (\<lambda>i. refine_leaf pages (rs i) (ls ! i) \<noteq> None) is"

definition counted :: "counters \<Rightarrow> nat" where
  "counted c = ct_pdf c + ct_ocr c + ct_kept c"

lemma done_targets_update:
  "i \<notin> set is \<Longrightarrow> done_targets pages rs (ls[i := f]) is = done_targets pages rs ls is"
  unfolding done_targets_def by (intro takeWhile_cong refl) (metis nth_list_update_neq)

lemma refine_loop_spec:
  assumes "refine_loop pages rs is (ls, c) = ((ls', c'), raised)" "distinct is" "\<And>i. i \<in> set is \<Longrightarrow> i < length ls"
  shows "length ls' = length ls \<and> ct_seen c' = ct_seen c \<and> counted c' = counted c + length (done_targets pages rs ls is)
    \<and> (\<forall>i<length ls. ls' ! i = (if i \<in> set (done_targets pages rs ls is) then the (refine_leaf pages (rs i) (ls ! i)) else ls ! i))
    \<and> raised = (done_targets pages rs ls is \<noteq> is)"
  using assms
proof (induction "is" arbitrary: ls c)
  case Nil
  then show ?case by (simp add: done_targets_def)
next
  case (Cons i "is")
  show ?case
  proof (cases "refine_leaf pages (rs i) (ls ! i)")
    case None
    with Cons.prems(1) show ?thesis by (auto simp: done_targets_def)
  next
    case (Some f)
    let ?c = "case rs i of None \<Rightarrow> c\<lparr>ct_kept := ct_kept c + 1\<rparr>
       | Some r \<Rightarrow> if page_source pages (mr_page r) = S_PDF_TEXT then c\<lparr>ct_pdf := ct_pdf c + 1\<rparr> else c\<lparr>ct_ocr := ct_ocr c + 1\<rparr>"
    have run: "refine_loop pages rs is (ls[i := f], ?c) = ((ls', c'), raised)" using Cons.prems(1) Some by simp
    have i: "i \<notin> set is" "i < length ls" using Cons.prems by auto
    have d: "done_targets pages rs ls (i # is) = i # done_targets pages rs ls is" using Some by (simp add: done_targets_def)
    have sub: "set (done_targets pages rs ls is) \<subseteq> set is" by (auto simp: done_targets_def dest: set_takeWhileD)
    have c: "counted ?c = Suc (counted c)" "ct_seen ?c = ct_seen c" by (auto simp: counted_def split: option.split)
    from Cons.IH [OF run] Cons.prems(2,3) have ih: "length ls' = length ls \<and> ct_seen c' = ct_seen ?c \<and> counted c' = counted ?c + length (done_targets pages rs (ls[i := f]) is)
      \<and> (\<forall>k<length ls. ls' ! k = (if k \<in> set (done_targets pages rs (ls[i := f]) is) then the (refine_leaf pages (rs k) (ls[i := f] ! k)) else ls[i := f] ! k))
      \<and> raised = (done_targets pages rs (ls[i := f]) is \<noteq> is)" by simp
    have nth: "ls' ! k = (if k \<in> set (i # done_targets pages rs ls is) then the (refine_leaf pages (rs k) (ls ! k)) else ls ! k)" if "k < length ls" for k
      using ih that i sub Some unfolding done_targets_update [OF i(1)] by (auto simp: nth_list_update)
    show ?thesis unfolding d using ih nth c unfolding done_targets_update [OF i(1)] by auto
  qed
qed

lemma bare_leaf: "\<not> is_rows (xf_value f) \<Longrightarrow> bare f = unboxed f"
  by (cases f rule: bare.cases) (auto simp: is_rows_def)

lemma leaves_leaf: "\<not> is_rows (xf_value f) \<Longrightarrow> leaves f = [f]"
  by (cases f; cases "xf_value f") (auto simp: is_rows_def)

lemma leaves_not_rows:
  "g \<in> set (leaves f) \<Longrightarrow> \<not> is_rows (xf_value g)"
  "value_leaves v = Some gs \<Longrightarrow> g \<in> set gs \<Longrightarrow> \<not> is_rows (xf_value g)"
proof (induction f and v arbitrary: g and g gs)
  case (XField m v)
  then show ?case by (cases v) (auto simp: is_rows_def split: option.splits)
next
  case (VList fs)
  then show ?case by auto
qed auto

lemma put_leaf: "\<not> is_rows (xf_value f) \<Longrightarrow> put_field f ls = (case ls of [] \<Rightarrow> (f, []) | l # r \<Rightarrow> (l, r))"
  by (cases f; cases "xf_value f") (auto simp: is_rows_def split: list.split)

text \<open>Writing back leaves that differ in their boxes and pages only changes the tree in those only.\<close>

lemma put_bare:
  "map unboxed (take (length (leaves f)) ls) = map unboxed (leaves f) \<Longrightarrow> list_all (\<lambda>l. \<not> is_rows (xf_value l)) ls
     \<Longrightarrow> bare (fst (put_field f ls)) = bare f \<and> snd (put_field f ls) = drop (length (leaves f)) ls"
  "map unboxed (take (length (concat (map leaves fs))) ls) = map unboxed (concat (map leaves fs)) \<Longrightarrow> list_all (\<lambda>l. \<not> is_rows (xf_value l)) ls
     \<Longrightarrow> map bare (fst (put_fields fs ls)) = map bare fs \<and> snd (put_fields fs ls) = drop (length (concat (map leaves fs))) ls"
proof (induction f ls and fs ls rule: put_field_put_fields.induct)
  case (1 m fs ls)
  then show ?case by (auto split: prod.split)
next
  case (5 f fs ls)
  let ?n = "length (leaves f)"
  have a: "map unboxed (take ?n ls) = map unboxed (leaves f)"
    and b: "map unboxed (take (length (concat (map leaves fs))) (drop ?n ls)) = map unboxed (concat (map leaves fs))"
    using 5(3) by (auto simp: take_add append_eq_append_conv_if dest!: arg_cong [of _ _ length])
  from 5(1) [OF a 5(4)] obtain f' where f': "put_field f ls = (f', drop ?n ls)" "bare f' = bare f" by (cases "put_field f ls") auto
  from 5(4) have "list_all (\<lambda>l. \<not> is_rows (xf_value l)) (drop ?n ls)" by (auto simp: list_all_iff dest: in_set_dropD)
  from 5(2) [OF f'(1) [symmetric] b this] f' show ?case by (auto split: prod.split simp: add.commute)
qed (auto simp: bare_leaf is_rows_def split: prod.split)

lemma put_groups_bare:
  "map unboxed ls = map unboxed (group_leaves gs) \<Longrightarrow> list_all (\<lambda>l. \<not> is_rows (xf_value l)) ls
     \<Longrightarrow> map (\<lambda>g. (xg_name g, map bare (xg_fields g))) (put_groups gs ls) = map (\<lambda>g. (xg_name g, map bare (xg_fields g))) gs"
proof (induction gs arbitrary: ls)
  case (Cons g gs)
  let ?n = "length (concat (map leaves (xg_fields g)))"
  have a: "map unboxed (take ?n ls) = map unboxed (concat (map leaves (xg_fields g)))"
    and b: "map unboxed (drop ?n ls) = map unboxed (group_leaves gs)"
    using Cons.prems(1) by (simp_all add: group_leaves_def flip: take_map drop_map)
  from put_bare(2) [OF a Cons.prems(2)] obtain fs where fs: "put_fields (xg_fields g) ls = (fs, drop ?n ls)" "map bare fs = map bare (xg_fields g)"
    by (cases "put_fields (xg_fields g) ls") auto
  from Cons.prems(2) have "list_all (\<lambda>l. \<not> is_rows (xf_value l)) (drop ?n ls)" by (auto simp: list_all_iff dest: in_set_dropD)
  from Cons.IH [OF b this] fs show ?case by simp
qed simp

text \<open>The indices asked about.\<close>

definition wanted :: "pylib \<Rightarrow> xfield \<Rightarrow> bool" where
  "wanted L f = (value_as_string L (xf_value f) \<noteq> [] \<and> \<not> grounded f)"

definition wanted_indices :: "pylib \<Rightarrow> xfield list \<Rightarrow> nat list" where
  "wanted_indices L ls = filter (\<lambda>i. wanted L (ls ! i)) [0..<length ls]"

definition target_of :: "pylib \<Rightarrow> nat \<Rightarrow> xfield \<Rightarrow> string \<times> utext \<times> int list option" where
  "target_of L i f = (str_of_nat i, map code_point (value_as_string L (xf_value f)), if xm_pages (xf_meta f) = [] then None else Some (xm_pages (xf_meta f)))"

lemma residual_targets_eq: "residual_targets L ls = map (\<lambda>i. target_of L i (ls ! i)) (wanted_indices L ls)"
proof -
  have e: "List.enumerate 0 ls = map (\<lambda>i. (i, ls ! i)) [0..<length ls]"
    by (rule nth_equalityI) (simp_all add: nth_enumerate_eq)
  have c: "concat (map (\<lambda>i. if wanted L (ls ! i) then [target_of L i (ls ! i)] else []) is) = map (\<lambda>i. target_of L i (ls ! i)) (filter (\<lambda>i. wanted L (ls ! i)) is)" for "is"
    by (induction "is") auto
  show ?thesis unfolding wanted_indices_def c [symmetric] residual_targets_def e map_map
    by (rule arg_cong [of _ _ concat]) (auto simp: wanted_def target_of_def Let_def)
qed

lemma target_index: "map (\<lambda>t. int_of_str (fst t)) (residual_targets L ls) = wanted_indices L ls"
  by (simp add: residual_targets_eq target_of_def comp_def)

definition answer :: "matcher \<Rightarrow> page_words list \<Rightarrow> pylib \<Rightarrow> xfield list \<Rightarrow> nat \<Rightarrow> match_result option" where
  "answer match pages L ls i = result_of (match pages (residual_targets L ls)) (str_of_nat i)"

lemma refine_leaves_loop:
  "refine_leaves L match pages ls = refine_loop pages (answer match pages L ls) (wanted_indices L ls) (ls, start_counters ls)"
  using target_index [of L ls] by (cases "residual_targets L ls = []") (simp_all add: refine_leaves_def answer_def [abs_def])

lemma wanted_indices_ok: "distinct (wanted_indices L ls)" "i \<in> set (wanted_indices L ls) \<longleftrightarrow> i < length ls \<and> wanted L (ls ! i)"
  by (auto simp: wanted_indices_def)

definition finished :: "matcher \<Rightarrow> page_words list \<Rightarrow> pylib \<Rightarrow> xfield list \<Rightarrow> nat list" where
  "finished match pages L ls = done_targets pages (answer match pages L ls) ls (wanted_indices L ls)"

lemma refine_leaves_spec:
  assumes "refine_leaves L match pages ls = ((ls', c), raised)"
  shows "length ls' = length ls" "ct_seen c = length ls"
    "counted c = length (filter grounded ls) + length (finished match pages L ls)"
    "\<And>i. i < length ls \<Longrightarrow> ls' ! i = (if i \<in> set (finished match pages L ls) then the (refine_leaf pages (answer match pages L ls i) (ls ! i)) else ls ! i)"
    "raised = (finished match pages L ls \<noteq> wanted_indices L ls)"
proof -
  have s: "counted (start_counters ls) = length (filter grounded ls)"
    by (induction ls) (auto simp: counted_def start_counters_def grounded_def)
  note r = refine_loop_spec [OF assms [unfolded refine_leaves_loop] wanted_indices_ok(1), folded finished_def]
  have t: "ct_seen (start_counters ls) = length ls" by (simp add: start_counters_def)
  from r s t show "length ls' = length ls" "ct_seen c = length ls"
    "counted c = length (filter grounded ls) + length (finished match pages L ls)"
    "\<And>i. i < length ls \<Longrightarrow> ls' ! i = (if i \<in> set (finished match pages L ls) then the (refine_leaf pages (answer match pages L ls i) (ls ! i)) else ls ! i)"
    "raised = (finished match pages L ls \<noteq> wanted_indices L ls)"
    by (auto simp: wanted_indices_ok(2))
qed

lemma finished_done: "i \<in> set (finished match pages L ls) \<Longrightarrow>
  i < length ls \<and> wanted L (ls ! i) \<and> (\<exists>g. refine_leaf pages (answer match pages L ls i) (ls ! i) = Some g)"
  using wanted_indices_ok(2) by (fastforce simp: finished_def done_targets_def dest: set_takeWhileD)

lemma refine_leaves_unboxed:
  assumes "refine_leaves L match pages ls = ((ls', c), raised)"
  shows "map unboxed ls' = map unboxed ls"
proof (rule nth_equalityI)
  fix i assume "i < length (map unboxed ls')"
  with refine_leaves_spec(1,4) [OF assms] finished_done [of i match pages L ls] refine_leaf_bare
  show "map unboxed ls' ! i = map unboxed ls ! i" by fastforce
qed (use refine_leaves_spec(1) [OF assms] in simp)

lemma unboxed_value: "map unboxed ls' = map unboxed ls \<Longrightarrow> map xf_value ls' = map xf_value ls"
  by (metis (no_types, lifting) map_eq_conv map_map comp_apply unboxed_simps(1))

lemma group_leaves_not_rows: "list_all (\<lambda>l. \<not> is_rows (xf_value l)) (group_leaves gs)"
  by (auto simp: group_leaves_def list_all_iff dest: leaves_not_rows)

lemma list_all_value: "map xf_value ls' = map xf_value ls \<Longrightarrow> list_all (\<lambda>l. P (xf_value l)) ls' = list_all (\<lambda>l. P (xf_value l)) ls"
  by (drule arg_cong [of _ _ "list_all P"]) (simp add: list.pred_map comp_def)

text \<open>Reading the leaves back gives the leaves written.\<close>

lemma leaves_put:
  "length (leaves f) \<le> length ls \<Longrightarrow> list_all (\<lambda>l. \<not> is_rows (xf_value l)) ls
     \<Longrightarrow> leaves (fst (put_field f ls)) = take (length (leaves f)) ls \<and> snd (put_field f ls) = drop (length (leaves f)) ls"
  "length (concat (map leaves fs)) \<le> length ls \<Longrightarrow> list_all (\<lambda>l. \<not> is_rows (xf_value l)) ls
     \<Longrightarrow> concat (map leaves (fst (put_fields fs ls))) = take (length (concat (map leaves fs))) ls
       \<and> snd (put_fields fs ls) = drop (length (concat (map leaves fs))) ls"
proof (induction f ls and fs ls rule: put_field_put_fields.induct)
  case (1 m fs ls)
  then show ?case by (auto split: prod.split)
next
  case (5 f fs ls)
  let ?n = "length (leaves f)"
  have a: "?n \<le> length ls" and b: "length (concat (map leaves fs)) \<le> length (drop ?n ls)" using 5(3) by auto
  from 5(1) [OF a 5(4)] obtain f' where f': "put_field f ls = (f', drop ?n ls)" "leaves f' = take ?n ls" by (cases "put_field f ls") auto
  from 5(4) have "list_all (\<lambda>l. \<not> is_rows (xf_value l)) (drop ?n ls)" by (auto simp: list_all_iff dest: in_set_dropD)
  from 5(2) [OF f'(1) [symmetric] b this] f' show ?case by (auto split: prod.split simp: add.commute take_add)
qed (auto simp: leaves_leaf is_rows_def split: prod.split)

lemma group_leaves_put:
  "length ls = length (group_leaves gs) \<Longrightarrow> list_all (\<lambda>l. \<not> is_rows (xf_value l)) ls \<Longrightarrow> group_leaves (put_groups gs ls) = ls"
proof (induction gs arbitrary: ls)
  case (Cons g gs)
  let ?n = "length (concat (map leaves (xg_fields g)))"
  have a: "?n \<le> length ls" and b: "length (drop ?n ls) = length (group_leaves gs)" using Cons.prems(1) by (simp_all add: group_leaves_def)
  from leaves_put(2) [OF a Cons.prems(2)] obtain fs where fs: "put_fields (xg_fields g) ls = (fs, drop ?n ls)" "concat (map leaves fs) = take ?n ls"
    by (cases "put_fields (xg_fields g) ls") auto
  from Cons.prems(2) have "list_all (\<lambda>l. \<not> is_rows (xf_value l)) (drop ?n ls)" by (auto simp: list_all_iff dest: in_set_dropD)
  from Cons.IH [OF b this] fs show ?case by (simp add: group_leaves_def)
qed (simp add: group_leaves_def)

lemma refine_leaves_of:
  assumes "refine L match pages gs = (gs', c, raised)"
  shows "refine_leaves L match pages (group_leaves gs) = ((group_leaves gs', c), raised) \<or> gs = [] \<and> gs' = [] \<and> c = no_counters \<and> \<not> raised"
proof (cases "gs = []")
  case False
  obtain ls c' r' where r: "refine_leaves L match pages (group_leaves gs) = ((ls, c'), r')" by (metis surj_pair)
  note u = refine_leaves_unboxed [OF r]
  have n: "list_all (\<lambda>l. \<not> is_rows (xf_value l)) ls" using list_all_value [OF unboxed_value [OF u], of "\<lambda>v. \<not> is_rows v"] group_leaves_not_rows by simp
  from group_leaves_put [OF _ n, of gs] map_eq_imp_length_eq [OF u] assms r False show ?thesis by (auto simp: refine_def)
qed (use assms in \<open>simp add: refine_def\<close>)

lemma group_leaves_Nil [simp]: "group_leaves [] = []" by (simp add: group_leaves_def)

lemma only_boxes:
  "map (\<lambda>g. (xg_name g, map bare (xg_fields g))) (fst (refine L match pages gs)) = map (\<lambda>g. (xg_name g, map bare (xg_fields g))) gs"
proof -
  obtain ls c raised where r: "refine_leaves L match pages (group_leaves gs) = ((ls, c), raised)" by (metis surj_pair)
  note u = refine_leaves_unboxed [OF r]
  have "list_all (\<lambda>l. \<not> is_rows (xf_value l)) ls" using list_all_value [OF unboxed_value [OF u], of "\<lambda>v. \<not> is_rows v"] group_leaves_not_rows by simp
  from put_groups_bare [OF u this] r show ?thesis by (simp add: refine_def)
qed

text \<open>The only thing the pass touches. Whatever words, matcher and answers, also when it raises half way, the
  fields keep their order, names, values, confidences, verdicts and, above the leaves, their boxes and
  pages: only the boxes and pages of leaves change.\<close>

theorem refine_only_boxes:
  "map (\<lambda>g. (xg_name g, map bare (xg_fields g))) (fst (refine L match pages gs)) = map (\<lambda>g. (xg_name g, map bare (xg_fields g))) gs"
  by (rule only_boxes)

lemma wanted_indices_filter:
  "length (filter grounded ls) + length (wanted_indices L ls) = length (filter (\<lambda>f. grounded f \<or> value_as_string L (xf_value f) \<noteq> []) ls)"
proof -
  have "length (wanted_indices L ls) = length (filter (wanted L) ls)"
    using arg_cong [OF map_nth [of ls], of "\<lambda>xs. length (filter (wanted L) xs)"] by (simp add: wanted_indices_def filter_map comp_def del: map_nth)
  moreover have "length (filter grounded ls) + length (filter (wanted L) ls) = length (filter (\<lambda>f. grounded f \<or> value_as_string L (xf_value f) \<noteq> []) ls)"
    by (induction ls) (auto simp: wanted_def)
  ultimately show ?thesis by simp
qed

text \<open>When the pass raises and what it counts. It raises exactly if the box the matcher gives for some field it
  was asked about is refused. If it does not raise, its counters add up to the leaves that were grounded
  before or have a value to look for, and \<open>fields_seen\<close> is the number of leaves.\<close>

theorem refine_counts:
  "(case refine L match pages gs of (gs', c, raised) \<Rightarrow>
      raised = list_ex (\<lambda>i. refine_leaf pages (answer match pages L (group_leaves gs) i) (group_leaves gs ! i) = None) (wanted_indices L (group_leaves gs))
      \<and> ct_seen c = length (group_leaves gs)
      \<and> ct_pdf c + ct_ocr c + ct_kept c = length (filter grounded (group_leaves gs)) + length (finished match pages L (group_leaves gs))
      \<and> (raised \<or> ct_pdf c + ct_ocr c + ct_kept c = length (filter (\<lambda>f. grounded f \<or> value_as_string L (xf_value f) \<noteq> []) (group_leaves gs))))"
proof -
  obtain gs' c raised where r: "refine L match pages gs = (gs', c, raised)" by (metis surj_pair)
  let ?ls = "group_leaves gs"
  have ex: "(finished match pages L ?ls \<noteq> wanted_indices L ?ls) = list_ex (\<lambda>i. refine_leaf pages (answer match pages L ?ls i) (?ls ! i) = None) (wanted_indices L ?ls)"
    by (auto simp: finished_def done_targets_def list_ex_iff takeWhile_eq_all_conv)
  show ?thesis
  proof (cases "gs = []")
    case True
    with r show ?thesis by (auto simp: refine_def no_counters_def finished_def done_targets_def wanted_indices_def)
  next
    case False
    with refine_leaves_of [OF r] have "refine_leaves L match pages ?ls = ((group_leaves gs', c), raised)" by simp
    from refine_leaves_spec [OF this] r wanted_indices_filter [of ?ls L] ex show ?thesis by (auto simp: counted_def)
  qed
qed

text \<open>C21: a second pass. After a pass that ended, over pages that come from a text layer or an OCR engine, a second
  pass asks the matcher about exactly the values the first did not locate, unchanged; so what the inline
  pass grounded is left alone by the background worker, whatever its matcher.\<close>

theorem refine_second_run:
  assumes "refine L match pages gs = (gs', c, False)" "list_all (\<lambda>p. pg_source p \<noteq> S_LLM) pages"
  shows "residual_targets L (group_leaves gs') = filter (\<lambda>t. result_of (match pages (residual_targets L (group_leaves gs))) (fst t) = None) (residual_targets L (group_leaves gs))"
proof (cases "gs = []")
  case True
  with assms(1) show ?thesis by (simp add: refine_def residual_targets_def)
next
  case False
  let ?ls = "group_leaves gs" and ?ls' = "group_leaves gs'"
  have r: "refine_leaves L match pages ?ls = ((?ls', c), False)" using refine_leaves_of [OF assms(1)] False by simp
  note spec = refine_leaves_spec [OF r]
  have fin: "finished match pages L ?ls = wanted_indices L ?ls" using spec(5) by simp
  have src: "page_source pages n \<noteq> S_LLM" for n
    using assms(2) by (auto simp: page_source_def list_all_iff dest: find_Some_set split: option.split)
  have same_value: "xf_value (?ls' ! i) = xf_value (?ls ! i)" if "i < length ?ls" for i
    using unboxed_value [OF refine_leaves_unboxed [OF r]] that spec(1) by (metis nth_map)
  have step: "wanted L (?ls' ! i) = (wanted L (?ls ! i) \<and> answer match pages L ?ls i = None) \<and> (wanted L (?ls' ! i) \<longrightarrow> target_of L i (?ls' ! i) = target_of L i (?ls ! i))"
    if i: "i < length ?ls" for i
  proof (cases "wanted L (?ls ! i)")
    case False
    then show ?thesis using spec(4) [OF i] by (simp add: fin wanted_indices_ok(2))
  next
    case True
    then have w: "i \<in> set (finished match pages L ?ls)" using i by (simp add: fin wanted_indices_ok(2))
    then obtain g where g: "refine_leaf pages (answer match pages L ?ls i) (?ls ! i) = Some g" using finished_done by blast
    have n: "?ls' ! i = g" using spec(4) [OF i] w g by simp
    show ?thesis
    proof (cases "answer match pages L ?ls i")
      case None
      with g n True show ?thesis
        using same_value [OF i] by (auto simp: refine_leaf_def keep_llm_def wanted_def grounded_def box_source_def target_of_def split: option.splits)
    next
      case (Some m)
      from refine_leaf_grounded [OF g [unfolded Some]] src have "grounded g" by (cases "page_source pages (mr_page m)") (auto simp: grounded_def)
      with n Some show ?thesis by (simp add: wanted_def)
    qed
  qed
  have w: "wanted_indices L ?ls' = filter (\<lambda>i. answer match pages L ?ls i = None) (wanted_indices L ?ls)"
    unfolding wanted_indices_def filter_filter spec(1) using step by (intro filter_cong) auto
  show ?thesis unfolding residual_targets_eq [of L ?ls'] w unfolding residual_targets_eq [of L ?ls] filter_map
    using step by (intro arg_cong2 [of _ _ _ _ map] map_cong refl filter_cong) (auto simp: target_of_def answer_def residual_targets_eq wanted_indices_ok(2))
qed

end
