(* ===== verification/WordEngines.thy ===== *)
theory WordEngines
  imports ValueMatch
begin

text \<open>
  The sources of words (\<open>core/services/bbox\<close>): \<open>PyMuPDFWordExtractor\<close>, \<open>TesseractOcrEngine\<close> and
  \<open>DoclingOcrEngine\<close>, from what the libraries return to the pages of words. What the libraries read in a
  document is an argument; coordinates are exact numbers.
\<close>

section \<open>The text layer of a PDF\<close>

record raw_word =
  rw_x0 :: rat
  rw_y0 :: rat
  rw_x1 :: rat
  rw_y1 :: rat
  rw_text :: utext

record raw_page =
  rp_width :: rat
  rp_height :: rat
  rp_words :: "raw_word option list"

definition clip :: "rat \<Rightarrow> rat" where
  "clip v = max 0 (min 1 v)"

definition or_one :: "rat \<Rightarrow> rat" where
  "or_one v = (if v = 0 then 1 else v)"

definition strip_text :: "(nat \<Rightarrow> bool) \<Rightarrow> utext \<Rightarrow> utext" where
  "strip_text sp t = rev (dropWhile sp (rev (dropWhile sp t)))"

definition plain_word :: "utext \<Rightarrow> int \<Rightarrow> rat \<Rightarrow> rat \<Rightarrow> rat \<Rightarrow> rat \<Rightarrow> word" where
  "plain_word t p x0 y0 x1 y1 = \<lparr>wd_text = t, wd_page = p, wd_xmin = x0, wd_ymin = y0, wd_xmax = x1, wd_ymax = y1,
     wd_order = None, wd_table = None, wd_row = None, wd_col = None\<rparr>"

text \<open>An entry with fewer than five items is \<open>None\<close>.\<close>

definition pdf_word :: "(nat \<Rightarrow> bool) \<Rightarrow> int \<Rightarrow> rat \<Rightarrow> rat \<Rightarrow> raw_word option \<Rightarrow> word list" where
  "pdf_word sp n width height e = (case e of None \<Rightarrow> [] | Some r \<Rightarrow>
     (let t = strip_text sp (rw_text r); xmin = clip (rw_x0 r / width); ymin = clip (rw_y0 r / height);
          xmax = clip (rw_x1 r / width); ymax = clip (rw_y1 r / height) in
      if t = [] \<or> xmax \<le> xmin \<or> ymax \<le> ymin then [] else [plain_word t n xmin ymin xmax ymax]))"

definition pdf_page :: "(nat \<Rightarrow> bool) \<Rightarrow> nat \<Rightarrow> nat \<Rightarrow> raw_page \<Rightarrow> page_words" where
  "pdf_page sp min_words i p = (let ws = concat (map (pdf_word sp (int i + 1) (or_one (rp_width p)) (or_one (rp_height p))) (rp_words p)) in
     \<lparr>pg_page = int i + 1, pg_words = ws, pg_text_layer = (min_words \<le> length ws), pg_source = S_PDF_TEXT\<rparr>)"

text \<open>\<open>None\<close> for the document is one the library cannot open.\<close>

definition extract_pdf_words :: "(nat \<Rightarrow> bool) \<Rightarrow> nat \<Rightarrow> nat \<Rightarrow> string \<Rightarrow> bool \<Rightarrow> raw_page list option \<Rightarrow> page_words list" where
  "extract_pdf_words sp min_words max_pages media empty_data doc = (if media \<noteq> pdf_type \<or> empty_data then []
     else (case doc of None \<Rightarrow> [] | Some ps \<Rightarrow> map (\<lambda>(i, p). pdf_page sp min_words i p) (List.enumerate 0 (take max_pages ps))))"

section \<open>Tesseract\<close>

definition iso1_to_tess :: "(string \<times> string) list" where
  "iso1_to_tess = [(''en'', ''eng''), (''es'', ''spa''), (''fr'', ''fra''), (''de'', ''deu''), (''it'', ''ita''), (''pt'', ''por''),
     (''nl'', ''nld''), (''ca'', ''cat''), (''eu'', ''eus''), (''gl'', ''glg''), (''ja'', ''jpn''), (''ko'', ''kor''), (''zh'', ''chi_sim''),
     (''ar'', ''ara''), (''ru'', ''rus'')]"

definition tess_supports :: "string \<Rightarrow> bool" where
  "tess_supports media = (media = pdf_type \<or> media \<in> {''image/png'', ''image/jpeg'', ''image/gif'', ''image/webp''})"

definition resolve_lang :: "string \<Rightarrow> string option \<Rightarrow> string" where
  "resolve_lang default_lang hint = (case hint of None \<Rightarrow> default_lang | Some h \<Rightarrow>
     (let norm = py_lower (py_strip h) in
      if h = [] \<or> norm = [] then default_lang
      else (case map_of iso1_to_tess norm of Some l \<Rightarrow> l
      | None \<Rightarrow> if length norm = 3 \<and> list_all is_alpha norm then norm else default_lang)))"

text \<open>A row of \<open>image_to_data\<close>; \<open>tr_conf = None\<close> is a confidence that is no number.\<close>

record tess_row =
  tr_text :: "utext option"
  tr_conf :: "rat option"
  tr_left :: rat
  tr_top :: rat
  tr_width :: rat
  tr_height :: rat

definition tess_word :: "(nat \<Rightarrow> bool) \<Rightarrow> int \<Rightarrow> rat \<Rightarrow> rat \<Rightarrow> tess_row \<Rightarrow> word list" where
  "tess_word sp n width height r = (let t = strip_text sp (case tr_text r of None \<Rightarrow> [] | Some s \<Rightarrow> s);
       conf = (case tr_conf r of None \<Rightarrow> -1 | Some c \<Rightarrow> c);
       xmin = clip (tr_left r / width); ymin = clip (tr_top r / height);
       xmax = clip ((tr_left r + tr_width r) / width); ymax = clip ((tr_top r + tr_height r) / height) in
     if t = [] \<or> conf < 0 \<or> tr_width r \<le> 0 \<or> tr_height r \<le> 0 \<or> xmax \<le> xmin \<or> ymax \<le> ymin then []
     else [plain_word t n xmin ymin xmax ymax])"

definition ocr_image :: "(nat \<Rightarrow> bool) \<Rightarrow> int \<Rightarrow> rat \<times> rat \<times> tess_row list \<Rightarrow> page_words" where
  "ocr_image sp n img = (case img of (w, h, rows) \<Rightarrow>
     (let ws = concat (map (tess_word sp n (or_one w) (or_one h)) rows) in
      \<lparr>pg_page = n, pg_words = ws, pg_text_layer = (ws \<noteq> []), pg_source = S_OCR\<rparr>))"

text \<open>The rendered pages of a PDF, or the one image, each with the rows Tesseract gives for the language.\<close>

definition tess_recognise :: "(nat \<Rightarrow> bool) \<Rightarrow> string \<Rightarrow> (string \<Rightarrow> (rat \<times> rat \<times> tess_row list) list) \<Rightarrow> bool \<Rightarrow> string \<Rightarrow> string option \<Rightarrow> page_words list" where
  "tess_recognise sp default_lang images empty_data media hint = (if empty_data then []
     else (let imgs = images (resolve_lang default_lang hint) in
       if media = pdf_type then map (\<lambda>(i, img). ocr_image sp (int i + 1) img) (List.enumerate 0 imgs)
       else map (ocr_image sp 1) (take 1 imgs)))"

section \<open>Docling\<close>

text \<open>The words of a phrase share its width by their lengths; the last one ends at the right edge.\<close>

fun tokens_from :: "rat \<Rightarrow> rat \<Rightarrow> nat \<Rightarrow> (utext \<Rightarrow> rat \<Rightarrow> rat \<Rightarrow> word) \<Rightarrow> rat \<Rightarrow> utext list \<Rightarrow> word list" where
  "tokens_from width xmax chars mk cursor [] = []"
| "tokens_from width xmax chars mk cursor (t # ts) =
     (let x = (if ts = [] then xmax else min xmax (cursor + width * of_nat (length t) / of_nat chars)) in
      (if x \<le> cursor then [] else [mk t cursor x]) @ tokens_from width xmax chars mk x ts)"

record place =
  pl_page :: int
  pl_xmin :: rat
  pl_ymin :: rat
  pl_xmax :: rat
  pl_ymax :: rat
  pl_order :: "nat option"
  pl_table :: "string option"
  pl_row :: "int option"
  pl_col :: "int option"

definition token_word :: "place \<Rightarrow> utext \<Rightarrow> rat \<Rightarrow> rat \<Rightarrow> word" where
  "token_word p t x0 x1 = \<lparr>wd_text = t, wd_page = pl_page p, wd_xmin = x0, wd_ymin = pl_ymin p, wd_xmax = x1, wd_ymax = pl_ymax p,
     wd_order = pl_order p, wd_table = pl_table p, wd_row = pl_row p, wd_col = pl_col p\<rparr>"

lemma token_word_simps [simp]:
  "wd_text (token_word p t a b) = t" "wd_xmin (token_word p t a b) = a" "wd_xmax (token_word p t a b) = b"
  "wd_ymin (token_word p t a b) = pl_ymin p" "wd_ymax (token_word p t a b) = pl_ymax p"
  by (simp_all add: token_word_def)

definition tokenize_phrase :: "(nat \<Rightarrow> bool) \<Rightarrow> utext \<Rightarrow> place \<Rightarrow> word list" where
  "tokenize_phrase sp text p = (let tokens = words_of sp text; chars = sum_list (map length tokens) in
     if tokens = [] \<or> chars = 0 then []
     else tokens_from (pl_xmax p - pl_xmin p) (pl_xmax p) chars (token_word p) (pl_xmin p) tokens)"

text \<open>A box of the library: with the conversion it offers, or the four numbers with their origin.\<close>

record dbox =
  db_convert :: "(rat \<Rightarrow> rat \<times> rat \<times> rat \<times> rat) option"
  db_l :: rat
  db_t :: rat
  db_r :: rat
  db_b :: rat
  db_bottom_left :: bool

definition to_top_left :: "dbox \<Rightarrow> rat \<Rightarrow> rat \<times> rat \<times> rat \<times> rat" where
  "to_top_left b height = (case db_convert b of Some f \<Rightarrow> f height
     | None \<Rightarrow> if db_bottom_left b then (db_l b, height - db_t b, db_r b, height - db_b b) else (db_l b, db_t b, db_r b, db_b b))"

definition clamp01 :: "rat \<Rightarrow> rat" where
  "clamp01 v = (if v < 0 then 0 else if 1 < v then 1 else v)"

type_synonym page_sizes = "(int \<times> (rat \<times> rat)) list"

text \<open>\<open>None\<close> for a page without a size.\<close>

definition sizes_of :: "(int \<times> (rat \<times> rat) option) list \<Rightarrow> page_sizes" where
  "sizes_of pages = foldl (\<lambda>d (n, s). case s of None \<Rightarrow> d | Some (w, h) \<Rightarrow> AList.update n (or_one w, or_one h) d) [] pages"

record prov =
  pv_page :: int
  pv_bbox :: "dbox option"

record cell =
  cl_text :: "utext option"
  cl_prov :: "prov list"
  cl_bbox :: "dbox option"
  cl_row :: "int option"
  cl_col :: "int option"

record table_item =
  ti_ref :: string
  ti_prov :: "prov list"
  ti_grid :: "cell option list list option"
  ti_cells :: "cell list"

datatype doc_item = Table_Item table_item | Text_Item "utext option" "prov list"

definition table_cells :: "table_item \<Rightarrow> cell list" where
  "table_cells t = (case ti_grid t of Some grid \<Rightarrow> List.map_filter id (concat grid) | None \<Rightarrow> ti_cells t)"

text \<open>The words and the counter of each page.\<close>

type_synonym word_state = "(int \<Rightarrow> word list) \<times> (int \<Rightarrow> nat)"

definition place_phrase :: "(nat \<Rightarrow> bool) \<Rightarrow> page_sizes \<Rightarrow> int \<Rightarrow> dbox \<Rightarrow> utext \<Rightarrow> string option \<Rightarrow> int option \<Rightarrow> int option \<Rightarrow> word_state \<Rightarrow> word_state" where
  "place_phrase sp sizes n b text tbl row col st = (case map_of sizes n of None \<Rightarrow> st | Some (w, h) \<Rightarrow>
     (case to_top_left b h of (l, t, r, bt) \<Rightarrow>
       (let xmin = clamp01 (l / w); ymin = clamp01 (t / h); xmax = clamp01 (r / w); ymax = clamp01 (bt / h) in
        if xmax \<le> xmin \<or> ymax \<le> ymin then st
        else (case st of (ws, ro) \<Rightarrow>
          (ws(n := ws n @ tokenize_phrase sp text \<lparr>pl_page = n, pl_xmin = xmin, pl_ymin = ymin, pl_xmax = xmax, pl_ymax = ymax,
             pl_order = Some (ro n), pl_table = tbl, pl_row = row, pl_col = col\<rparr>), ro(n := ro n + 1))))))"

definition fallback_prov :: "page_sizes \<Rightarrow> prov list \<Rightarrow> prov option" where
  "fallback_prov sizes ps = List.find (\<lambda>p. map_of sizes (pv_page p) \<noteq> None) ps"

definition cell_page :: "page_sizes \<Rightarrow> table_item \<Rightarrow> cell \<Rightarrow> int" where
  "cell_page sizes t c = (let n = (case cl_prov c of [] \<Rightarrow> 0 | p # _ \<Rightarrow> pv_page p) in
     if map_of sizes n = None then (case fallback_prov sizes (ti_prov t) of Some p \<Rightarrow> pv_page p | None \<Rightarrow> n) else n)"

definition or_else :: "'a option \<Rightarrow> 'a option \<Rightarrow> 'a option" where
  "or_else a b = (case a of None \<Rightarrow> b | Some x \<Rightarrow> Some x)"

definition cell_bbox :: "page_sizes \<Rightarrow> table_item \<Rightarrow> cell \<Rightarrow> dbox option" where
  "cell_bbox sizes t c = or_else (cl_bbox c) (or_else (case cl_prov c of [] \<Rightarrow> None | p # _ \<Rightarrow> pv_bbox p)
     (case fallback_prov sizes (ti_prov t) of Some p \<Rightarrow> pv_bbox p | None \<Rightarrow> None))"

definition emit_cell :: "(nat \<Rightarrow> bool) \<Rightarrow> page_sizes \<Rightarrow> table_item \<Rightarrow> word_state \<Rightarrow> cell \<Rightarrow> word_state" where
  "emit_cell sp sizes t st c = (case cl_text c of None \<Rightarrow> st | Some text \<Rightarrow>
     (if words_of sp text = [] then st
      else (case cell_bbox sizes t c of None \<Rightarrow> st
      | Some b \<Rightarrow> place_phrase sp sizes (cell_page sizes t c) b text (Some (ti_ref t)) (cl_row c) (cl_col c) st)))"

definition emit_item :: "(nat \<Rightarrow> bool) \<Rightarrow> page_sizes \<Rightarrow> word_state \<Rightarrow> doc_item \<Rightarrow> word_state" where
  "emit_item sp sizes st item = (case item of
     Table_Item t \<Rightarrow> foldl (emit_cell sp sizes t) st (table_cells t)
   | Text_Item text ps \<Rightarrow> (case text of None \<Rightarrow> st | Some s \<Rightarrow> if s = [] then st
       else foldl (\<lambda>st p. case pv_bbox p of None \<Rightarrow> st | Some b \<Rightarrow> place_phrase sp sizes (pv_page p) b s None None None st) st ps))"

text \<open>The converted document: the pages with their sizes and the items. \<open>None\<close> for a conversion that raised or gave none.\<close>

definition docling_recognise :: "(nat \<Rightarrow> bool) \<Rightarrow> bool \<Rightarrow> ((int \<times> (rat \<times> rat) option) list \<times> doc_item list) option \<Rightarrow> page_words list" where
  "docling_recognise sp empty_data doc = (if empty_data then [] else (case doc of None \<Rightarrow> [] | Some (pages, items) \<Rightarrow>
     (let sizes = sizes_of pages; ws = fst (foldl (emit_item sp sizes) (\<lambda>_. [], \<lambda>_. 0) items) in
      map (\<lambda>n. \<lparr>pg_page = n, pg_words = ws n, pg_text_layer = (ws n \<noteq> []), pg_source = S_OCR\<rparr>) (sort (map fst sizes)))))"

section \<open>Every word is a rectangle on the page\<close>

definition word_ok :: "word \<Rightarrow> bool" where
  "word_ok w \<longleftrightarrow> 0 \<le> wd_xmin w \<and> wd_xmin w < wd_xmax w \<and> wd_xmax w \<le> 1 \<and> 0 \<le> wd_ymin w \<and> wd_ymin w < wd_ymax w \<and> wd_ymax w \<le> 1"

definition page_ok :: "page_words \<Rightarrow> bool" where
  "page_ok p = list_all word_ok (pg_words p)"

lemma clip_unit: "0 \<le> clip v" "clip v \<le> 1"
  by (simp_all add: clip_def)

lemma clamp01_clip: "clamp01 v = clip v"
  by (auto simp: clamp01_def clip_def)

lemma pdf_word_ok: "w \<in> set (pdf_word sp n width height e) \<Longrightarrow> word_ok w"
  by (auto simp: pdf_word_def Let_def word_ok_def plain_word_def clip_unit split: option.splits if_splits)

lemma tess_word_ok: "w \<in> set (tess_word sp n width height r) \<Longrightarrow> word_ok w"
  by (auto simp: tess_word_def Let_def word_ok_def plain_word_def clip_unit split: option.splits if_splits)

lemma tokens_in:
  "w \<in> set (tokens_from width xmax chars mk cursor ts) \<Longrightarrow> cursor \<le> xmax \<Longrightarrow> 0 \<le> width
     \<Longrightarrow> \<exists>t x0 x1. w = mk t x0 x1 \<and> cursor \<le> x0 \<and> x0 < x1 \<and> x1 \<le> xmax"
proof (induction ts arbitrary: cursor)
  case (Cons t ts)
  let ?x = "if ts = [] then xmax else min xmax (cursor + width * of_nat (length t) / of_nat chars)"
  have x: "cursor \<le> ?x" "?x \<le> xmax" using Cons.prems by auto
  from Cons.prems(1) consider "w = mk t cursor ?x" "cursor < ?x" | "w \<in> set (tokens_from width xmax chars mk ?x ts)"
    by (auto simp: Let_def not_le split: if_splits)
  then show ?case
  proof cases
    case 1
    with x show ?thesis by blast
  next
    case 2
    from Cons.IH [OF 2 x(2) Cons.prems(3)] obtain t' x0 x1 where "w = mk t' x0 x1" "?x \<le> x0" "x0 < x1" "x1 \<le> xmax" by blast
    with order_trans [OF x(1), of x0] show ?thesis by blast
  qed
qed simp

definition place_ok :: "place \<Rightarrow> bool" where
  "place_ok p \<longleftrightarrow> 0 \<le> pl_xmin p \<and> pl_xmin p < pl_xmax p \<and> pl_xmax p \<le> 1 \<and> 0 \<le> pl_ymin p \<and> pl_ymin p < pl_ymax p \<and> pl_ymax p \<le> 1"

lemma in_if_Nil: "w \<in> set (if b then [] else xs) \<Longrightarrow> w \<in> set xs"
  by (simp split: if_splits)

lemma tokenize_ok:
  assumes "place_ok p" "w \<in> set (tokenize_phrase sp text p)"
  shows "word_ok w"
proof -
  from assms(2) have "w \<in> set (tokens_from (pl_xmax p - pl_xmin p) (pl_xmax p) (sum_list (map length (words_of sp text))) (token_word p) (pl_xmin p) (words_of sp text))"
    unfolding tokenize_phrase_def Let_def by (rule in_if_Nil)
  from tokens_in [OF this] assms(1)
  have "\<exists>t x0 x1. w = token_word p t x0 x1 \<and> pl_xmin p \<le> x0 \<and> x0 < x1 \<and> x1 \<le> pl_xmax p" by (simp add: place_ok_def)
  with assms(1) show ?thesis by (auto simp: place_ok_def word_ok_def token_word_def)
qed

definition state_ok :: "word_state \<Rightarrow> bool" where
  "state_ok st \<longleftrightarrow> (\<forall>n. \<forall>w\<in>set (fst st n). word_ok w)"

lemma place_phrase_ok: "state_ok st \<Longrightarrow> state_ok (place_phrase sp sizes n b text tbl row col st)"
  by (auto simp: place_phrase_def Let_def state_ok_def clamp01_clip clip_unit place_ok_def not_le
      intro: tokenize_ok [rotated] split: option.split prod.split)

lemma foldl_preserves: "(\<And>st x. P st \<Longrightarrow> P (f st x)) \<Longrightarrow> P st \<Longrightarrow> P (foldl f st xs)"
  by (induction xs arbitrary: st) auto

lemma emit_item_ok: "state_ok st \<Longrightarrow> state_ok (emit_item sp sizes st item)"
  by (auto simp: emit_item_def emit_cell_def intro!: foldl_preserves [of state_ok] place_phrase_ok split: doc_item.split option.split)

text \<open>The rectangles of the words. Whatever the libraries read, every word of the text layer, of Tesseract and of
  Docling is a nonempty rectangle inside its page.\<close>

theorem words_are_rectangles:
  "list_all page_ok (extract_pdf_words sp min_words max_pages media empty_data raw
      @ tess_recognise sp default_lang images empty_data media hint @ docling_recognise sp empty_data doc)"
proof -
  have "state_ok (foldl (emit_item sp sizes) (\<lambda>_. [], \<lambda>_. 0) items)" for sizes items
    by (rule foldl_preserves [of state_ok, OF emit_item_ok]) (simp_all add: state_ok_def)
  then show ?thesis
    by (auto simp: extract_pdf_words_def pdf_page_def tess_recognise_def ocr_image_def docling_recognise_def Let_def list_all_iff page_ok_def
        state_ok_def intro: pdf_word_ok tess_word_ok split: option.split prod.split)
qed

section \<open>The words of a phrase\<close>

lemma runs_acc_nonempty: "[] \<notin> set (runs_acc sp acc cs)"
  by (induction sp acc cs rule: runs_acc.induct) auto

lemma words_of_nonempty: "[] \<notin> set (words_of sp s)"
  by (simp add: words_of_def runs_acc_nonempty)

text \<open>The words between two edges follow each other without gaps.\<close>

fun chained :: "rat \<Rightarrow> word list \<Rightarrow> rat \<Rightarrow> bool" where
  "chained a [] b = (a = b)"
| "chained a (w # ws) b = (wd_xmin w = a \<and> a < wd_xmax w \<and> chained (wd_xmax w) ws b)"

lemma tokens_chained:
  assumes "0 < width" "0 < chars" "[] \<notin> set ts" "ts \<noteq> []" "xmax = cursor + width * of_nat (sum_list (map length ts)) / of_nat chars"
  shows "chained cursor (tokens_from width xmax chars (token_word p) cursor ts) xmax
     \<and> map wd_text (tokens_from width xmax chars (token_word p) cursor ts) = ts"
  using assms
proof (induction ts arbitrary: cursor)
  case (Cons t ts)
  have len: "0 < length t" using Cons.prems(3) by auto
  let ?x = "cursor + width * of_nat (length t) / of_nat chars"
  have rest: "xmax = ?x + width * of_nat (sum_list (map length ts)) / of_nat chars"
    using Cons.prems(5) by (simp add: field_simps add_divide_distrib)
  have up: "cursor < ?x" using Cons.prems(1,2) len by simp
  have le: "?x \<le> xmax" using rest Cons.prems(1,2) by simp
  show ?case
  proof (cases "ts = []")
    case True
    with rest up show ?thesis by (simp add: token_word_def Let_def)
  next
    case False
    have "[] \<notin> set ts" using Cons.prems(3) by simp
    from Cons.IH [OF Cons.prems(1,2) this False rest]
    have ih: "chained ?x (tokens_from width xmax chars (token_word p) ?x ts) xmax \<and> map wd_text (tokens_from width xmax chars (token_word p) ?x ts) = ts" .
    have "min xmax ?x = ?x" using le by (rule min_absorb2)
    then have eq: "tokens_from width xmax chars (token_word p) cursor (t # ts) = token_word p t cursor ?x # tokens_from width xmax chars (token_word p) ?x ts"
      using False up by (simp add: Let_def)
    show ?thesis unfolding eq using ih up by simp
  qed
qed simp

lemma whole_width: "0 < (c::nat) \<Longrightarrow> (b::rat) = a + (b - a) * of_nat c / of_nat c"
  by simp

lemma sum_length_pos: "[] \<notin> set ts \<Longrightarrow> ts \<noteq> [] \<Longrightarrow> 0 < sum_list (map length ts)"
  by (cases ts) auto

text \<open>Splitting a phrase. The words of a phrase on a rectangle are its white space separated tokens, in order,
  none dropped; they follow each other without gap or overlap from the left edge of the rectangle to its
  right edge, at its full height.\<close>

theorem phrase_tiled:
  assumes "place_ok p" "words_of sp text \<noteq> []"
  shows "map wd_text (tokenize_phrase sp text p) = words_of sp text
    \<and> chained (pl_xmin p) (tokenize_phrase sp text p) (pl_xmax p)
    \<and> list_all (\<lambda>w. wd_ymin w = pl_ymin p \<and> wd_ymax w = pl_ymax p) (tokenize_phrase sp text p)"
proof -
  let ?ts = "words_of sp text" and ?w = "pl_xmax p - pl_xmin p"
  let ?c = "sum_list (map length ?ts)"
  have c: "0 < ?c" using sum_length_pos [OF words_of_nonempty assms(2)] .
  have t: "tokenize_phrase sp text p = tokens_from ?w (pl_xmax p) ?c (token_word p) (pl_xmin p) ?ts"
  proof -
    have n: "\<not> (?ts = [] \<or> ?c = 0)" using assms(2) c by (metis less_irrefl)
    show ?thesis unfolding tokenize_phrase_def Let_def if_not_P [OF n] ..
  qed
  have w: "0 < ?w" using assms(1) by (simp add: place_ok_def)
  have "chained (pl_xmin p) (tokenize_phrase sp text p) (pl_xmax p) \<and> map wd_text (tokenize_phrase sp text p) = ?ts"
    unfolding t by (rule tokens_chained [OF w c words_of_nonempty assms(2) whole_width [OF c]])
  moreover have "list_all (\<lambda>w. wd_ymin w = pl_ymin p \<and> wd_ymax w = pl_ymax p) (tokenize_phrase sp text p)"
    unfolding t list_all_iff
  proof
    fix w assume "w \<in> set (tokens_from ?w (pl_xmax p) ?c (token_word p) (pl_xmin p) ?ts)"
    from tokens_in [OF this] \<open>0 < ?w\<close> show "wd_ymin w = pl_ymin p \<and> wd_ymax w = pl_ymax p" by auto
  qed
  ultimately show ?thesis by blast
qed

definition sample_place :: place where
  "sample_place = \<lparr>pl_page = 1, pl_xmin = 1 / 4, pl_ymin = 1 / 4, pl_xmax = 3 / 4, pl_ymax = 1 / 2, pl_order = Some 0, pl_table = None, pl_row = None, pl_col = None\<rparr>"

theorem phrase_tiled_witness:
  "map wd_text (tokenize_phrase (\<lambda>c. c = 32) [65, 32, 66, 67, 68] sample_place) = [[65], [66, 67, 68]]"
proof -
  have "words_of (\<lambda>c. c = 32) [65, 32, 66, 67, 68] = [[65], [66, 67, 68]]" by code_simp
  with phrase_tiled [of sample_place "\<lambda>c. c = 32" "[65, 32, 66, 67, 68]"] show ?thesis by (simp add: place_ok_def sample_place_def)
qed

end
