(* ===== verification/RefineRuns.thy ===== *)
theory RefineRuns
  imports BboxRefine WordEngines
begin

text \<open>
  The refiner over the matchers of the code: what every matcher promises, as a locale that the
  deterministic matcher, the model's matcher and their cascade provide, and what the refiner has from it.
\<close>

definition located_in :: "page_words list \<Rightarrow> match_result \<Rightarrow> bool" where
  "located_in pages m \<longleftrightarrow> (\<exists>p\<in>set pages. \<exists>ws s. ws \<noteq> [] \<and> set ws \<subseteq> set (pg_words p) \<and> m = union_bbox ws s (pg_page p))"

locale value_matcher =
  fixes find_values :: matcher
  assumes located: "(i, Some m) \<in> set (find_values pages ts) \<Longrightarrow> located_in pages m"

section \<open>The box of located words\<close>

lemma least_in: "xs \<noteq> [] \<Longrightarrow> least xs \<in> set xs"
proof -
  have "foldl min a ys \<in> insert a (set ys)" for a and ys :: "rat list"
    by (induction ys rule: rev_induct) (auto simp: min_def)
  from this [of "hd xs" "tl xs"] show "xs \<noteq> [] \<Longrightarrow> least xs \<in> set xs" by (cases xs) (auto simp: least_def)
qed

lemma greatest_in: "xs \<noteq> [] \<Longrightarrow> greatest xs \<in> set xs"
proof -
  have "foldl max a ys \<in> insert a (set ys)" for a and ys :: "rat list"
    by (induction ys rule: rev_induct) (auto simp: max_def)
  from this [of "hd xs" "tl xs"] show "xs \<noteq> [] \<Longrightarrow> greatest xs \<in> set xs" by (cases xs) (auto simp: greatest_def)
qed

lemma union_valid:
  assumes "ws \<noteq> []" "list_all word_ok ws"
  shows "bbox_valid (new_box old (union_bbox ws s p) src)"
proof -
  obtain w where w: "w \<in> set ws" using assms(1) by (cases ws) auto
  have ok: "\<And>w. w \<in> set ws \<Longrightarrow> word_ok w" using assms(2) by (simp add: list_all_iff)
  have a: "least (map wd_xmin ws) \<in> wd_xmin ` set ws" "least (map wd_ymin ws) \<in> wd_ymin ` set ws"
    "greatest (map wd_xmax ws) \<in> wd_xmax ` set ws" "greatest (map wd_ymax ws) \<in> wd_ymax ` set ws"
    using assms(1) least_in [of "map wd_xmin ws"] least_in [of "map wd_ymin ws"] greatest_in [of "map wd_xmax ws"] greatest_in [of "map wd_ymax ws"] by auto
  have b: "least (map wd_xmin ws) \<le> wd_xmin w" "least (map wd_ymin ws) \<le> wd_ymin w"
    "wd_xmax w \<le> greatest (map wd_xmax ws)" "wd_ymax w \<le> greatest (map wd_ymax ws)"
    using w by (auto intro: least_le greatest_ge)
  have c: "0 \<le> least (map wd_xmin ws)" "0 \<le> least (map wd_ymin ws)" "greatest (map wd_xmax ws) \<le> 1" "greatest (map wd_ymax ws) \<le> 1"
    using a ok by (auto simp: word_ok_def)
  from ok [OF w] b c show ?thesis by (auto simp: bbox_valid_def unit_interval_def new_box_def union_bbox_def word_ok_def)
qed

context value_matcher
begin

lemma answered: "answer find_values pages L ls i = Some m \<Longrightarrow> located_in pages m"
  unfolding answer_def result_of_def by (auto dest!: map_of_SomeD intro: located split: option.splits)

lemma leaf_refined: "list_all page_ok pages \<Longrightarrow> refine_leaf pages (answer find_values pages L ls i) f \<noteq> None"
proof (cases "answer find_values pages L ls i")
  case (Some m)
  assume ok: "list_all page_ok pages"
  obtain p ws s where m: "p \<in> set pages" "ws \<noteq> []" "set ws \<subseteq> set (pg_words p)" "m = union_bbox ws s (pg_page p)"
    using answered [OF Some] unfolding located_in_def by blast
  have "list_all word_ok ws" using ok m(1,3) by (auto simp: list_all_iff page_ok_def)
  from union_valid [OF m(2) this] m(4) Some show ?thesis by (simp add: refine_leaf_def replace_bbox_def)
qed (simp add: refine_leaf_def)

lemma never_raises: "list_all page_ok pages \<Longrightarrow> \<not> snd (snd (refine L find_values pages gs))"
proof -
  assume ok: "list_all page_ok pages"
  obtain gs' c raised where r: "refine L find_values pages gs = (gs', c, raised)" by (metis surj_pair)
  have "finished find_values pages L ls = wanted_indices L ls" for ls
    using leaf_refined [OF ok] by (simp add: finished_def done_targets_def takeWhile_eq_all_conv)
  with refine_leaves_of [OF r] refine_leaves_spec(5) r show ?thesis by fastforce
qed

lemma refined_boxes_valid:
  assumes "list_all page_ok pages" "refine L find_values pages gs = (gs', c, raised)" "i < length (group_leaves gs)"
    "wanted L (group_leaves gs ! i)" "answer find_values pages L (group_leaves gs) i = Some m"
  shows "case xm_bbox (xf_meta (group_leaves gs' ! i)) of None \<Rightarrow> False | Some b \<Rightarrow> bbox_valid b"
proof -
  have "gs \<noteq> []" using assms(3) by auto
  with refine_leaves_of [OF assms(2)] have r: "refine_leaves L find_values pages (group_leaves gs) = ((group_leaves gs', c), raised)" by simp
  have fin: "finished find_values pages L (group_leaves gs) = wanted_indices L (group_leaves gs)"
    using leaf_refined [OF assms(1)] by (simp add: finished_def done_targets_def takeWhile_eq_all_conv)
  obtain g where g: "refine_leaf pages (Some m) (group_leaves gs ! i) = Some g" using leaf_refined [OF assms(1)] assms(5) by (metis not_None_eq)
  have "group_leaves gs' ! i = g" using refine_leaves_spec(4) [OF r assms(3)] assms(3-5) g by (simp add: fin wanted_indices_ok(2))
  with refine_leaf_grounded [OF g] show ?thesis by (auto simp: option_rel_Some2 split: option.split)
qed

end

section \<open>The matchers keep the promise\<close>

lemma set_update: "x \<in> set (AList.update k v al) \<Longrightarrow> x = (k, v) \<or> x \<in> set al"
  by (induction al) (auto split: if_splits)

lemma in_windows: "w \<in> set (windows n lo hi) \<Longrightarrow> 1 \<le> lo \<Longrightarrow> fst w < snd w \<and> snd w \<le> n"
  by (auto simp: windows_def)

lemma slice_nonempty: "fst w < snd w \<Longrightarrow> snd w \<le> length xs \<Longrightarrow> slice xs w \<noteq> []"
  by (simp add: slice_def)

lemma slice_subset: "set (slice xs w) \<subseteq> set xs"
  unfolding slice_def using set_drop_subset set_take_subset by (metis subset_trans)

lemma char_words_subset: "snd ` set (char_words U ws) \<subseteq> set ws"
  by (auto simp: char_words_def)

lemma spaced_located:
  assumes "match_spaced U threshold target ws page = Some m"
  shows "\<exists>vs s. vs \<noteq> [] \<and> set vs \<subseteq> set ws \<and> m = union_bbox vs s page"
proof -
  obtain s o' w where w: "(s, o', w) \<in> set (spaced_candidates U target ws)" "m = union_bbox (slice ws w) s page"
    using match_spaced_best [OF assms] by blast
  obtain hi where "w \<in> set (windows (length ws) 1 hi)" using w(1) by (auto simp: spaced_candidates_def Let_def split: if_splits)
  from slice_nonempty [of w ws] in_windows [OF this] slice_subset [of ws w] w(2) show ?thesis by blast
qed

lemma unspaced_located:
  assumes "match_unspaced U threshold target ws page = Some m"
  shows "\<exists>vs s. vs \<noteq> [] \<and> set vs \<subseteq> set ws \<and> m = union_bbox vs s page"
proof -
  let ?cs = "char_words U ws"
  obtain s o' w where w: "(s, o', w) \<in> set (unspaced_candidates U target ?cs)" "m = union_bbox (map snd (slice ?cs w)) s page"
    using match_unspaced_best [OF assms] by blast
  have "w \<in> set (windows (length ?cs) (max 1 (length target - 2)) (min 80 (max (length target + 4) 6)))"
    using w(1) by (auto simp: unspaced_candidates_def)
  from in_windows [OF this] have "slice ?cs w \<noteq> []" by (simp add: slice_nonempty)
  moreover have "set (map snd (slice ?cs w)) \<subseteq> set ws" using slice_subset [of ?cs w] char_words_subset [of U ws] by auto
  ultimately show ?thesis using w(2) by (metis map_is_Nil_conv)
qed

lemma locate_located: "locate U threshold v pages cand = Some m \<Longrightarrow> located_in pages m"
proof -
  assume "locate U threshold v pages cand = Some m"
  from locate_hit [OF this] obtain p t where p: "p \<in> set (in_scope pages cand)" "best_match_on_page U threshold t p = Some m"
    unfolding page_hits_def by blast
  have "p \<in> set pages" using p(1) by (auto simp: in_scope_def Let_def split: option.splits list.splits if_splits)
  with p(2) spaced_located [of U threshold t "pg_words p" "pg_page p" m] unspaced_located [of U threshold t "pg_words p" "pg_page p" m]
  show ?thesis unfolding located_in_def by (auto simp: best_match_on_page_def split: if_splits)
qed

lemma fuzzy_located: "(i, Some m) \<in> set (fuzzy_locate_all U threshold pages ts) \<Longrightarrow> located_in pages m"
proof (induction ts rule: rev_induct)
  case (snoc t ts)
  then show ?case unfolding fuzzy_locate_all_def by (auto dest!: set_update intro: locate_located)
qed (simp add: fuzzy_locate_all_def)

definition sound_matches :: "page_words list \<Rightarrow> matches \<Rightarrow> bool" where
  "sound_matches pages rs \<longleftrightarrow> (\<forall>i m. (i, Some m) \<in> set rs \<longrightarrow> located_in pages m)"

lemma sound_update: "sound_matches pages rs \<Longrightarrow> (\<And>m. v = Some m \<Longrightarrow> located_in pages m) \<Longrightarrow> sound_matches pages (AList.update k v rs)"
  unfolding sound_matches_def by (auto dest!: set_update)

lemma words_for_indices_subset: "set (words_for_indices ws is) \<subseteq> set ws"
  by (auto simp: words_for_indices_def)

lemma apply_match_sound: "p \<in> set pages \<Longrightarrow> sound_matches pages rs \<Longrightarrow> sound_matches pages (apply_match threshold p rs m)"
proof -
  assume p: "p \<in> set pages" and rs: "sound_matches pages rs"
  have "located_in pages (union_bbox (words_for_indices (pg_words p) (lm_indices m)) s (pg_page p))"
    if "words_for_indices (pg_words p) (lm_indices m) \<noteq> []" for s
    unfolding located_in_def using p words_for_indices_subset that by blast
  with rs show ?thesis by (auto simp: apply_match_def Let_def intro!: sound_update split: option.split)
qed

lemma run_one_page_sound: "fst call \<in> set pages \<Longrightarrow> sound_matches pages rs \<Longrightarrow> sound_matches pages (run_one_page threshold ask rs call)"
  by (auto simp: run_one_page_def intro: foldl_preserves [of "sound_matches pages"] apply_match_sound split: option.split)

lemma page_by_number_in: "page_by_number pages n = Some p \<Longrightarrow> p \<in> set pages"
  using dict_of_in [of "map (\<lambda>p. (pg_page p, p)) pages" n p] by (auto simp: page_by_number_def)

lemma page_calls_pages: "call \<in> set (page_calls pages plan rs) \<Longrightarrow> fst call \<in> set pages"
  using page_by_number_in by (fastforce simp: page_calls_def Let_def split: option.splits if_splits)

lemma run_pages_sound:
  assumes "set ps \<subseteq> set pages" "sound_matches pages rs"
  shows "sound_matches pages (run_pages threshold ask finish ps plan rs)"
proof -
  have "sound_matches pages (foldl (run_one_page threshold ask) rs calls)" if "\<And>c. c \<in> set calls \<Longrightarrow> fst c \<in> set pages" for calls
    using assms(2) that
  proof (induction calls arbitrary: rs)
    case (Cons c calls)
    from Cons.prems(2) have "fst c \<in> set pages" by simp
    from Cons.IH [OF run_one_page_sound [OF this Cons.prems(1)]] Cons.prems(2) show ?case by simp
  qed simp
  from this [of "sort_key finish (page_calls ps plan rs)"] show ?thesis
    unfolding run_pages_def using page_calls_pages [of _ ps plan rs] assms(1) by auto
qed

lemma blank_sound: "sound_matches pages (blank_matches ts)"
  unfolding blank_matches_def by (rule foldl_preserves [of "sound_matches pages"], rule sound_update) (simp_all add: sound_matches_def)

lemma llm_sound: "sound_matches pages (llm_locate_all threshold ask finish pages ts)"
proof -
  have "set (filter (\<lambda>p. pg_words p \<noteq> []) pages) \<subseteq> set pages" by auto
  note r = run_pages_sound [OF this]
  show ?thesis unfolding llm_locate_all_def Let_def by (auto intro!: r blank_sound)
qed

lemma hybrid_located:
  assumes "value_matcher fuzzy" "value_matcher llm"
  shows "value_matcher (hybrid_locate_all fuzzy llm)"
proof
  fix i m pages ts
  assume h: "(i, Some m) \<in> set (hybrid_locate_all fuzzy llm pages ts)"
  have merge: "x \<in> set d \<or> x \<in> set kvs" if "x \<in> set (foldl (\<lambda>d (i, m). AList.update i m d) d kvs)" for x kvs and d :: matches
    using that
  proof (induction kvs arbitrary: d)
    case (Cons kv kvs)
    from Cons.prems have "x \<in> set (foldl (\<lambda>d (i, m). AList.update i m d) (AList.update (fst kv) (snd kv) d) kvs)" by (cases kv) simp
    from Cons.IH [OF this] show ?case by (auto dest: set_update)
  qed simp
  from h show "located_in pages m"
    by (auto simp: hybrid_locate_all_def Let_def dest: merge intro: value_matcher.located [OF assms(1)] value_matcher.located [OF assms(2)] split: if_splits)
qed

interpretation fz: value_matcher "fuzzy_locate_all U threshold" for U threshold
  by unfold_locales (rule fuzzy_located)

interpretation lm: value_matcher "llm_locate_all threshold ask finish" for threshold ask finish
  by unfold_locales (use llm_sound in \<open>auto simp: sound_matches_def\<close>)

interpretation hy: value_matcher "hybrid_locate_all (fuzzy_locate_all U threshold) (llm_locate_all t2 ask finish)" for U threshold t2 ask finish
  by (rule hybrid_located [OF fz.value_matcher_axioms lm.value_matcher_axioms])

text \<open>C23: the refiner never raises on the words of its engines. With the cascade of the two matchers of the code, and
  whatever the model answers, the boxes written are those of words; if the words are nonempty rectangles
  on their pages no box is refused, so the pass ends.\<close>

theorem refine_never_raises:
  assumes "list_all page_ok pages"
  shows "\<not> snd (snd (refine L (hybrid_locate_all (fuzzy_locate_all U threshold) (llm_locate_all t2 ask finish)) pages gs))"
  using assms by (rule hy.never_raises)

text \<open>A field without candidate pages is asked about on every page in both passes of the model's matcher.\<close>

lemma unpinned_asked_twice:
  "distinct (map pg_page ps) \<Longrightarrow> list_all (\<lambda>t. snd (snd t) = None) ts \<Longrightarrow> other_pages ts ps = group_by_page ts ps"
  unfolding other_pages_def group_by_page_def Let_def by (rule foldl_cong) (auto simp: list_all_iff distinct_remdups_id)

section \<open>Concrete runs\<close>

definition sample_unicode :: unicode where
  "sample_unicode = \<lparr>uc_nfc = id, uc_casefold = id, uc_space = (\<lambda>c. c = 32), uc_alpha = (\<lambda>c. 65 \<le> c \<and> c \<le> 90),
     uc_digit = (\<lambda>c. 48 \<le> c \<and> c \<le> 57), uc_ratio = (\<lambda>a b. if a = b then 1 else 0)\<rparr>"

text \<open>A page with the words A and B; a model that finds the value of any field in the word B, and says so of the first
  field also when it was not asked about it.\<close>

definition sample_page :: page_words where
  "sample_page = \<lparr>pg_page = 1, pg_words = [plain_word [65] 1 0 0 (1 / 4) (1 / 2), plain_word [66] 1 (1 / 2) 0 1 (1 / 2)], pg_text_layer = True, pg_source = S_PDF_TEXT\<rparr>"

definition sample_agent :: match_agent where
  "sample_agent p fs = Some [\<lparr>lm_field = ''0'', lm_indices = [1], lm_confidence = 1\<rparr>]"

definition silent_agent :: match_agent where
  "silent_agent p fs = None"

abbreviation sample_fuzzy :: matcher where
  "sample_fuzzy \<equiv> fuzzy_locate_all sample_unicode 1"

abbreviation sample_llm :: matcher where
  "sample_llm \<equiv> llm_locate_all 1 sample_agent (\<lambda>_. 0)"

definition sample_targets :: targets where
  "sample_targets = [(''0'', [65], None), (''1'', [67], None)]"

definition word_a :: match_result where
  "word_a = \<lparr>mr_page = 1, mr_xmin = 0, mr_ymin = 0, mr_xmax = 1 / 4, mr_ymax = 1 / 2, mr_score = 1\<rparr>"

definition word_b :: match_result where
  "word_b = \<lparr>mr_page = 1, mr_xmin = 1 / 2, mr_ymin = 0, mr_xmax = 1, mr_ymax = 1 / 2, mr_score = 1\<rparr>"

lemma sample_normal: "normalise sample_unicode True [65] = [65]" "normalise sample_unicode True [66] = [66]" "normalise sample_unicode True [67] = [67]"
  by (simp_all add: sample_unicode_def normalise_def words_of_def)

lemma sample_variants: "variants sample_unicode [65] = [[65]]" "variants sample_unicode [67] = [[67]]"
proof -
  have "65 \<notin> set punctuation" "67 \<notin> set punctuation" by (simp_all add: punctuation_def code_point_def)
  then show "variants sample_unicode [65] = [[65]]" "variants sample_unicode [67] = [[67]]"
    by (simp_all add: variants_def sample_normal add_variant_def Let_def)
qed

lemma sample_spaced: "is_unspaced sample_unicode [65] = False" "is_unspaced sample_unicode [67] = False"
  by (simp_all add: is_unspaced_def is_unspaced_codepoint_def unspaced_ranges_def sample_unicode_def Let_def)

lemma sample_windows: "windows (Suc (Suc 0)) (Suc 0) (Suc (Suc (Suc 0))) = [(0, 1), (0, 2), (1, 2)]"
  by (simp add: windows_def upt_rec)

lemma sample_tokens: "words_of (uc_space sample_unicode) [c] = (if c = 32 then [] else [[c]])"
  by (simp add: words_of_def sample_unicode_def)

lemma sample_candidates:
  "spaced_candidates sample_unicode [65] (pg_words sample_page) = [(1, None, (0, 1)), (0, None, (0, 2)), (0, None, (1, 2))]"
  "spaced_candidates sample_unicode [67] (pg_words sample_page) = [(0, None, (0, 1)), (0, None, (0, 2)), (0, None, (1, 2))]"
proof -
  have p: "pg_words sample_page = [plain_word [65] 1 0 0 (1 / 4) (1 / 2), plain_word [66] 1 (1 / 2) 0 1 (1 / 2)]" by (simp add: sample_page_def)
  have t: "wd_text (plain_word t n a b c d) = t" "wd_order (plain_word t n a b c d) = None" for t n a b c d by (simp_all add: plain_word_def)
  have r: "uc_ratio sample_unicode a b = (if a = b then 1 else 0)" for a b by (simp add: sample_unicode_def)
  show "spaced_candidates sample_unicode [65] (pg_words sample_page) = [(1, None, (0, 1)), (0, None, (0, 2)), (0, None, (1, 2))]"
    "spaced_candidates sample_unicode [67] (pg_words sample_page) = [(0, None, (0, 1)), (0, None, (0, 2)), (0, None, (1, 2))]"
    unfolding spaced_candidates_def Let_def sample_tokens p
    by (simp_all add: sample_windows slice_def t r sample_normal first_reading_order_def)
qed

lemma sample_hits: "best_match_on_page sample_unicode 1 [65] sample_page = Some word_a" "best_match_on_page sample_unicode 1 [67] sample_page = None"
proof -
  have p: "pg_words sample_page = [plain_word [65] 1 0 0 (1 / 4) (1 / 2), plain_word [66] 1 (1 / 2) 0 1 (1 / 2)]" "pg_page sample_page = 1"
    by (simp_all add: sample_page_def)
  have one: "py_round 4 1 = 1" by code_simp
  show "best_match_on_page sample_unicode 1 [65] sample_page = Some word_a" "best_match_on_page sample_unicode 1 [67] sample_page = None"
    by (simp_all add: best_match_on_page_def sample_spaced match_spaced_def sample_candidates best_window_def better_def order_less_def)
      (simp_all add: p slice_def union_bbox_def least_def greatest_def plain_word_def word_a_def one)
qed

lemma sample_fuzzy_run: "sample_fuzzy [sample_page] sample_targets = [(''0'', Some word_a), (''1'', None)]"
proof -
  have "pg_words sample_page \<noteq> []" by (simp add: sample_page_def)
  then have "locate sample_unicode 1 [65] [sample_page] None = Some word_a" "locate sample_unicode 1 [67] [sample_page] None = None"
    by (simp_all add: locate_def sample_normal sample_variants in_scope_def sample_hits)
  then show ?thesis by (simp add: fuzzy_locate_all_def sample_targets_def)
qed

lemma sample_llm_run: "sample_llm [sample_page] [(''1'', [67], None)] = [(''1'', None), (''0'', Some word_b)]"
  by code_simp


theorem refine_never_raises_witness:
  "\<not> snd (snd (refine no_pylib (hybrid_locate_all sample_fuzzy sample_llm) [sample_page] []))"
  by (rule refine_never_raises) (simp add: page_ok_def sample_page_def word_ok_def plain_word_def)

definition sample_groups :: "xgroup list" where
  "sample_groups = [\<lparr>xg_name = ''g'', xg_fields = [XField (plain_meta ''a'') (VStr ''A''), XField (plain_meta ''c'') (VStr ''C'')]\<rparr>]"

lemma sample_residual: "residual_targets no_pylib (group_leaves sample_groups) = sample_targets"
  by code_simp

text \<open>The second pass asks about the second field only.\<close>

theorem refine_second_run_witness:
  "\<exists>gs' c. refine no_pylib sample_fuzzy [sample_page] sample_groups = (gs', c, False)
    \<and> residual_targets no_pylib (group_leaves gs') = [(''1'', [67], None)]"
proof -
  obtain gs' c raised where r: "refine no_pylib sample_fuzzy [sample_page] sample_groups = (gs', c, raised)" by (metis surj_pair)
  have "list_all page_ok [sample_page]" by (simp add: page_ok_def sample_page_def word_ok_def plain_word_def)
  from fz.never_raises [OF this, of no_pylib sample_unicode 1 sample_groups] r have n: "raised = False" by simp
  have "list_all (\<lambda>p. pg_source p \<noteq> S_LLM) [sample_page]" by (simp add: sample_page_def)
  from refine_second_run [OF r [unfolded n] this] have "residual_targets no_pylib (group_leaves gs') = [(''1'', [67], None)]"
    unfolding sample_residual sample_fuzzy_run by (simp add: sample_targets_def result_of_def)
  with r n show ?thesis by blast
qed

end
