(* ===== verification/Lifecycle.thy ===== *)
theory Lifecycle
  imports Prelude
begin

text \<open>
  The \<open>extractions\<close> table and \<open>ExtractionRepository\<close>
  (\<open>models/entities/extraction.py\<close>, \<open>models/repositories/extraction_repository.py\<close>).
  A table is the list of its rows in scan order; the primary key and the partial unique
  index on the idempotency key are part of the table invariant. Every lifecycle transition
  of the repository is one \<open>UPDATE ... WHERE id AND guard RETURNING *\<close>, modelled by
  \<open>atomic_update\<close>; Postgres executes it under a row lock, so a concurrent history is an
  interleaving of these updates. Times are integers, in microseconds; a comparison with an
  SQL \<open>NULL\<close> is false.
\<close>

section \<open>Statuses\<close>

datatype estatus = QUEUED | RUNNING | SUCCEEDED | FAILED | CANCELLED

datatype ppstatus = PP_PENDING | PP_RUNNING | PP_SUCCEEDED | PP_FAILED

definition estatus_terminal :: "estatus \<Rightarrow> bool" where
  "estatus_terminal s \<longleftrightarrow> s \<in> {SUCCEEDED, FAILED, CANCELLED}"

definition has_result :: "estatus \<Rightarrow> bool" where
  "has_result s \<longleftrightarrow> s = SUCCEEDED"

definition pp_terminal :: "ppstatus \<Rightarrow> bool" where
  "pp_terminal s \<longleftrightarrow> s \<in> {PP_SUCCEEDED, PP_FAILED}"

section \<open>Rows and tables\<close>

type_synonym time = int

record erow =
  e_id :: string
  e_idem :: "string option"
  e_status :: estatus
  e_filename :: string
  e_sha256 :: string
  e_bytes :: int
  e_schema :: pyval
  e_options :: pyval
  e_callback :: "string option"
  e_metadata :: "(string \<times> pyval) list"
  e_result :: "pyval option"
  e_error_code :: "string option"
  e_error_message :: "string option"
  e_attempts :: int
  e_submitted :: time
  e_started :: "time option"
  e_finished :: "time option"
  b_status :: "ppstatus option"
  b_attempts :: int
  b_started :: "time option"
  b_finished :: "time option"
  b_error_code :: "string option"
  b_error_message :: "string option"

type_synonym table = "erow list"

definition lease_cutoff :: "time \<Rightarrow> int \<Rightarrow> time" where
  "lease_cutoff now secs = now - 1000000 * max 0 secs"

text \<open>\<open>column < t\<close> on a nullable column.\<close>

fun sql_lt :: "time option \<Rightarrow> time \<Rightarrow> bool" where
  "sql_lt None t = False"
| "sql_lt (Some s) t = (s < t)"

definition coalesce :: "'a option \<Rightarrow> 'a \<Rightarrow> 'a" where
  "coalesce x d = (case x of Some v \<Rightarrow> v | None \<Rightarrow> d)"

section \<open>Queries\<close>

definition repo_get :: "string \<Rightarrow> table \<Rightarrow> erow option" where
  "repo_get i T = List.find (\<lambda>r. e_id r = i) T"

definition get_by_idempotency_key :: "string \<Rightarrow> table \<Rightarrow> erow option" where
  "get_by_idempotency_key k T = List.find (\<lambda>r. e_idem r = Some k) T"

definition find_stale_running :: "time \<Rightarrow> int \<Rightarrow> nat \<Rightarrow> table \<Rightarrow> string list" where
  "find_stale_running now lease cap T = take cap (map e_id
     (filter (\<lambda>r. e_status r = RUNNING \<and> sql_lt (e_started r) (lease_cutoff now lease)) T))"

definition find_stale_queued :: "time \<Rightarrow> int \<Rightarrow> nat \<Rightarrow> table \<Rightarrow> string list" where
  "find_stale_queued now older cap T = take cap (map e_id
     (filter (\<lambda>r. e_status r = QUEUED
                 \<and> coalesce (e_started r) (e_submitted r) < lease_cutoff now older) T))"

definition find_stale_bbox_refining :: "time \<Rightarrow> int \<Rightarrow> nat \<Rightarrow> table \<Rightarrow> string list" where
  "find_stale_bbox_refining now lease cap T = take cap (map e_id
     (filter (\<lambda>r. b_status r = Some PP_RUNNING
                 \<and> sql_lt (b_started r) (lease_cutoff now lease)) T))"

definition find_pending_bbox_revive :: "time \<Rightarrow> int \<Rightarrow> int \<Rightarrow> nat \<Rightarrow> table \<Rightarrow> string list" where
  "find_pending_bbox_revive now pending_secs lease cap T = take cap (map e_id
     (filter (\<lambda>r. e_status r = SUCCEEDED \<and> b_status r = Some PP_PENDING
          \<and> ((b_started r = None \<and> sql_lt (e_finished r) (lease_cutoff now pending_secs))
            \<or> (b_started r \<noteq> None \<and> sql_lt (b_started r) (lease_cutoff now lease)))) T))"

text \<open>\<open>list_extractions\<close>: an empty list or string is falsy, so it is no condition; the total
  counts the filtered rows. \<open>ORDER BY submitted_at DESC\<close> leaves ties in any order; the
  model keeps the scan order of equal keys.\<close>

record list_filter =
  q_statuses :: "estatus list"
  q_pp_statuses :: "ppstatus list"
  q_after :: "time option"
  q_before :: "time option"
  q_idem :: "string option"

definition list_match :: "list_filter \<Rightarrow> erow \<Rightarrow> bool" where
  "list_match q r \<longleftrightarrow>
     (q_statuses q = [] \<or> e_status r \<in> set (q_statuses q))
   \<and> (q_pp_statuses q = [] \<or> (case b_status r of None \<Rightarrow> False | Some s \<Rightarrow> s \<in> set (q_pp_statuses q)))
   \<and> (case q_after q of None \<Rightarrow> True | Some t \<Rightarrow> t \<le> e_submitted r)
   \<and> (case q_before q of None \<Rightarrow> True | Some t \<Rightarrow> e_submitted r \<le> t)
   \<and> (case q_idem q of None \<Rightarrow> True | Some k \<Rightarrow> k = [] \<or> e_idem r = Some k)"

definition list_rows :: "list_filter \<Rightarrow> nat \<Rightarrow> nat \<Rightarrow> table \<Rightarrow> erow list \<times> nat" where
  "list_rows q cap off T =
     (let M = filter (list_match q) T
      in (take cap (drop off (sort_key (\<lambda>r. - e_submitted r) M)), length M))"

section \<open>Mutations\<close>

text \<open>\<open>session.add\<close> then \<open>commit\<close>: the primary key and the partial unique index are checked
  by the database; the violation is the \<open>IntegrityError\<close> the submit handler catches.\<close>

datatype add_result = Added table | IntegrityError

definition repo_add :: "erow \<Rightarrow> table \<Rightarrow> add_result" where
  "repo_add r T =
     (if (\<exists>r'\<in>set T. e_id r' = e_id r \<or> (e_idem r \<noteq> None \<and> e_idem r' = e_idem r))
      then IntegrityError else Added (T @ [r]))"

definition repo_update :: "string \<Rightarrow> (erow \<Rightarrow> erow) \<Rightarrow> table \<Rightarrow> erow option \<times> table" where
  "repo_update i changes T =
     (case repo_get i T of
        None \<Rightarrow> (None, T)
      | Some r \<Rightarrow> (Some (changes r), map (\<lambda>r. if e_id r = i then changes r else r) T))"

definition atomic_update ::
    "string \<Rightarrow> (erow \<Rightarrow> bool) \<Rightarrow> (erow \<Rightarrow> erow) \<Rightarrow> table \<Rightarrow> erow option \<times> table" where
  "atomic_update i wh vals T =
     (map_option vals (List.find (\<lambda>r. e_id r = i \<and> wh r) T),
      map (\<lambda>r. if e_id r = i \<and> wh r then vals r else r) T)"

text \<open>The guard and the assignment of each transition, then the transition itself.\<close>

definition run_guard :: "time \<Rightarrow> int \<Rightarrow> erow \<Rightarrow> bool" where
  "run_guard now lease r \<longleftrightarrow>
     e_status r = QUEUED
   \<or> (e_status r = RUNNING \<and> sql_lt (e_started r) (lease_cutoff now lease))"

definition run_values :: "time \<Rightarrow> erow \<Rightarrow> erow" where
  "run_values now r = r\<lparr>e_status := RUNNING, e_started := Some now, e_attempts := e_attempts r + 1\<rparr>"

definition mark_running :: "time \<Rightarrow> int \<Rightarrow> string \<Rightarrow> table \<Rightarrow> erow option \<times> table" where
  "mark_running now lease i = atomic_update i (run_guard now lease) (run_values now)"

definition is_running :: "erow \<Rightarrow> bool" where
  "is_running r \<longleftrightarrow> e_status r = RUNNING"

definition is_queued :: "erow \<Rightarrow> bool" where
  "is_queued r \<longleftrightarrow> e_status r = QUEUED"

definition succeed_values :: "time \<Rightarrow> pyval \<Rightarrow> bool \<Rightarrow> erow \<Rightarrow> erow" where
  "succeed_values now res req r =
     (let r' = r\<lparr>e_status := SUCCEEDED, e_finished := Some now, e_result := Some res,
                 e_error_code := None, e_error_message := None\<rparr>
      in if req then r'\<lparr>b_status := Some PP_PENDING\<rparr> else r')"

definition mark_succeeded :: "time \<Rightarrow> pyval \<Rightarrow> bool \<Rightarrow> string \<Rightarrow> table \<Rightarrow> erow option \<times> table" where
  "mark_succeeded now res req i = atomic_update i is_running (succeed_values now res req)"

definition fail_values :: "time \<Rightarrow> string \<Rightarrow> string \<Rightarrow> erow \<Rightarrow> erow" where
  "fail_values now code msg r = r\<lparr>e_status := FAILED, e_finished := Some now,
     e_error_code := Some code, e_error_message := Some msg\<rparr>"

definition mark_failed :: "time \<Rightarrow> string \<Rightarrow> string \<Rightarrow> string \<Rightarrow> table \<Rightarrow> erow option \<times> table" where
  "mark_failed now code msg i = atomic_update i is_running (fail_values now code msg)"

definition cancel_values :: "time \<Rightarrow> erow \<Rightarrow> erow" where
  "cancel_values now r = r\<lparr>e_status := CANCELLED, e_finished := Some now\<rparr>"

definition mark_cancelled :: "time \<Rightarrow> string \<Rightarrow> table \<Rightarrow> erow option \<times> table" where
  "mark_cancelled now i = atomic_update i is_queued (cancel_values now)"

definition requeue_values :: "erow \<Rightarrow> erow" where
  "requeue_values r = r\<lparr>e_status := QUEUED\<rparr>"

definition requeue_for_retry :: "string \<Rightarrow> table \<Rightarrow> erow option \<times> table" where
  "requeue_for_retry i = atomic_update i is_running requeue_values"

definition bbox_claim_guard :: "time \<Rightarrow> int \<Rightarrow> erow \<Rightarrow> bool" where
  "bbox_claim_guard now lease r \<longleftrightarrow>
     e_status r = SUCCEEDED
   \<and> (b_status r = Some PP_PENDING
     \<or> (b_status r = Some PP_RUNNING \<and> sql_lt (b_started r) (lease_cutoff now lease)))"

definition bbox_claim_values :: "time \<Rightarrow> erow \<Rightarrow> erow" where
  "bbox_claim_values now r =
     r\<lparr>b_status := Some PP_RUNNING, b_started := Some now, b_attempts := b_attempts r + 1\<rparr>"

definition claim_bbox_refinement :: "time \<Rightarrow> int \<Rightarrow> string \<Rightarrow> table \<Rightarrow> erow option \<times> table" where
  "claim_bbox_refinement now lease i =
     atomic_update i (bbox_claim_guard now lease) (bbox_claim_values now)"

definition bbox_running :: "erow \<Rightarrow> bool" where
  "bbox_running r \<longleftrightarrow> e_status r = SUCCEEDED \<and> b_status r = Some PP_RUNNING"

definition bbox_requeue_values :: "erow \<Rightarrow> erow" where
  "bbox_requeue_values r = r\<lparr>b_status := Some PP_PENDING\<rparr>"

definition requeue_bbox_refinement :: "string \<Rightarrow> table \<Rightarrow> erow option \<times> table" where
  "requeue_bbox_refinement i = atomic_update i bbox_running bbox_requeue_values"

definition bbox_complete_values :: "time \<Rightarrow> pyval \<Rightarrow> erow \<Rightarrow> erow" where
  "bbox_complete_values now res r =
     r\<lparr>e_result := Some res, b_status := Some PP_SUCCEEDED, b_finished := Some now,
       b_error_code := None, b_error_message := None\<rparr>"

definition complete_bbox_refinement :: "time \<Rightarrow> pyval \<Rightarrow> string \<Rightarrow> table \<Rightarrow> erow option \<times> table" where
  "complete_bbox_refinement now res i = atomic_update i bbox_running (bbox_complete_values now res)"

definition bbox_fail_values :: "time \<Rightarrow> string \<Rightarrow> string \<Rightarrow> erow \<Rightarrow> erow" where
  "bbox_fail_values now code msg r =
     r\<lparr>b_status := Some PP_FAILED, b_finished := Some now,
       b_error_code := Some code, b_error_message := Some msg\<rparr>"

definition fail_bbox_refinement :: "time \<Rightarrow> string \<Rightarrow> string \<Rightarrow> string \<Rightarrow> table \<Rightarrow> erow option \<times> table" where
  "fail_bbox_refinement now code msg i = atomic_update i bbox_running (bbox_fail_values now code msg)"

lemmas repo_guards = run_guard_def is_running_def is_queued_def bbox_claim_guard_def bbox_running_def

lemmas repo_values = run_values_def succeed_values_def fail_values_def cancel_values_def
  requeue_values_def bbox_claim_values_def bbox_requeue_values_def bbox_complete_values_def
  bbox_fail_values_def

lemmas repo_ops = mark_running_def mark_succeeded_def mark_failed_def mark_cancelled_def
  requeue_for_retry_def claim_bbox_refinement_def requeue_bbox_refinement_def
  complete_bbox_refinement_def fail_bbox_refinement_def

section \<open>The compare-and-swap interface\<close>

text \<open>
  What the handlers and workers rely on: a keyed store with an atomic guarded update. The
  lemmas of the locale are the ones every concurrent claim argument uses.
\<close>

locale cas_store =
  fixes inv :: "'s \<Rightarrow> bool"
    and key :: "'r \<Rightarrow> 'k"
    and lookup :: "'k \<Rightarrow> 's \<Rightarrow> 'r option"
    and cas :: "'k \<Rightarrow> ('r \<Rightarrow> bool) \<Rightarrow> ('r \<Rightarrow> 'r) \<Rightarrow> 's \<Rightarrow> 'r option \<times> 's"
  assumes cas_inv: "inv s \<Longrightarrow> (\<And>r. key (f r) = key r) \<Longrightarrow> inv (snd (cas k g f s))"
    and cas_result: "inv s \<Longrightarrow> (\<And>r. key (f r) = key r) \<Longrightarrow>
      fst (cas k g f s) = (case lookup k s of None \<Rightarrow> None | Some r \<Rightarrow> if g r then Some (f r) else None)"
    and cas_same: "inv s \<Longrightarrow> (\<And>r. key (f r) = key r) \<Longrightarrow>
      lookup k (snd (cas k g f s)) = map_option (\<lambda>r. if g r then f r else r) (lookup k s)"
    and cas_other: "inv s \<Longrightarrow> (\<And>r. key (f r) = key r) \<Longrightarrow> k' \<noteq> k \<Longrightarrow>
      lookup k' (snd (cas k g f s)) = lookup k' s"
begin

lemma cas_hit:
  assumes "inv s" and "\<And>r. key (f r) = key r" and "fst (cas k g f s) = Some r'"
  obtains r where "lookup k s = Some r" and "g r" and "r' = f r"
    and "lookup k (snd (cas k g f s)) = Some r'"
  using assms cas_result [of s f k g] cas_same [of s f k g]
  by (auto split: option.splits if_splits)

lemma cas_miss:
  assumes "inv s" and "\<And>r. key (f r) = key r" and "fst (cas k g f s) = None"
  shows "lookup k' (snd (cas k g f s)) = lookup k' s"
proof (cases "k' = k")
  case True
  with assms cas_result [of s f k g] cas_same [of s f k g] show ?thesis
    by (auto split: option.splits if_splits)
next
  case False
  with assms cas_other show ?thesis by simp
qed

text \<open>Two updates on the same key: if the first one's value falsifies the second one's guard,
  at most one of them takes effect, whichever order they are serialised in.\<close>

lemma cas_exclusive:
  assumes "inv s" and f: "\<And>r. key (f r) = key r" and f': "\<And>r. key (f' r) = key r"
    and won: "fst (cas k g f s) \<noteq> None"
    and excl: "\<And>r. g r \<Longrightarrow> \<not> g' (f r)"
  shows "fst (cas k g' f' (snd (cas k g f s))) = None"
proof -
  obtain r' where "fst (cas k g f s) = Some r'" using won by auto
  then obtain r where "lookup k s = Some r" and "g r" and "r' = f r"
      and "lookup k (snd (cas k g f s)) = Some r'"
    using cas_hit [OF \<open>inv s\<close> f] by blast
  with excl cas_result [of "snd (cas k g f s)" f' k g'] cas_inv [OF \<open>inv s\<close> f] f'
  show ?thesis by auto
qed

end

section \<open>The table invariant\<close>

definition no_main_error :: "erow \<Rightarrow> bool" where
  "no_main_error r \<longleftrightarrow> e_error_code r = None \<and> e_error_message r = None"

definition no_bbox_error :: "erow \<Rightarrow> bool" where
  "no_bbox_error r \<longleftrightarrow> b_error_code r = None \<and> b_error_message r = None"

definition main_ok :: "erow \<Rightarrow> bool" where
  "main_ok r \<longleftrightarrow> 0 \<le> e_attempts r \<and> (e_started r = None \<longleftrightarrow> e_attempts r = 0)
   \<and> (b_status r \<noteq> None \<longrightarrow> e_status r = SUCCEEDED)
   \<and> (case e_status r of
        QUEUED \<Rightarrow> e_finished r = None \<and> e_result r = None \<and> no_main_error r
      | RUNNING \<Rightarrow> e_started r \<noteq> None \<and> e_finished r = None \<and> e_result r = None \<and> no_main_error r
      | SUCCEEDED \<Rightarrow> e_started r \<noteq> None \<and> e_finished r \<noteq> None \<and> e_result r \<noteq> None \<and> no_main_error r
      | FAILED \<Rightarrow> e_started r \<noteq> None \<and> e_finished r \<noteq> None \<and> e_result r = None
                  \<and> e_error_code r \<noteq> None \<and> e_error_message r \<noteq> None
      | CANCELLED \<Rightarrow> e_finished r \<noteq> None \<and> e_result r = None \<and> no_main_error r)"

definition bbox_ok :: "erow \<Rightarrow> bool" where
  "bbox_ok r \<longleftrightarrow> 0 \<le> b_attempts r \<and> (b_started r = None \<longleftrightarrow> b_attempts r = 0)
   \<and> (case b_status r of
        None \<Rightarrow> b_started r = None \<and> b_finished r = None \<and> no_bbox_error r
      | Some PP_PENDING \<Rightarrow> b_finished r = None \<and> no_bbox_error r
      | Some PP_RUNNING \<Rightarrow> b_started r \<noteq> None \<and> b_finished r = None \<and> no_bbox_error r
      | Some PP_SUCCEEDED \<Rightarrow> b_started r \<noteq> None \<and> b_finished r \<noteq> None \<and> no_bbox_error r
      | Some PP_FAILED \<Rightarrow> b_started r \<noteq> None \<and> b_finished r \<noteq> None
                  \<and> b_error_code r \<noteq> None \<and> b_error_message r \<noteq> None)"

definition row_ok :: "erow \<Rightarrow> bool" where
  "row_ok r \<longleftrightarrow> main_ok r \<and> bbox_ok r"

lemmas row_ok_defs = row_ok_def main_ok_def bbox_ok_def no_main_error_def no_bbox_error_def

text \<open>The primary key, and the partial unique index on \<open>idempotency_key\<close>.\<close>

definition keys_ok :: "table \<Rightarrow> bool" where
  "keys_ok T \<longleftrightarrow> distinct (map e_id T) \<and> distinct (filter (\<lambda>k. k \<noteq> None) (map e_idem T))"

definition table_ok :: "table \<Rightarrow> bool" where
  "table_ok T \<longleftrightarrow> keys_ok T \<and> (\<forall>r\<in>set T. row_ok r)"

lemma keys_ok_cong:
  "map e_id T' = map e_id T \<Longrightarrow> map e_idem T' = map e_idem T \<Longrightarrow> keys_ok T' = keys_ok T"
  by (simp only: keys_ok_def)

lemma repo_get_in: "repo_get i T = Some r \<Longrightarrow> r \<in> set T \<and> e_id r = i"
  by (auto simp: repo_get_def find_Some_iff)

lemma repo_get_None: "repo_get i T = None \<longleftrightarrow> i \<notin> e_id ` set T"
  by (auto simp: repo_get_def find_None_iff)

lemma repo_get_row: "distinct (map e_id T) \<Longrightarrow> r \<in> set T \<Longrightarrow> repo_get (e_id r) T = Some r"
  by (simp add: repo_get_def find_key)

section \<open>The table implements the interface\<close>

lemma repo_get_map:
  assumes "\<And>r. e_id (h r) = e_id r"
  shows "repo_get i (map h T) = map_option h (repo_get i T)"
  using assms by (induction T) (auto simp: repo_get_def)

lemma find_guard_key:
  assumes "distinct (map e_id T)"
  shows "List.find (\<lambda>r. e_id r = i \<and> g r) T =
    (case repo_get i T of None \<Rightarrow> None | Some r \<Rightarrow> if g r then Some r else None)"
proof (cases "repo_get i T")
  case None
  then have "i \<notin> e_id ` set T" by (simp add: repo_get_None)
  then have "List.find (\<lambda>r. e_id r = i \<and> g r) T = None" by (auto simp: find_None_iff)
  with None show ?thesis by simp
next
  case (Some r)
  then have r: "r \<in> set T" "e_id r = i" using repo_get_in by blast+
  have uniq: "r' = r" if "r' \<in> set T" "e_id r' = i" for r'
    using that r assms by (auto simp: distinct_map inj_on_def)
  show ?thesis
  proof (cases "List.find (\<lambda>r. e_id r = i \<and> g r) T")
    case None
    with Some r show ?thesis by (auto simp: find_None_iff)
  next
    case (Some r')
    with find_Some_set [OF Some] uniq \<open>repo_get i T = Some r\<close> show ?thesis by auto
  qed
qed

definition ids_distinct :: "table \<Rightarrow> bool" where
  "ids_distinct T \<longleftrightarrow> distinct (map e_id T)"

lemma atomic_update_ids:
  assumes "\<And>r. e_id (f r) = e_id r"
  shows "map e_id (snd (atomic_update i g f T)) = map e_id T"
  using assms by (simp add: atomic_update_def)

interpretation db: cas_store ids_distinct e_id repo_get atomic_update
proof
  fix s :: table and f :: "erow \<Rightarrow> erow" and k g k'
  assume inv: "ids_distinct s" and keep: "\<And>r. e_id (f r) = e_id r"
  show "ids_distinct (snd (atomic_update k g f s))"
    using inv atomic_update_ids [OF keep] by (simp add: ids_distinct_def)
  show "fst (atomic_update k g f s) =
      (case repo_get k s of None \<Rightarrow> None | Some r \<Rightarrow> if g r then Some (f r) else None)"
    using inv by (auto simp: atomic_update_def find_guard_key ids_distinct_def split: option.splits)
  have m: "repo_get j (snd (atomic_update k g f s)) =
      map_option (\<lambda>r. if e_id r = k \<and> g r then f r else r) (repo_get j s)" for j
    using keep by (simp add: atomic_update_def repo_get_map)
  show "repo_get k (snd (atomic_update k g f s)) =
      map_option (\<lambda>r. if g r then f r else r) (repo_get k s)"
    using m [of k] by (auto dest: repo_get_in intro!: option.map_cong simp: option.set_sel elim: option.set_cases)
  show "repo_get k' (snd (atomic_update k g f s)) = repo_get k' s" if "k' \<noteq> k"
    using m [of k'] that by (cases "repo_get k' s") (auto dest: repo_get_in)
qed

section \<open>Transitions\<close>

text \<open>The edges of the two state machines, and the fields no transition may touch.\<close>

inductive main_edge :: "estatus \<Rightarrow> estatus \<Rightarrow> bool" where
  start: "main_edge QUEUED RUNNING"
| reclaim: "main_edge RUNNING RUNNING"
| retry: "main_edge RUNNING QUEUED"
| succeed: "main_edge RUNNING SUCCEEDED"
| give_up: "main_edge RUNNING FAILED"
| cancel: "main_edge QUEUED CANCELLED"

inductive pp_edge :: "ppstatus option \<Rightarrow> ppstatus option \<Rightarrow> bool" where
  pp_request: "pp_edge None (Some PP_PENDING)"
| pp_claim: "pp_edge (Some PP_PENDING) (Some PP_RUNNING)"
| pp_reclaim: "pp_edge (Some PP_RUNNING) (Some PP_RUNNING)"
| pp_retry: "pp_edge (Some PP_RUNNING) (Some PP_PENDING)"
| pp_succeed: "pp_edge (Some PP_RUNNING) (Some PP_SUCCEEDED)"
| pp_give_up: "pp_edge (Some PP_RUNNING) (Some PP_FAILED)"

code_pred main_edge .
code_pred pp_edge .

inductive_cases main_edge_from_terminal: "main_edge SUCCEEDED s" "main_edge FAILED s" "main_edge CANCELLED s"
inductive_simps main_edge_iff: "main_edge s s'"
inductive_simps pp_edge_iff: "pp_edge s s'"

definition same_request :: "erow \<Rightarrow> erow \<Rightarrow> bool" where
  "same_request r r' \<longleftrightarrow> e_id r' = e_id r \<and> e_idem r' = e_idem r \<and> e_filename r' = e_filename r
   \<and> e_sha256 r' = e_sha256 r \<and> e_bytes r' = e_bytes r \<and> e_schema r' = e_schema r
   \<and> e_options r' = e_options r \<and> e_callback r' = e_callback r \<and> e_metadata r' = e_metadata r
   \<and> e_submitted r' = e_submitted r"

text \<open>One transition of one row: either the main machine moves (and the bbox leg can only be
  requested, with the success), or the bbox leg of a succeeded row moves.\<close>

definition row_edge :: "erow \<Rightarrow> erow \<Rightarrow> bool" where
  "row_edge r r' \<longleftrightarrow> same_request r r' \<and> e_attempts r \<le> e_attempts r' \<and> b_attempts r \<le> b_attempts r' \<and>
     ((main_edge (e_status r) (e_status r')
        \<and> (b_status r' = b_status r \<or> (e_status r' = SUCCEEDED \<and> b_status r' = Some PP_PENDING)))
    \<or> (e_status r = SUCCEEDED \<and> e_status r' = SUCCEEDED \<and> e_finished r' = e_finished r
        \<and> pp_edge (b_status r) (b_status r') \<and> b_status r \<noteq> None))"

locale guarded_transition =
  fixes grd :: "erow \<Rightarrow> bool"
    and upd :: "erow \<Rightarrow> erow"
  assumes upd_edge: "grd r \<Longrightarrow> row_edge r (upd r)"
    and upd_keys: "e_id (upd r) = e_id r" "e_idem (upd r) = e_idem r"
    and upd_ok: "grd r \<Longrightarrow> row_ok r \<Longrightarrow> row_ok (upd r)"
begin

lemma table_ok: "table_ok T \<Longrightarrow> table_ok (snd (atomic_update i grd upd T))"
proof -
  assume T: "table_ok T"
  let ?h = "\<lambda>r. if e_id r = i \<and> grd r then upd r else r"
  have "map e_id (map ?h T) = map e_id T" "map e_idem (map ?h T) = map e_idem T"
    using upd_keys by simp_all
  then have "keys_ok (map ?h T) = keys_ok T" by (rule keys_ok_cong)
  with T show ?thesis
    by (auto simp: table_ok_def atomic_update_def upd_ok)
qed

lemma ids: "ids_distinct T \<Longrightarrow> ids_distinct (snd (atomic_update i grd upd T))"
  by (rule db.cas_inv) (simp_all add: upd_keys)

lemma result:
  "ids_distinct T \<Longrightarrow> fst (atomic_update i grd upd T) =
     (case repo_get i T of None \<Rightarrow> None | Some r \<Rightarrow> if grd r then Some (upd r) else None)"
  by (rule db.cas_result) (simp_all add: upd_keys)

lemma lookup:
  "ids_distinct T \<Longrightarrow> repo_get j (snd (atomic_update i grd upd T)) =
     map_option (\<lambda>r. if j = i \<and> grd r then upd r else r) (repo_get j T)"
  by (cases "j = i") (simp_all add: db.cas_same db.cas_other upd_keys option.map_ident)

lemma edge:
  assumes "ids_distinct T" and "repo_get j T = Some r"
  shows "\<exists>r'. repo_get j (snd (atomic_update i grd upd T)) = Some r' \<and> (r' = r \<or> row_edge r r')"
  using assms by (auto simp: lookup upd_edge)

lemma none: "ids_distinct T \<Longrightarrow> fst (atomic_update i grd upd T) = None \<Longrightarrow>
    repo_get j (snd (atomic_update i grd upd T)) = repo_get j T"
  by (rule db.cas_miss) (simp_all add: upd_keys)

end

text \<open>The nine transitions of the repository.\<close>

lemmas transition_simps = repo_guards repo_values row_edge_def same_request_def
  main_edge_iff pp_edge_iff

interpretation mark_running_tr: guarded_transition "run_guard now lease" "run_values now" for now lease
  by unfold_locales (auto simp: transition_simps row_ok_defs split: option.splits)

interpretation mark_succeeded_tr: guarded_transition is_running "succeed_values now res req" for now res req
  by unfold_locales (auto simp: transition_simps row_ok_defs Let_def split: option.splits)

interpretation mark_failed_tr: guarded_transition is_running "fail_values now code msg" for now code msg
  by unfold_locales (auto simp: transition_simps row_ok_defs split: option.splits)

interpretation mark_cancelled_tr: guarded_transition is_queued "cancel_values now" for now
  by unfold_locales (auto simp: transition_simps row_ok_defs split: option.splits)

interpretation requeue_tr: guarded_transition is_running requeue_values
  by unfold_locales (auto simp: transition_simps row_ok_defs split: option.splits)

interpretation bbox_claim_tr: guarded_transition "bbox_claim_guard now lease" "bbox_claim_values now" for now lease
  by unfold_locales (auto simp: transition_simps row_ok_defs split: option.splits)

interpretation bbox_requeue_tr: guarded_transition bbox_running bbox_requeue_values
  by unfold_locales (auto simp: transition_simps row_ok_defs split: option.splits)

interpretation bbox_complete_tr: guarded_transition bbox_running "bbox_complete_values now res" for now res
  by unfold_locales (auto simp: transition_simps row_ok_defs split: option.splits)

interpretation bbox_fail_tr: guarded_transition bbox_running "bbox_fail_values now code msg" for now code msg
  by unfold_locales (auto simp: transition_simps row_ok_defs split: option.splits)

section \<open>Histories of the table\<close>

text \<open>A row as the submit handler hands it to \<open>add\<close>, with the column defaults filled in.\<close>

definition fresh_row :: "erow \<Rightarrow> bool" where
  "fresh_row r \<longleftrightarrow> e_status r = QUEUED \<and> e_result r = None \<and> no_main_error r \<and> e_attempts r = 0
   \<and> e_started r = None \<and> e_finished r = None \<and> b_status r = None \<and> b_attempts r = 0
   \<and> b_started r = None \<and> b_finished r = None \<and> no_bbox_error r"

inductive repo_step :: "table \<Rightarrow> table \<Rightarrow> bool" where
  s_add: "fresh_row r \<Longrightarrow> repo_add r T = Added T' \<Longrightarrow> repo_step T T'"
| s_run: "repo_step T (snd (mark_running now lease i T))"
| s_succeed: "repo_step T (snd (mark_succeeded now res req i T))"
| s_fail: "repo_step T (snd (mark_failed now code msg i T))"
| s_cancel: "repo_step T (snd (mark_cancelled now i T))"
| s_requeue: "repo_step T (snd (requeue_for_retry i T))"
| s_bclaim: "repo_step T (snd (claim_bbox_refinement now lease i T))"
| s_brequeue: "repo_step T (snd (requeue_bbox_refinement i T))"
| s_bcomplete: "repo_step T (snd (complete_bbox_refinement now res i T))"
| s_bfail: "repo_step T (snd (fail_bbox_refinement now code msg i T))"

lemma fresh_row_ok: "fresh_row r \<Longrightarrow> row_ok r"
  by (simp add: fresh_row_def row_ok_defs)

lemma add_get:
  assumes "repo_add r T = Added T'"
  shows "repo_get i T' = (if i = e_id r then Some r else repo_get i T)"
proof -
  from assms have new: "repo_get (e_id r) T = None" and T': "T' = T @ [r]"
    by (auto simp: repo_add_def repo_get_None split: if_splits)
  then have "repo_get i T' = (case repo_get i T of Some x \<Rightarrow> Some x
      | None \<Rightarrow> if e_id r = i then Some r else None)"
    by (simp add: repo_get_def find_append split: option.splits)
  with new show ?thesis by (auto split: option.splits)
qed

lemma add_keys: "keys_ok T \<Longrightarrow> repo_add r T = Added T' \<Longrightarrow> keys_ok T'"
  by (force simp: repo_add_def keys_ok_def split: if_splits)

lemma add_table_ok: "table_ok T \<Longrightarrow> row_ok r \<Longrightarrow> repo_add r T = Added T' \<Longrightarrow> table_ok T'"
  using add_keys [of T r T'] by (auto simp: table_ok_def repo_add_def split: if_splits)

lemma table_ok_ids: "table_ok T \<Longrightarrow> ids_distinct T"
  by (simp add: table_ok_def keys_ok_def ids_distinct_def)

lemmas transitions_table_ok = mark_running_tr.table_ok mark_succeeded_tr.table_ok mark_failed_tr.table_ok
  mark_cancelled_tr.table_ok requeue_tr.table_ok bbox_claim_tr.table_ok bbox_requeue_tr.table_ok
  bbox_complete_tr.table_ok bbox_fail_tr.table_ok

lemmas transitions_edge = mark_running_tr.edge mark_succeeded_tr.edge mark_failed_tr.edge
  mark_cancelled_tr.edge requeue_tr.edge bbox_claim_tr.edge bbox_requeue_tr.edge
  bbox_complete_tr.edge bbox_fail_tr.edge

lemmas transitions_result = mark_running_tr.result mark_succeeded_tr.result mark_failed_tr.result
  mark_cancelled_tr.result requeue_tr.result bbox_claim_tr.result bbox_requeue_tr.result
  bbox_complete_tr.result bbox_fail_tr.result

lemmas transitions_lookup = mark_running_tr.lookup mark_succeeded_tr.lookup mark_failed_tr.lookup
  mark_cancelled_tr.lookup requeue_tr.lookup bbox_claim_tr.lookup bbox_requeue_tr.lookup
  bbox_complete_tr.lookup bbox_fail_tr.lookup

lemmas transitions_ids = mark_running_tr.ids mark_succeeded_tr.ids mark_failed_tr.ids
  mark_cancelled_tr.ids requeue_tr.ids bbox_claim_tr.ids bbox_requeue_tr.ids
  bbox_complete_tr.ids bbox_fail_tr.ids

lemma repo_step_ok: "repo_step T T' \<Longrightarrow> table_ok T \<Longrightarrow> table_ok T'"
  by (induction rule: repo_step.induct)
    (auto simp: repo_ops intro: transitions_table_ok add_table_ok fresh_row_ok)

lemma repo_steps_ok: "repo_step\<^sup>*\<^sup>* T T' \<Longrightarrow> table_ok T \<Longrightarrow> table_ok T'"
  by (induction rule: rtranclp_induct) (auto intro: repo_step_ok)

lemma repo_step_edge:
  assumes "repo_step T T'" and "table_ok T" and "repo_get i T = Some r"
  shows "\<exists>r'. repo_get i T' = Some r' \<and> (r' = r \<or> row_edge r r')"
  using assms
proof (cases rule: repo_step.cases)
  case (s_add r0)
  with assms(3) have "i \<noteq> e_id r0"
    by (auto simp: repo_add_def dest: repo_get_in split: if_splits)
  with s_add assms(3) show ?thesis by (simp add: add_get)
qed (simp_all add: repo_ops transitions_edge table_ok_ids)

text \<open>What one transition, and so any history, preserves of a row.\<close>

definition row_history :: "erow \<Rightarrow> erow \<Rightarrow> bool" where
  "row_history r r' \<longleftrightarrow> same_request r r' \<and> e_attempts r \<le> e_attempts r' \<and> b_attempts r \<le> b_attempts r'
   \<and> (e_status r \<in> {FAILED, CANCELLED} \<longrightarrow> r' = r)
   \<and> (e_status r = SUCCEEDED \<longrightarrow> e_status r' = SUCCEEDED \<and> e_finished r' = e_finished r)
   \<and> (b_status r \<noteq> None \<longrightarrow> b_status r' \<noteq> None)
   \<and> (case b_status r of Some s \<Rightarrow> pp_terminal s \<longrightarrow> b_status r' = Some s | None \<Rightarrow> e_status r = SUCCEEDED \<longrightarrow> b_status r' = None)"

lemma row_history_refl: "row_history r r"
  by (auto simp: row_history_def same_request_def split: option.splits)

lemma same_request_trans: "same_request r r' \<Longrightarrow> same_request r' r'' \<Longrightarrow> same_request r r''"
  by (simp add: same_request_def)

lemma row_history_edge:
  assumes ok: "row_ok r" and h: "row_history r r'" and e: "row_edge r' r''"
  shows "row_history r r''"
proof -
  have same: "same_request r r''" "e_attempts r \<le> e_attempts r''" "b_attempts r \<le> b_attempts r''"
    using h e same_request_trans by (auto simp: row_history_def row_edge_def)
  consider (main) "main_edge (e_status r') (e_status r'')"
      "b_status r'' = b_status r' \<or> b_status r'' = Some PP_PENDING"
    | (leg) "e_status r' = SUCCEEDED" "e_status r'' = SUCCEEDED" "e_finished r'' = e_finished r'"
      "pp_edge (b_status r') (b_status r'')" "b_status r' \<noteq> None"
    using e by (auto simp: row_edge_def)
  then show ?thesis
  proof cases
    case main
    then have live: "e_status r' = QUEUED \<or> e_status r' = RUNNING" by (auto simp: main_edge_iff)
    with h have st: "e_status r = QUEUED \<or> e_status r = RUNNING"
      by (cases "e_status r") (auto simp: row_history_def)
    with ok have "b_status r = None" by (auto simp: row_ok_def main_ok_def)
    with st same show ?thesis by (auto simp: row_history_def)
  next
    case leg
    have "e_status r \<in> {FAILED, CANCELLED} \<Longrightarrow> False"
      using h leg by (auto simp: row_history_def)
    moreover have "b_status r = Some s \<Longrightarrow> \<not> pp_terminal s" for s
      using h leg by (auto simp: row_history_def pp_edge_iff pp_terminal_def)
    moreover have "b_status r = None \<Longrightarrow> e_status r \<noteq> SUCCEEDED"
      using h leg by (auto simp: row_history_def)
    moreover have "b_status r'' \<noteq> None" using leg by (auto simp: pp_edge_iff)
    ultimately show ?thesis using same leg h
      by (auto simp: row_history_def split: option.splits)
  qed
qed

lemma repo_steps_history:
  assumes "repo_step\<^sup>*\<^sup>* T T'" and "table_ok T" and "repo_get i T = Some r"
  shows "\<exists>r'. repo_get i T' = Some r' \<and> row_history r r'"
  using assms(1)
proof (induction rule: rtranclp_induct)
  case base
  with assms show ?case using row_history_refl by blast
next
  case (step T' T'')
  then obtain r' where r': "repo_get i T' = Some r'" "row_history r r'" by blast
  have "table_ok T'" using repo_steps_ok step assms by blast
  with repo_step_edge [OF step.hyps(2) _ r'(1)] obtain r'' where
    "repo_get i T'' = Some r''" "r'' = r' \<or> row_edge r' r''" by blast
  moreover have "row_ok r" using assms by (auto simp: table_ok_def dest: repo_get_in)
  ultimately show ?case using r'(2) row_history_edge by blast
qed

section \<open>The reaper queries\<close>

lemma take_found: "i \<in> set (take n (map e_id (filter P T))) \<Longrightarrow> \<exists>r\<in>set T. e_id r = i \<and> P r"
  by (auto dest!: in_set_takeD)

lemma cutoff_mono: "now \<le> now' \<Longrightarrow> lease_cutoff now l \<le> lease_cutoff now' l"
  by (simp add: lease_cutoff_def)

lemma sql_lt_mono: "sql_lt x s \<Longrightarrow> s \<le> t \<Longrightarrow> sql_lt x t"
  by (cases x) auto

lemmas finder_defs = find_stale_running_def find_stale_queued_def find_stale_bbox_refining_def
  find_pending_bbox_revive_def

text \<open>A row every sweep is after: past its lease or threshold, and not terminal.\<close>

definition main_orphan :: "time \<Rightarrow> int \<Rightarrow> int \<Rightarrow> erow \<Rightarrow> bool" where
  "main_orphan now lease older r \<longleftrightarrow>
     (e_status r = RUNNING \<and> sql_lt (e_started r) (lease_cutoff now lease))
   \<or> (e_status r = QUEUED \<and> coalesce (e_started r) (e_submitted r) < lease_cutoff now older)"

definition bbox_orphan :: "time \<Rightarrow> int \<Rightarrow> int \<Rightarrow> erow \<Rightarrow> bool" where
  "bbox_orphan now pending lease r \<longleftrightarrow>
     (b_status r = Some PP_RUNNING \<and> sql_lt (b_started r) (lease_cutoff now lease))
   \<or> (e_status r = SUCCEEDED \<and> b_status r = Some PP_PENDING
       \<and> (case b_started r of None \<Rightarrow> sql_lt (e_finished r) (lease_cutoff now pending)
          | Some s \<Rightarrow> s < lease_cutoff now lease))"

lemma main_found_orphan:
  assumes "i \<in> set (find_stale_running now lease cap T) \<union> set (find_stale_queued now older cap T)"
  shows "\<exists>r\<in>set T. e_id r = i \<and> main_orphan now lease older r"
  using assms by (auto simp: finder_defs main_orphan_def dest!: take_found)

lemma bbox_found_orphan:
  assumes "i \<in> set (find_stale_bbox_refining now lease cap T)
      \<union> set (find_pending_bbox_revive now pending lease cap T)"
  shows "\<exists>r\<in>set T. e_id r = i \<and> bbox_orphan now pending lease r"
  using assms by (auto simp: finder_defs bbox_orphan_def split: option.splits dest!: take_found; fastforce)

lemma main_orphan_claimable:
  "main_orphan now lease older r \<Longrightarrow> now \<le> now' \<Longrightarrow> run_guard now' lease r"
  using cutoff_mono sql_lt_mono by (auto simp: main_orphan_def run_guard_def)

lemma bbox_orphan_claimable:
  "bbox_orphan now pending lease r \<Longrightarrow> row_ok r \<Longrightarrow> now \<le> now' \<Longrightarrow> bbox_claim_guard now' lease r"
  using cutoff_mono sql_lt_mono
  by (auto simp: bbox_orphan_def bbox_claim_guard_def row_ok_def main_ok_def)

lemma take_all_found: "r \<in> set T \<Longrightarrow> P r \<Longrightarrow> length T \<le> n \<Longrightarrow> e_id r \<in> set (take n (map e_id (filter P T)))"
  using le_trans [OF length_filter_le [of P T]] by auto

text \<open>The ids one sweep republishes.\<close>

definition main_sweep :: "time \<Rightarrow> int \<Rightarrow> int \<Rightarrow> nat \<Rightarrow> table \<Rightarrow> string set" where
  "main_sweep now lease older cap T =
     set (find_stale_running now lease cap T) \<union> set (find_stale_queued now older cap T)"

definition bbox_sweep :: "time \<Rightarrow> int \<Rightarrow> int \<Rightarrow> nat \<Rightarrow> table \<Rightarrow> string set" where
  "bbox_sweep now pending lease cap T =
     set (find_stale_bbox_refining now lease cap T) \<union> set (find_pending_bbox_revive now pending lease cap T)"

lemma orphan_found:
  assumes "r \<in> set T" "length T \<le> cap"
  shows "main_orphan now lease older r \<Longrightarrow> e_id r \<in> main_sweep now lease older cap T"
    and "bbox_orphan now pending lease r \<Longrightarrow> e_id r \<in> bbox_sweep now pending lease cap T"
  unfolding main_sweep_def bbox_sweep_def finder_defs main_orphan_def bbox_orphan_def
  by (auto simp del: set_take_subset split: option.splits intro: take_all_found [OF assms(1) _ assms(2)])

lemma main_sweep_claimable:
  assumes T: "table_ok T" and le: "now \<le> now'" and i: "i \<in> main_sweep now lease older cap T"
  shows "fst (mark_running now' lease i T) \<noteq> None"
proof -
  obtain r where r: "r \<in> set T" "e_id r = i" "main_orphan now lease older r"
    using main_found_orphan i unfolding main_sweep_def by blast
  then have "repo_get i T = Some r"
    using T repo_get_row by (auto simp: table_ok_def keys_ok_def)
  with main_orphan_claimable [OF r(3) le] show ?thesis
    by (simp add: mark_running_def mark_running_tr.result [OF table_ok_ids [OF T]])
qed

lemma bbox_sweep_claimable:
  assumes T: "table_ok T" and le: "now \<le> now'" and i: "i \<in> bbox_sweep now pending lease cap T"
  shows "fst (claim_bbox_refinement now' lease i T) \<noteq> None"
proof -
  obtain r where r: "r \<in> set T" "e_id r = i" "bbox_orphan now pending lease r"
    using bbox_found_orphan i unfolding bbox_sweep_def by blast
  then have "repo_get i T = Some r" and "row_ok r"
    using T repo_get_row by (auto simp: table_ok_def keys_ok_def)
  with bbox_orphan_claimable [OF r(3) _ le] show ?thesis
    by (simp add: claim_bbox_refinement_def bbox_claim_tr.result [OF table_ok_ids [OF T]])
qed

section \<open>Properties\<close>

definition sample_row :: "string \<Rightarrow> time \<Rightarrow> erow" where
  "sample_row i t = \<lparr>e_id = i, e_idem = None, e_status = QUEUED, e_filename = ''a.pdf'', e_sha256 = ''00'',
     e_bytes = 4, e_schema = PDict [], e_options = PDict [], e_callback = None, e_metadata = [],
     e_result = None, e_error_code = None, e_error_message = None, e_attempts = 0, e_submitted = t,
     e_started = None, e_finished = None, b_status = None, b_attempts = 0, b_started = None,
     b_finished = None, b_error_code = None, b_error_message = None\<rparr>"

lemma sample_fresh: "fresh_row (sample_row i t)"
  by (simp add: fresh_row_def sample_row_def no_main_error_def no_bbox_error_def)

lemma sample_ok: "table_ok [sample_row i t]"
  using fresh_row_ok [OF sample_fresh] by (simp add: table_ok_def keys_ok_def)

lemma sample_added: "repo_step [] [sample_row i t]"
  by (rule s_add [OF sample_fresh]) (simp add: repo_add_def)

text \<open>C1: every table the repository can reach from an empty one, by inserting new
  extractions and running any interleaving of the nine transitions, satisfies the row
  invariant: unique ids and idempotency keys; started, finished, result and error columns
  agree with the status; the bbox leg exists on succeeded rows only and its columns agree
  with its own status; an attempt counter is zero exactly when there is no start time.\<close>

theorem reachable_table_ok: "repo_step\<^sup>*\<^sup>* [] T \<Longrightarrow> table_ok T"
  by (erule repo_steps_ok) (simp add: table_ok_def keys_ok_def)

theorem reachable_table_ok_witness:
  "table_ok (snd (mark_running 5 60 ''ext_1'' [sample_row ''ext_1'' 0]))"
  by (rule reachable_table_ok, rule rtranclp.rtrancl_into_rtrancl)
    (rule r_into_rtranclp, rule sample_added, rule s_run)



text \<open>C3: the claim is exclusive. If \<open>mark_running\<close> hands a row to one worker, no other call
  of \<open>mark_running\<close> and no \<open>mark_cancelled\<close> on that row succeeds until the lease has run
  out; in particular, of two concurrent deliveries of one event exactly one starts the pipeline.\<close>

theorem claim_exclusive:
  assumes "ids_distinct T" and "fst (mark_running t1 lease i T) \<noteq> None"
    and "t2 \<le> t1 + 1000000 * max 0 lease"
  shows "fst (mark_running t2 lease i (snd (mark_running t1 lease i T))) = None
    \<and> fst (mark_cancelled t2 i (snd (mark_running t1 lease i T))) = None"
  using assms unfolding mark_running_def mark_cancelled_def
  by (auto intro!: db.cas_exclusive simp: repo_guards repo_values lease_cutoff_def)

theorem claim_exclusive_witness:
  "fst (mark_running 900 1260 ''ext_1'' (snd (mark_running 5 1260 ''ext_1'' [sample_row ''ext_1'' 0]))) = None
   \<and> fst (mark_cancelled 900 ''ext_1'' (snd (mark_running 5 1260 ''ext_1'' [sample_row ''ext_1'' 0]))) = None"
  by (rule claim_exclusive)
    (simp_all add: ids_distinct_def mark_running_def atomic_update_def repo_guards sample_row_def)



end
