(* ===== verification/Extractions.thy ===== *)
theory Extractions
  imports Lifecycle RequestCheck
begin

text \<open>
  The command and query handlers of \<open>core/services/extractions\<close> over the table of
  \<open>Lifecycle\<close>. A handler awaits the database between its statements, so other sessions may
  act there: a handler takes the table as each statement finds it, through an interference
  function \<open>env\<close> between two statements, and the properties assume of \<open>env\<close> only that it is a
  history of repository steps. The hash, pydantic's \<open>model_dump\<close> and the outcome of
  publishing on the bus are parameters.
\<close>

section \<open>The public view of a row\<close>

record ext_error =
  x_code :: string
  x_message :: string

record bbox_info =
  bi_status :: ppstatus
  bi_started :: "time option"
  bi_finished :: "time option"
  bi_attempts :: int
  bi_error :: "ext_error option"

record extraction_dto =
  d_id :: string
  d_status :: estatus
  d_submitted :: time
  d_started :: "time option"
  d_finished :: "time option"
  d_attempts :: int
  d_error :: "ext_error option"
  d_post_processing :: "bbox_info option"

text \<open>\<open>if code or message: ExtractionError(code or "unknown", message or "")\<close>\<close>

definition project_error :: "string option \<Rightarrow> string option \<Rightarrow> ext_error option" where
  "project_error code msg =
     (let c = coalesce code []; m = coalesce msg [] in
      if c = [] \<and> m = [] then None
      else Some \<lparr>x_code = (if c = [] then ''unknown'' else c), x_message = m\<rparr>)"

definition row_to_extraction :: "erow \<Rightarrow> extraction_dto" where
  "row_to_extraction r = \<lparr>d_id = e_id r, d_status = e_status r, d_submitted = e_submitted r,
     d_started = e_started r, d_finished = e_finished r, d_attempts = e_attempts r,
     d_error = project_error (e_error_code r) (e_error_message r),
     d_post_processing = map_option (\<lambda>s. \<lparr>bi_status = s, bi_started = b_started r,
        bi_finished = b_finished r, bi_attempts = b_attempts r,
        bi_error = project_error (b_error_code r) (b_error_message r)\<rparr>) (b_status r)\<rparr>"

section \<open>Submit\<close>

record submit_request =
  sq_request :: extraction_request
  sq_intention :: string
  sq_doc_dumps :: "pyval list"
  sq_rule_dumps :: "pyval list"
  sq_options_dump :: pyval
  sq_callback :: "string option"
  sq_metadata :: "(string \<times> pyval) list"

definition opt_str :: "string option \<Rightarrow> pyval" where
  "opt_str v = (case v of Some s \<Rightarrow> PStr s | None \<Rightarrow> PNone)"

definition file_dump :: "file_input \<Rightarrow> pyval" where
  "file_dump f = PDict [(''filename'', PStr (f_filename f)), (''content_base64'', opt_str (f_content f)),
     (''content_type'', opt_str (f_ctype f)), (''expected_type'', opt_str (f_expected f))]"

definition schema_json :: "submit_request \<Rightarrow> pyval" where
  "schema_json q = PDict [(''intention'', PStr (sq_intention q)), (''document_types'', PList (sq_doc_dumps q)),
     (''rules'', PList (sq_rule_dumps q)), (''files'', PList (map file_dump (rq_files (sq_request q))))]"

text \<open>The decoded bytes of every file; the first file without content raises \<open>ValueError\<close>.\<close>

fun all_bytes :: "file_input list \<Rightarrow> nat list list option" where
  "all_bytes [] = Some []"
| "all_bytes (f # fs) = (case decoded_bytes f of Inl _ \<Rightarrow> None
     | Inr b \<Rightarrow> map_option (\<lambda>bs. b # bs) (all_bytes fs))"

definition primary_filename :: "file_input list \<Rightarrow> string" where
  "primary_filename fs =
     (if length fs = 1 then f_filename (hd fs)
      else take 255 (f_filename (hd fs) @ '' (+'' @ str_of_nat (length fs - 1) @ '' more)''))"

definition content_hash :: "(nat list \<Rightarrow> string) \<Rightarrow> file_input list \<Rightarrow> nat list list \<Rightarrow> string" where
  "content_hash sha fs bs =
     (if length fs = 1 then sha (hd bs)
      else sha (concat (map (\<lambda>(f, b). map code_point (f_filename f) @ b) (zip fs bs))))"

text \<open>\<open>dict(metadata or {})\<close>, then \<open>setdefault("_correlation", ctx)\<close> for a non-empty context.\<close>

definition with_correlation :: "(string \<times> pyval) list \<Rightarrow> (string \<times> pyval) list \<Rightarrow> (string \<times> pyval) list" where
  "with_correlation ctx md =
     (if ctx = [] \<or> ''_correlation'' \<in> fst ` set md then md else md @ [(''_correlation'', PDict ctx)])"

definition new_row :: "(nat list \<Rightarrow> string) \<Rightarrow> string \<Rightarrow> time \<Rightarrow> (string \<times> pyval) list \<Rightarrow> string option
    \<Rightarrow> submit_request \<Rightarrow> nat list list \<Rightarrow> erow" where
  "new_row sha i now ctx idem q bs = \<lparr>e_id = i, e_idem = idem, e_status = QUEUED,
     e_filename = primary_filename (rq_files (sq_request q)),
     e_sha256 = content_hash sha (rq_files (sq_request q)) bs,
     e_bytes = int (sum_list (map length bs)), e_schema = schema_json q, e_options = sq_options_dump q,
     e_callback = sq_callback q, e_metadata = with_correlation ctx (sq_metadata q),
     e_result = None, e_error_code = None, e_error_message = None, e_attempts = 0, e_submitted = now,
     e_started = None, e_finished = None, b_status = None, b_attempts = 0, b_started = None,
     b_finished = None, b_error_code = None, b_error_message = None\<rparr>"

text \<open>What the handler ends with: the response, an exception, and the published events.\<close>

datatype submit_outcome =
    Accepted extraction_dto
  | InvalidRequestError "issue list"
  | DecodeError
  | IntegrityRaised
  | PublishRaised

record submit_context =
  sc_sha :: "nat list \<Rightarrow> string"
  sc_new_id :: string
  sc_now :: time
  sc_correlation :: "(string \<times> pyval) list"
  sc_publish_ok :: bool

definition submit_existing :: "string option \<Rightarrow> table \<Rightarrow> erow option" where
  "submit_existing idem T = (case idem of None \<Rightarrow> None
     | Some k \<Rightarrow> if k = [] then None else get_by_idempotency_key k T)"

definition submit_handle :: "submit_context \<Rightarrow> (table \<Rightarrow> table) \<Rightarrow> (table \<Rightarrow> table) \<Rightarrow> submit_request
    \<Rightarrow> string option \<Rightarrow> table \<Rightarrow> submit_outcome \<times> table \<times> extraction_dto list" where
  "submit_handle c env1 env2 q idem T =
     (case submit_existing idem T of
        Some r \<Rightarrow> (Accepted (row_to_extraction r), T, [])
      | None \<Rightarrow>
        let issues = validate_request False (sq_request q) in
        if has_errors issues then (InvalidRequestError issues, T, [])
        else (case all_bytes (rq_files (sq_request q)) of
            None \<Rightarrow> (DecodeError, T, [])
          | Some bs \<Rightarrow>
            let row = new_row (sc_sha c) (sc_new_id c) (sc_now c) (sc_correlation c) idem q bs in
            (case repo_add row (env1 T) of
               Added T' \<Rightarrow>
                 if sc_publish_ok c then (Accepted (row_to_extraction row), T', [row_to_extraction row])
                 else (PublishRaised, T', [])
             | IntegrityError \<Rightarrow>
                 let T' = env2 (env1 T) in
                 (case submit_existing idem T' of
                    None \<Rightarrow> (IntegrityRaised, T', [])
                  | Some w \<Rightarrow> (Accepted (row_to_extraction w), T', [])))))"

section \<open>Get, list and cancel\<close>

definition get_handle :: "string \<Rightarrow> table \<Rightarrow> extraction_dto option" where
  "get_handle i T = map_option row_to_extraction (repo_get i T)"

definition list_handle :: "list_filter \<Rightarrow> nat \<Rightarrow> nat \<Rightarrow> table \<Rightarrow> extraction_dto list \<times> nat" where
  "list_handle q cap off T = (let (rows, total) = list_rows q cap off T in (map row_to_extraction rows, total))"

datatype cancel_outcome = Cancelled extraction_dto | NotFound | NotCancellable string estatus

definition cancel_handle :: "time \<Rightarrow> (table \<Rightarrow> table) \<Rightarrow> string \<Rightarrow> table \<Rightarrow> cancel_outcome \<times> table" where
  "cancel_handle now env i T =
     (let (res, T') = mark_cancelled now i T in
      case res of Some r \<Rightarrow> (Cancelled (row_to_extraction r), T')
      | None \<Rightarrow> let T'' = env T' in
          (case repo_get i T'' of None \<Rightarrow> (NotFound, T'')
           | Some r \<Rightarrow> (NotCancellable (e_id r) (e_status r), T'')))"

section \<open>The result, with its long poll\<close>

text \<open>\<open>obs n\<close> is the table at the \<open>n\<close>-th read of the row, \<open>clk n\<close> the loop clock after it. The
  loop has fuel; \<open>None\<close> is running out of it.\<close>

definition poll_stable :: "erow \<Rightarrow> bool" where
  "poll_stable r \<longleftrightarrow> e_status r \<in> {FAILED, CANCELLED}
     \<or> (case b_status r of None \<Rightarrow> True | Some s \<Rightarrow> s \<in> {PP_SUCCEEDED, PP_FAILED})"

fun poll_loop :: "nat \<Rightarrow> time \<Rightarrow> string \<Rightarrow> (nat \<Rightarrow> table) \<Rightarrow> (nat \<Rightarrow> time) \<Rightarrow> nat \<Rightarrow> (erow option \<times> nat) option" where
  "poll_loop fuel deadline i obs clk n =
     (case repo_get i (obs n) of
        None \<Rightarrow> Some (None, n)
      | Some r \<Rightarrow>
          if poll_stable r \<or> deadline \<le> clk n then Some (Some r, n)
          else (case fuel of 0 \<Rightarrow> None | Suc k \<Rightarrow> poll_loop k deadline i obs clk (Suc n)))"

declare poll_loop.simps [simp del]

definition poll_interval :: "int \<Rightarrow> int" where
  "poll_interval us = max 100000 us"

datatype 'a result_outcome = Result string 'a | ResultNotFound | NotReady string estatus
  | MissingResult | InvalidResult

definition result_of_row :: "(pyval \<Rightarrow> 'a option) \<Rightarrow> erow \<Rightarrow> 'a result_outcome" where
  "result_of_row parse r =
     (if \<not> has_result (e_status r) then NotReady (e_id r) (e_status r)
      else if \<not> truthy (coalesce (e_result r) PNone) then MissingResult
      else (case parse (coalesce (e_result r) PNone) of None \<Rightarrow> InvalidResult | Some x \<Rightarrow> Result (e_id r) x))"

definition result_handle :: "(pyval \<Rightarrow> 'a option) \<Rightarrow> nat \<Rightarrow> bool \<Rightarrow> int \<Rightarrow> string
    \<Rightarrow> (nat \<Rightarrow> table) \<Rightarrow> (nat \<Rightarrow> time) \<Rightarrow> 'a result_outcome option" where
  "result_handle parse fuel wait timeout i obs clk =
     (case repo_get i (obs 0) of
        None \<Rightarrow> Some ResultNotFound
      | Some r \<Rightarrow>
          if wait then
            map_option (\<lambda>(polled, _). case polled of None \<Rightarrow> ResultNotFound | Some r \<Rightarrow> result_of_row parse r)
              (poll_loop fuel (clk 0 + max 0 timeout) i obs clk 1)
          else Some (result_of_row parse r))"

lemma poll_loop_ends:
  assumes tick: "\<And>m. clk m + step \<le> clk (Suc m)" and "0 < step"
  shows "deadline \<le> clk n + int fuel * step \<Longrightarrow>
    \<exists>res m. poll_loop fuel deadline i obs clk n = Some (res, m) \<and> n \<le> m \<and> res = repo_get i (obs m)
      \<and> (\<forall>r. res = Some r \<longrightarrow> poll_stable r \<or> deadline \<le> clk m)"
proof (induction fuel arbitrary: n)
  case 0
  then show ?case by (cases "repo_get i (obs n)") (auto simp: poll_loop.simps)
next
  case (Suc k)
  show ?case
  proof (cases "\<exists>r. repo_get i (obs n) = Some r \<and> \<not> poll_stable r \<and> clk n < deadline")
    case True
    have "deadline \<le> clk (Suc n) + int k * step"
      using Suc.prems tick [of n] by (simp add: algebra_simps)
    from Suc.IH [OF this] True show ?thesis
      by (auto simp: poll_loop.simps [of "Suc k"])
  next
    case False
    then show ?thesis
      by (cases "repo_get i (obs n)") (auto simp: poll_loop.simps not_le not_less)
  qed
qed

section \<open>The idempotency key\<close>

lemma idem_unique:
  "keys_ok T \<Longrightarrow> r \<in> set T \<Longrightarrow> r' \<in> set T \<Longrightarrow> e_idem r = Some k \<Longrightarrow> e_idem r' = Some k \<Longrightarrow> r = r'"
  unfolding keys_ok_def by (induction T) (auto split: if_splits, (force simp: image_iff)+)

lemma by_idem_Some:
  assumes "keys_ok T"
  shows "get_by_idempotency_key k T = Some r \<longleftrightarrow> r \<in> set T \<and> e_idem r = Some k"
proof
  assume "get_by_idempotency_key k T = Some r"
  then show "r \<in> set T \<and> e_idem r = Some k"
    by (auto simp: get_by_idempotency_key_def dest!: find_Some_set)
next
  assume r: "r \<in> set T \<and> e_idem r = Some k"
  show "get_by_idempotency_key k T = Some r"
  proof (cases "get_by_idempotency_key k T")
    case None
    with r show ?thesis by (auto simp: get_by_idempotency_key_def find_None_iff)
  next
    case (Some r')
    then have "r' \<in> set T \<and> e_idem r' = Some k"
      by (auto simp: get_by_idempotency_key_def dest!: find_Some_set)
    with r Some idem_unique [OF assms] show ?thesis by auto
  qed
qed

lemma idem_persists:
  assumes "repo_step\<^sup>*\<^sup>* T T'" and "table_ok T" and "r \<in> set T"
  shows "\<exists>r'\<in>set T'. e_id r' = e_id r \<and> e_idem r' = e_idem r \<and> row_history r r'"
proof -
  have "repo_get (e_id r) T = Some r"
    using assms by (auto simp: table_ok_def keys_ok_def intro: repo_get_row)
  from repo_steps_history [OF assms(1,2) this] show ?thesis
    by (auto simp: row_history_def same_request_def dest!: repo_get_in)
qed

lemma new_row_fresh: "fresh_row (new_row sha i now ctx idem q bs)"
  by (simp add: fresh_row_def new_row_def no_main_error_def no_bbox_error_def)

lemma new_row_keys [simp]: "e_id (new_row sha i now ctx idem q bs) = i"
    "e_idem (new_row sha i now ctx idem q bs) = idem"
  by (simp_all add: new_row_def)

lemma submit_replay:
  assumes "table_ok T" and "r \<in> set T" and "e_idem r = Some k" and "k \<noteq> []"
  shows "submit_handle c env1 env2 q (Some k) T = (Accepted (row_to_extraction r), T, [])"
proof -
  have "get_by_idempotency_key k T = Some r"
    using assms by_idem_Some by (auto simp: table_ok_def)
  with assms(4) show ?thesis by (simp add: submit_handle_def submit_existing_def)
qed

lemma existing_in: "submit_existing idem T = Some r \<Longrightarrow> r \<in> set T \<and> e_idem r = idem"
  by (auto simp: submit_existing_def get_by_idempotency_key_def dest!: find_Some_set
      split: option.splits if_splits)

lemma submit_step:
  assumes h: "submit_handle c env1 env2 q idem T = (out, T', evs)"
    and e1: "repo_step\<^sup>*\<^sup>* T (env1 T)" and e2: "\<And>U. repo_step\<^sup>*\<^sup>* U (env2 U)"
  shows "repo_step\<^sup>*\<^sup>* T T'"
    and "out = Accepted d \<Longrightarrow> \<exists>r\<in>set T'. e_idem r = idem \<and> d = row_to_extraction r"
    and "evs \<noteq> [] \<Longrightarrow> \<exists>r. evs = [row_to_extraction r] \<and> fresh_row r \<and> r \<in> set T' \<and> repo_get (e_id r) (env1 T) = None"
proof -
  have add: "repo_step\<^sup>*\<^sup>* T T1" if "repo_add (new_row sha i now ctx idem q bs) (env1 T) = Added T1"
    for sha i now ctx bs T1
    using e1 s_add [OF new_row_fresh that] by (rule rtranclp.rtrancl_into_rtrancl)
  have both: "repo_step\<^sup>*\<^sup>* T (env2 (env1 T))" using e1 e2 by (rule rtranclp_trans)
  show "repo_step\<^sup>*\<^sup>* T T'"
    using h both by (auto simp: submit_handle_def Let_def split: option.splits if_splits add_result.splits
      intro: add)
  show "\<exists>r\<in>set T'. e_idem r = idem \<and> d = row_to_extraction r" if "out = Accepted d"
    using h that by (auto simp: submit_handle_def Let_def repo_add_def split: option.splits if_splits add_result.splits
      dest!: existing_in)
  show "\<exists>r. evs = [row_to_extraction r] \<and> fresh_row r \<and> r \<in> set T' \<and> repo_get (e_id r) (env1 T) = None"
    if "evs \<noteq> []"
  proof -
    from h that obtain sha i now ctx bs where add: "repo_add (new_row sha i now ctx idem q bs) (env1 T) = Added T'"
      and "evs = [row_to_extraction (new_row sha i now ctx idem q bs)]"
      by (auto simp: submit_handle_def Let_def split: option.splits if_splits add_result.splits)
    moreover from add have "repo_get i (env1 T) = None" "new_row sha i now ctx idem q bs \<in> set T'"
      by (auto simp: repo_add_def repo_get_None split: if_splits)
    ultimately show ?thesis using new_row_fresh by (intro exI [of _ "new_row sha i now ctx idem q bs"]) simp
  qed
qed

lemma submit_no_integrity:
  assumes h: "submit_handle c env1 env2 q (Some k) T = (out, T', evs)" and "k \<noteq> []"
    and T: "table_ok T" and e1: "repo_step\<^sup>*\<^sup>* T (env1 T)" and e2: "\<And>U. repo_step\<^sup>*\<^sup>* U (env2 U)"
    and fresh: "repo_get (sc_new_id c) (env1 T) = None"
  shows "out \<noteq> IntegrityRaised"
proof
  assume "out = IntegrityRaised"
  with h obtain bs where "repo_add (new_row (sc_sha c) (sc_new_id c) (sc_now c) (sc_correlation c) (Some k) q bs) (env1 T) = IntegrityError"
    and none: "submit_existing (Some k) (env2 (env1 T)) = None"
    by (auto simp: submit_handle_def Let_def split: option.splits if_splits add_result.splits)
  then obtain r where r: "r \<in> set (env1 T)" "e_idem r = Some k"
    using fresh by (force simp: repo_add_def repo_get_None split: if_splits)
  have "table_ok (env1 T)" using repo_steps_ok [OF e1 T] .
  from idem_persists [OF e2 this r(1)] r(2) obtain r' where
    "r' \<in> set (env2 (env1 T))" "e_idem r' = Some k" by auto
  moreover have "keys_ok (env2 (env1 T))"
    using repo_steps_ok [OF e2 \<open>table_ok (env1 T)\<close>] by (simp add: table_ok_def)
  ultimately have "get_by_idempotency_key k (env2 (env1 T)) = Some r'" by (simp add: by_idem_Some)
  with none \<open>k \<noteq> []\<close> show False by (simp add: submit_existing_def)
qed

section \<open>A concrete request\<close>

definition sample_field :: field_spec where
  "sample_field = FieldSpec ''total'' T_NUMBER True None None None None None None None []"

definition sample_request :: extraction_request where
  "sample_request = \<lparr>rq_files = [\<lparr>f_filename = ''a.pdf'', f_content = Some ''JVBERg=='', f_ctype = None, f_expected = None\<rparr>],
     rq_doc_types = [\<lparr>dt_id = ''invoice'', dt_description = None,
        dt_groups = [\<lparr>fg_name = ''header'', fg_fields = [sample_field]\<rparr>], dt_visual_checks = []\<rparr>],
     rq_rules = [], rq_stages = \<lparr>st_splitter = False, st_classifier = True, st_field_validation = True,
        st_visual_authenticity = False, st_content_authenticity = False, st_judge = False,
        st_judge_escalation = False, st_repair = False, st_bbox_refine = False, st_transform = False,
        st_rule_engine = False\<rparr>\<rparr>"

definition sample_submit :: submit_request where
  "sample_submit = \<lparr>sq_request = sample_request, sq_intention = ''extract'', sq_doc_dumps = [],
     sq_rule_dumps = [], sq_options_dump = PDict [], sq_callback = None, sq_metadata = []\<rparr>"

definition sample_context :: "string \<Rightarrow> time \<Rightarrow> submit_context" where
  "sample_context i t = \<lparr>sc_sha = (\<lambda>bs. str_of_nat (sum_list bs)), sc_new_id = i, sc_now = t, sc_correlation = [], sc_publish_ok = True\<rparr>"

lemma no_rule_edge: "\<not> (rule_edge [])\<^sup>+\<^sup>+ a b"
  by (auto dest: tranclpD simp: rule_edge_def)

lemma sample_request_ok: "request_ok sample_request"
  by (simp add: request_ok_def sample_request_def doc_field_names_def no_rule_edge)

lemma sample_no_errors: "\<not> has_errors (validate_request sync sample_request)"
  by (simp add: validate_request_ok sample_request_ok)

lemma sample_bytes: "all_bytes (rq_files sample_request) = Some [[37, 80, 68, 70]]"
  by (simp add: sample_request_def decoded_bytes_def b64_val_def code_point_def quad_bytes_def)

lemma sample_submitted:
  "submit_handle (sample_context i t) (\<lambda>T. T) (\<lambda>T. T) sample_submit (Some ''k1'') [] =
     (let r = new_row (sc_sha (sample_context i t)) i t [] (Some ''k1'') sample_submit [[37, 80, 68, 70]]
      in (Accepted (row_to_extraction r), [r], [row_to_extraction r]))"
  by (simp add: submit_handle_def submit_existing_def get_by_idempotency_key_def sample_submit_def
      sample_no_errors sample_bytes sample_context_def repo_add_def Let_def)

section \<open>Properties\<close>

text \<open>C4: submission is idempotent under races. Two submits carry the same non-empty key, whatever
  their payloads; around and between their statements, and between the two calls, other
  sessions run any repository steps. If the first is accepted, the second, started on any later
  table, answers with the same extraction id, changes nothing and publishes nothing, and at
  every moment exactly one row carries the key. When the new id is unused, the race on the
  unique index never surfaces as an error.\<close>

theorem submit_idempotent:
  assumes T: "table_ok T" and k: "k \<noteq> []"
    and e1: "repo_step\<^sup>*\<^sup>* T (env1 T)" and e2: "\<And>U. repo_step\<^sup>*\<^sup>* U (env2 U)"
    and fresh: "repo_get (sc_new_id c) (env1 T) = None"
    and h: "submit_handle c env1 env2 q (Some k) T = (out, T', evs)"
    and later: "repo_step\<^sup>*\<^sup>* T' T2"
  shows "out \<noteq> IntegrityRaised \<and> (\<forall>d. out = Accepted d \<longrightarrow>
    (\<exists>r. (\<exists>!r. r \<in> set T2 \<and> e_idem r = Some k) \<and> r \<in> set T2 \<and> e_id r = d_id d
       \<and> submit_handle c' env1' env2' q' (Some k) T2 = (Accepted (row_to_extraction r), T2, [])))"
proof (intro conjI allI impI)
  show "out \<noteq> IntegrityRaised" by (rule submit_no_integrity [OF h k T e1 e2 fresh])
  fix d assume d: "out = Accepted d"
  have T': "table_ok T'" using repo_steps_ok [OF submit_step(1) [OF h e1 e2] T] .
  then have T2: "table_ok T2" using repo_steps_ok [OF later] by blast
  from submit_step(2) [OF h e1 e2 d] obtain r where "r \<in> set T'" "e_idem r = Some k" "d = row_to_extraction r"
    by blast
  then obtain r2 where r2: "r2 \<in> set T2" "e_idem r2 = Some k" "e_id r2 = d_id d"
    using idem_persists [OF later T'] by (fastforce simp: row_to_extraction_def)
  moreover have "\<exists>!r. r \<in> set T2 \<and> e_idem r = Some k"
    using r2 idem_unique [of T2] T2 by (auto simp: table_ok_def)
  ultimately show "\<exists>r. (\<exists>!r. r \<in> set T2 \<and> e_idem r = Some k) \<and> r \<in> set T2 \<and> e_id r = d_id d
       \<and> submit_handle c' env1' env2' q' (Some k) T2 = (Accepted (row_to_extraction r), T2, [])"
    using submit_replay [OF T2 _ _ k] by blast
qed

theorem submit_idempotent_witness:
  "\<exists>r. e_id r = ''ext_1'' \<and> (\<exists>T. submit_handle (sample_context ''ext_2'' 9) (\<lambda>T. T) (\<lambda>T. T) sample_submit (Some ''k1'') T
     = (Accepted (row_to_extraction r), T, []) \<and> T \<noteq> [])"
proof -
  let ?c = "sample_context ''ext_1'' 5"
  obtain r where h: "submit_handle ?c (\<lambda>T. T) (\<lambda>T. T) sample_submit (Some ''k1'') [] =
      (Accepted (row_to_extraction r), [r], [row_to_extraction r])" and id: "e_id r = ''ext_1''"
    using sample_submitted [of "''ext_1''" 5] by (simp add: Let_def)
  have "table_ok []" by (simp add: table_ok_def keys_ok_def)
  moreover have "repo_get (sc_new_id ?c) [] = None" by (simp add: repo_get_def)
  ultimately have "submit_handle (sample_context ''ext_2'' 9) (\<lambda>T. T) (\<lambda>T. T) sample_submit (Some ''k1'') [r]
      = (Accepted (row_to_extraction r), [r], [])"
    using submit_idempotent [where T = "[]" and k = "''k1''" and ?env1.0 = "\<lambda>T. T" and ?env2.0 = "\<lambda>T. T" and c = ?c
        and q = sample_submit and T' = "[r]" and ?T2.0 = "[r]" and c' = "sample_context ''ext_2'' 9"
        and env1' = "\<lambda>T. T" and env2' = "\<lambda>T. T" and q' = sample_submit, OF _ _ _ _ _ h] by simp
  with id show ?thesis by (intro exI [of _ r] conjI exI [of _ "[r]"]) simp_all
qed

text \<open>C14: nothing is persisted or published for a rejected request, an event is published only for
  a row this call has just inserted, and an accepted or half-accepted submission is never lost: if the
  row was inserted, the event may fail to be published, but the row is queued and, once
  \<open>older\<close> seconds have passed, it is an orphan the reaper republishes.\<close>

theorem submit_effects:
  assumes T: "table_ok T" and e1: "repo_step\<^sup>*\<^sup>* T (env1 T)" and e2: "\<And>U. repo_step\<^sup>*\<^sup>* U (env2 U)"
    and h: "submit_handle c env1 env2 q idem T = (out, T', evs)"
  shows "table_ok T' \<and> repo_step\<^sup>*\<^sup>* T T'
    \<and> (\<forall>is. out = InvalidRequestError is \<longrightarrow> T' = T \<and> evs = [] \<and> report_errors is \<noteq> [] \<and> \<not> request_ok (sq_request q))
    \<and> (evs \<noteq> [] \<longrightarrow> (\<exists>r\<in>set T'. evs = [row_to_extraction r] \<and> fresh_row r \<and> out = Accepted (row_to_extraction r)))
    \<and> (out = PublishRaised \<longrightarrow> (\<exists>r\<in>set T'. e_id r = sc_new_id c \<and> fresh_row r
        \<and> (\<forall>now older lease. e_submitted r < lease_cutoff now older \<longrightarrow> main_orphan now lease older r)))"
proof (intro conjI allI impI)
  show steps: "repo_step\<^sup>*\<^sup>* T T'" by (rule submit_step(1) [OF h e1 e2])
  show "table_ok T'" using repo_steps_ok [OF steps T] .
  show "T' = T" "evs = []" "report_errors is \<noteq> []" "\<not> request_ok (sq_request q)"
    if "out = InvalidRequestError is" for "is"
    using h that validate_request_ok [of False "sq_request q"]
    by (auto simp: submit_handle_def Let_def report_errors_def has_errors_def filter_empty_conv
        split: option.splits if_splits add_result.splits)
  show "\<exists>r\<in>set T'. evs = [row_to_extraction r] \<and> fresh_row r \<and> out = Accepted (row_to_extraction r)"
    if "evs \<noteq> []"
    using h that new_row_fresh
    by (auto simp: submit_handle_def Let_def repo_add_def split: option.splits if_splits add_result.splits)
  show "\<exists>r\<in>set T'. e_id r = sc_new_id c \<and> fresh_row r
      \<and> (\<forall>now older lease. e_submitted r < lease_cutoff now older \<longrightarrow> main_orphan now lease older r)"
    if "out = PublishRaised"
  proof -
    from h that obtain bs where "repo_add (new_row (sc_sha c) (sc_new_id c) (sc_now c) (sc_correlation c) idem q bs) (env1 T) = Added T'"
      by (auto simp: submit_handle_def Let_def split: option.splits if_splits add_result.splits)
    then have "new_row (sc_sha c) (sc_new_id c) (sc_now c) (sc_correlation c) idem q bs \<in> set T'"
      by (auto simp: repo_add_def split: if_splits)
    then show ?thesis using new_row_fresh
      by (intro bexI conjI) (auto simp: new_row_def main_orphan_def coalesce_def)
  qed
qed

theorem submit_effects_witness:
  "table_ok (fst (snd (submit_handle (sample_context ''ext_1'' 5) (\<lambda>T. T) (\<lambda>T. T) sample_submit None [])))"
proof -
  have "table_ok []" by (simp add: table_ok_def keys_ok_def)
  then show ?thesis
    using submit_effects [of "[]" "\<lambda>T. T" "\<lambda>T. T" "sample_context ''ext_1'' 5" sample_submit None]
    by (cases "submit_handle (sample_context ''ext_1'' 5) (\<lambda>T. T) (\<lambda>T. T) sample_submit None []") auto
qed

text \<open>C27: cancel answers correctly whatever runs concurrently. \<open>Cancelled\<close> means this call moved
  the row from queued to cancelled, and it stays cancelled; \<open>NotFound\<close> means no such id exists;
  \<open>NotCancellable\<close> means the row existed and was past queued when the update ran.\<close>

theorem cancel_outcomes:
  assumes T: "table_ok T" and e: "\<And>U. repo_step\<^sup>*\<^sup>* U (env U)"
    and h: "cancel_handle now env i T = (out, T')"
  shows "table_ok T' \<and> (case out of
      Cancelled d \<Rightarrow> (\<exists>r. repo_get i T = Some r \<and> e_status r = QUEUED \<and> d_id d = i \<and> d_status d = CANCELLED)
        \<and> (\<forall>U. repo_step\<^sup>*\<^sup>* T' U \<longrightarrow> (\<exists>r'. repo_get i U = Some r' \<and> row_to_extraction r' = d))
    | NotFound \<Rightarrow> repo_get i T = None
    | NotCancellable j s \<Rightarrow> j = i \<and> (\<exists>r. repo_get i T' = Some r \<and> e_status r = s)
        \<and> (\<forall>r. repo_get i T = Some r \<longrightarrow> e_status r \<noteq> QUEUED))"
proof -
  note ids = table_ok_ids [OF T]
  let ?T1 = "snd (mark_cancelled now i T)"
  have T1: "table_ok ?T1" using T by (simp add: mark_cancelled_def mark_cancelled_tr.table_ok)
  note res = mark_cancelled_tr.result [OF ids, where i = i and now = now]
  note look = mark_cancelled_tr.lookup [OF ids, where i = i and j = i and now = now]
  show ?thesis
  proof (cases "\<exists>r. repo_get i T = Some r \<and> e_status r = QUEUED")
    case True
    then obtain r where r: "repo_get i T = Some r" "e_status r = QUEUED" by blast
    then have out: "out = Cancelled (row_to_extraction (cancel_values now r))" "T' = ?T1"
      using h res by (auto simp: cancel_handle_def mark_cancelled_def is_queued_def Let_def split: prod.splits)
    have get1: "repo_get i ?T1 = Some (cancel_values now r)"
      using r look by (simp add: mark_cancelled_def is_queued_def)
    have "\<exists>r'. repo_get i U = Some r' \<and> r' = cancel_values now r" if "repo_step\<^sup>*\<^sup>* ?T1 U" for U
      using repo_steps_history [OF that T1 get1] by (auto simp: row_history_def cancel_values_def)
    with out r T1 repo_get_in [OF r(1)] show ?thesis
      by (auto simp: row_to_extraction_def cancel_values_def)
  next
    case False
    then have "fst (mark_cancelled now i T) = None" and same: "repo_get i ?T1 = repo_get i T"
      using res look by (auto simp: mark_cancelled_def is_queued_def split: option.splits)
    then have h': "T' = env ?T1" "out = (case repo_get i T' of None \<Rightarrow> NotFound | Some r \<Rightarrow> NotCancellable (e_id r) (e_status r))"
      using h by (auto simp: cancel_handle_def Let_def split: prod.splits option.splits)
    have "table_ok T'" using repo_steps_ok [OF e T1] h'(1) by simp
    moreover have "repo_get i T = None" if "repo_get i T' = None"
      using repo_steps_history [OF e T1, of i] same h'(1) that by (cases "repo_get i T") auto
    ultimately show ?thesis using h' False
      by (auto split: option.splits dest: repo_get_in)
  qed
qed

theorem cancel_outcomes_witness:
  "\<exists>T'. cancel_handle 9 (\<lambda>T. T) ''ext_1'' [sample_row ''ext_1'' 0] = (Cancelled (row_to_extraction (cancel_values 9 (sample_row ''ext_1'' 0))), T')
     \<and> table_ok T'"
proof -
  let ?h = "cancel_handle 9 (\<lambda>T. T) ''ext_1'' [sample_row ''ext_1'' 0]"
  have out: "fst ?h = Cancelled (row_to_extraction (cancel_values 9 (sample_row ''ext_1'' 0)))"
    by (simp add: cancel_handle_def mark_cancelled_def atomic_update_def is_queued_def sample_row_def)
  have "table_ok (snd ?h)"
    using cancel_outcomes [of "[sample_row ''ext_1'' 0]" "\<lambda>T. T" 9 "''ext_1''" "fst ?h" "snd ?h"] sample_ok by simp
  with out show ?thesis by (intro exI [of _ "snd ?h"]) (simp add: prod_eq_iff)
qed



end
