(* ===== verification/Workers.thy ===== *)
theory Workers
  imports Extractions
begin

text \<open>
  The consumers of \<open>core/services/workers\<close>: \<open>job_worker.py\<close> (extraction), \<open>bbox_refine_worker.py\<close>
  (the additive bbox leg), \<open>job_reaper.py\<close> and \<open>bbox_reaper.py\<close>. A handler is cut at its awaits
  into the states of a \<open>pc\<close> type, and one step function executes the code between two awaits, so
  that any number of workers, redeliveries, crashes and API calls interleave. What the pipeline,
  the refiner, the HTTP client and the bus do in a step is an input of the step. Logging is left out.
\<close>

section \<open>Exceptions and retries\<close>

text \<open>An exception: whether it is a \<open>ValueError\<close> or \<open>TypeError\<close>, and its text.\<close>

record exn =
  ex_value_or_type :: bool
  ex_text :: string

definition permanent_hints :: "string list" where
  "permanent_hints = [''content policy'', ''content_filter'', ''moderation'', ''invalid api key'',
     ''incorrect api key'', ''unsupported model'', ''model_not_found'', ''input_validation_error'',
     ''invalid_request_error'']"

definition is_permanent :: "exn \<Rightarrow> bool" where
  "is_permanent e \<longleftrightarrow> ex_value_or_type e \<or> (\<exists>h\<in>set permanent_hints. is_infix h (py_lower (ex_text e)))"

record worker_settings =
  ws_run_lease :: int
  ws_max_attempts :: int
  ws_bbox_lease :: int
  ws_bbox_max_attempts :: int
  ws_queued_threshold :: int
  ws_pending_threshold :: int
  ws_poll_grace :: int
  ws_poll_batch :: nat
  ws_retry_base :: rat
  ws_retry_max :: rat

text \<open>\<open>min(ceiling, base * 2 ** max(0, attempts - 1))\<close> and 20% jitter, \<open>u\<close> being \<open>random.random()\<close>.\<close>

definition capped_delay :: "worker_settings \<Rightarrow> int \<Rightarrow> rat" where
  "capped_delay cfg attempts = min (ws_retry_max cfg) (ws_retry_base cfg * 2 ^ nat (max 0 (attempts - 1)))"

definition backoff_delay :: "worker_settings \<Rightarrow> int \<Rightarrow> rat \<Rightarrow> rat" where
  "backoff_delay cfg attempts u = capped_delay cfg attempts + capped_delay cfg attempts * (1 / 5) * u"

section \<open>Payloads\<close>

text \<open>\<open>str(v)\<close> of an id in a payload: ids are strings on this bus; \<open>show_val\<close> stands for the
  other types.\<close>

definition id_str :: "(pyval \<Rightarrow> string) \<Rightarrow> pyval \<Rightarrow> string" where
  "id_str show_val v = (case v of PStr s \<Rightarrow> s | _ \<Rightarrow> show_val v)"

definition legacy_id :: "(pyval \<Rightarrow> string) \<Rightarrow> (string \<times> pyval) list \<Rightarrow> string option" where
  "legacy_id show_val p =
     (if truthy (dict_get p ''extraction_id'') then Some (id_str show_val (dict_get p ''extraction_id''))
      else if truthy (dict_get p ''job_id'') then Some (id_str show_val (dict_get p ''job_id''))
      else None)"

definition extraction_id_from_payload :: "(pyval \<Rightarrow> string) \<Rightarrow> pyval \<Rightarrow> string option" where
  "extraction_id_from_payload show_val payload = (case payload of
     PDict p \<Rightarrow>
       (case dict_get p ''extraction'' of
          PDict e \<Rightarrow> if truthy (dict_get e ''id'') then Some (id_str show_val (dict_get e ''id''))
            else legacy_id show_val p
        | _ \<Rightarrow> legacy_id show_val p)
   | _ \<Rightarrow> None)"

text \<open>\<open>_extract_correlation\<close>: the string form of the truthy entries of \<open>_correlation\<close>.\<close>

definition extract_correlation :: "(pyval \<Rightarrow> string) \<Rightarrow> (string \<times> pyval) list \<Rightarrow> (string \<times> string) list" where
  "extract_correlation show_val md = (case dict_get md ''_correlation'' of
     PDict raw \<Rightarrow> map (\<lambda>(k, v). (k, id_str show_val v)) (filter (\<lambda>kv. truthy (snd kv)) raw)
   | _ \<Rightarrow> [])"

definition clean_metadata :: "(string \<times> pyval) list \<Rightarrow> (string \<times> pyval) list" where
  "clean_metadata md = filter (\<lambda>kv. \<not> starts_with (fst kv) ''_'') md"

section \<open>Effects\<close>

datatype event_type = ExtractionSubmitted | ExtractionCompleted | PostProcessingRequested | PostProcessingCompleted

text \<open>A webhook delivery to a URL, and a publication on the bus.\<close>

datatype effect =
    EWebhook (ef_url: string) (ef_type: event_type) (ef_dto: extraction_dto) (ef_result: "pyval option")
      (ef_metadata: "(string \<times> pyval) list") (ef_headers: "(string \<times> string) list")
  | EPublish (ef_type: event_type) (ef_dto: extraction_dto)

text \<open>\<open>_fire_webhook\<close>: no callback URL, no delivery; the result only for a succeeded extraction.\<close>

definition fire_webhook :: "(pyval \<Rightarrow> string) \<Rightarrow> event_type \<Rightarrow> erow \<Rightarrow> extraction_dto \<Rightarrow> pyval option \<Rightarrow> effect list" where
  "fire_webhook show_val ty claimed dto res =
     (case e_callback claimed of None \<Rightarrow> []
      | Some url \<Rightarrow> if url = [] then [] else
          [EWebhook url ty dto (if ty = ExtractionCompleted \<and> d_status dto \<noteq> SUCCEEDED then None else res)
             (clean_metadata (e_metadata claimed)) (extract_correlation show_val (e_metadata claimed))])"

section \<open>Rebuilding the request\<close>

text \<open>\<open>_build_request\<close> on the persisted row. Document types, rules and options are validated by
  pydantic (\<open>parse\<close>); a value that is no dict raises \<open>AttributeError\<close>, which is not permanent.\<close>

definition value_error :: "string \<Rightarrow> exn" where
  "value_error m = \<lparr>ex_value_or_type = True, ex_text = m\<rparr>"

definition attribute_error :: exn where
  "attribute_error = \<lparr>ex_value_or_type = False, ex_text = ''object has no attribute get''\<rparr>"

definition as_dict :: "pyval \<Rightarrow> exn + (string \<times> pyval) list" where
  "as_dict v = (case v of PDict d \<Rightarrow> Inr d | _ \<Rightarrow> if truthy v then Inl attribute_error else Inr [])"

record 'p built =
  bl_files :: "file_input list"
  bl_stages :: stage_toggles
  bl_rest :: 'p

type_synonym 'p parser = "pyval \<Rightarrow> pyval \<Rightarrow> pyval \<Rightarrow> pyval \<Rightarrow> exn + stage_toggles \<times> 'p"

definition get_or :: "(string \<times> pyval) list \<Rightarrow> string \<Rightarrow> pyval \<Rightarrow> pyval" where
  "get_or d k v = (case map_of d k of Some x \<Rightarrow> x | None \<Rightarrow> v)"

text \<open>\<open>FileInput(filename=..., ...)\<close>: strings of the right type, a non-empty name, valid base64.\<close>

fun opt_text :: "pyval \<Rightarrow> exn + string option" where
  "opt_text PNone = Inr None"
| "opt_text (PStr s) = Inr (Some s)"
| "opt_text _ = Inl (value_error ''Input should be a valid string'')"

definition build_file :: "string \<Rightarrow> pyval \<Rightarrow> exn + file_input" where
  "build_file row_name v = (case v of
     PDict d \<Rightarrow>
       (case (opt_text (get_or d ''filename'' (PStr row_name)), opt_text (get_or d ''content_base64'' (PStr [])),
              opt_text (get_or d ''content_type'' PNone), opt_text (get_or d ''expected_type'' PNone)) of
          (Inr (Some name), Inr content, Inr ct, Inr et) \<Rightarrow>
            (if name = [] then Inl (value_error ''String should have at least 1 character'')
             else (case validate_base64 content of
                Inl _ \<Rightarrow> Inl (value_error ''content_base64 is not valid base64'')
              | Inr content' \<Rightarrow> Inr \<lparr>f_filename = name, f_content = content', f_ctype = ct, f_expected = et\<rparr>))
        | _ \<Rightarrow> Inl (value_error ''Input should be a valid string''))
   | _ \<Rightarrow> Inl attribute_error)"

fun build_files :: "string \<Rightarrow> pyval list \<Rightarrow> exn + file_input list" where
  "build_files row_name [] = Inr []"
| "build_files row_name (v # vs) = (case build_file row_name v of Inl e \<Rightarrow> Inl e
     | Inr f \<Rightarrow> (case build_files row_name vs of Inl e \<Rightarrow> Inl e | Inr fs \<Rightarrow> Inr (f # fs)))"

definition build_request :: "'p parser \<Rightarrow> erow \<Rightarrow> exn + 'p built" where
  "build_request parse r = (case as_dict (e_schema r) of Inl e \<Rightarrow> Inl e
     | Inr d \<Rightarrow>
       (case parse (get_or d ''intention'' (PStr ''Extract structured data from the document.''))
                (get_or d ''document_types'' (PList [])) (get_or d ''rules'' (PList [])) (e_options r) of
          Inl e \<Rightarrow> Inl e
        | Inr (stages, rest) \<Rightarrow>
            (let fv = get_or d ''files'' PNone in
             if \<not> truthy fv then Inl (value_error ''schema_json missing files'')
             else (case fv of
                PList vs \<Rightarrow> (case build_files (e_filename r) vs of Inl e \<Rightarrow> Inl e
                  | Inr fs \<Rightarrow> Inr \<lparr>bl_files = fs, bl_stages = stages, bl_rest = rest\<rparr>)
              | _ \<Rightarrow> Inl attribute_error))))"

text \<open>The worker runs the pipeline with the inline bbox stage off.\<close>

definition pipeline_request :: "'p built \<Rightarrow> 'p built" where
  "pipeline_request b = b\<lparr>bl_stages := (bl_stages b)\<lparr>st_bbox_refine := False\<rparr>\<rparr>"

section \<open>The extraction worker\<close>

text \<open>Where a delivery of an extraction id is in \<open>_process\<close>. \<open>claimed\<close> is the row as the claim
  returned it, \<open>final\<close> the row as the terminal update returned it.\<close>

datatype job_pc =
    JStart string
  | JClaim string
  | JRun erow
  | JNotify erow erow pyval bool
  | JPublish erow erow
  | JError erow exn
  | JNotifyFailed erow erow
  | JSleep string
  | JDone

text \<open>What the outside does in one step: the orchestrator's answer, an exception escaping the webhook
  publisher or the bus, the random number of the jitter.\<close>

record 'p job_input =
  ji_parse :: "'p parser"
  ji_execute :: "'p built \<Rightarrow> exn + pyval"
  ji_deliver :: "exn option"
  ji_publish :: "exn option"
  ji_show :: "pyval \<Rightarrow> string"

definition is_terminal_row :: "erow \<Rightarrow> bool" where
  "is_terminal_row r \<longleftrightarrow> estatus_terminal (e_status r)"

text \<open>\<open>row.attempts or 1\<close>\<close>

definition attempts_of :: "int \<Rightarrow> int" where
  "attempts_of n = (if n = 0 then 1 else n)"

definition job_run :: "time \<Rightarrow> 'p job_input \<Rightarrow> erow \<Rightarrow> table \<Rightarrow> job_pc \<times> table" where
  "job_run now inp r T = (case build_request (ji_parse inp) r of
     Inl e \<Rightarrow> (JError r e, T)
   | Inr b \<Rightarrow>
       let wants = st_bbox_refine (bl_stages b) in
       (case ji_execute inp (if wants then pipeline_request b else b) of
          Inl e \<Rightarrow> (JError r e, T)
        | Inr res \<Rightarrow>
            let (fin, T') = mark_succeeded now res wants (e_id r) T in
            (case fin of None \<Rightarrow> (JDone, T') | Some f \<Rightarrow> (JNotify r f res wants, T'))))"

definition job_error :: "worker_settings \<Rightarrow> time \<Rightarrow> erow \<Rightarrow> exn \<Rightarrow> table \<Rightarrow> job_pc \<times> table" where
  "job_error cfg now r e T =
     (let permanent = is_permanent e;
          exhausted = ws_max_attempts cfg \<le> attempts_of (e_attempts r);
          code = (if permanent then ''permanent_error'' else ''extraction_failed'') in
      if permanent \<or> exhausted then
        let (res, T') = mark_failed now code (ex_text e) (e_id r) T in
        (case res of None \<Rightarrow> (JDone, T') | Some f \<Rightarrow> (JNotifyFailed r f, T'))
      else
        let (res, T') = requeue_for_retry (e_id r) T in
        (case res of None \<Rightarrow> (JDone, T') | Some _ \<Rightarrow> (JSleep (e_id r), T')))"

fun job_step :: "worker_settings \<Rightarrow> time \<Rightarrow> 'p job_input \<Rightarrow> job_pc \<Rightarrow> table \<Rightarrow> job_pc \<times> table \<times> effect list" where
  "job_step cfg now inp (JStart i) T = (case repo_get i T of
     None \<Rightarrow> (JDone, T, [])
   | Some r \<Rightarrow> (if is_terminal_row r then JDone else JClaim (e_id r), T, []))"
| "job_step cfg now inp (JClaim i) T =
     (let (res, T') = mark_running now (ws_run_lease cfg) i T in
      (case res of None \<Rightarrow> JDone | Some r \<Rightarrow> JRun r, T', []))"
| "job_step cfg now inp (JRun r) T = (let (pc, T') = job_run now inp r T in (pc, T', []))"
| "job_step cfg now inp (JNotify r f res wants) T =
     (let es = fire_webhook (ji_show inp) ExtractionCompleted r (row_to_extraction f) (Some res) in
      if es = [] then (if wants then JPublish r f else JDone, T, [])
      else (case ji_deliver inp of Some e \<Rightarrow> (JError r e, T, es)
            | None \<Rightarrow> (if wants then JPublish r f else JDone, T, es)))"
| "job_step cfg now inp (JPublish r f) T = (case ji_publish inp of
     Some e \<Rightarrow> (JError r e, T, [])
   | None \<Rightarrow> (JDone, T, [EPublish PostProcessingRequested (row_to_extraction f)]))"
| "job_step cfg now inp (JError r e) T = (let (pc, T') = job_error cfg now r e T in (pc, T', []))"
| "job_step cfg now inp (JNotifyFailed r f) T =
     (JDone, T, fire_webhook (ji_show inp) ExtractionCompleted r (row_to_extraction f) None)"
| "job_step cfg now inp (JSleep i) T = (case repo_get i T of
     None \<Rightarrow> (JDone, T, [])
   | Some r \<Rightarrow> (JDone, T, if ji_publish inp = None then [EPublish ExtractionSubmitted (row_to_extraction r)] else []))"
| "job_step cfg now inp JDone T = (JDone, T, [])"

section \<open>The bbox-refine worker\<close>

datatype bbox_pc =
    BStart string
  | BClaim string
  | BRun erow
  | BNotify erow erow pyval
  | BError erow exn
  | BSleep string
  | BDone

record bbox_input =
  bi_refine :: "erow \<Rightarrow> exn + pyval"
  bi_deliver :: "exn option"
  bi_publish :: "exn option"
  bi_show :: "pyval \<Rightarrow> string"

definition bbox_run :: "time \<Rightarrow> bbox_input \<Rightarrow> erow \<Rightarrow> table \<Rightarrow> bbox_pc \<times> table" where
  "bbox_run now inp r T = (case bi_refine inp r of
     Inl e \<Rightarrow> (BError r e, T)
   | Inr res \<Rightarrow>
       let (fin, T') = complete_bbox_refinement now res (e_id r) T in
       (case fin of None \<Rightarrow> (BDone, T') | Some f \<Rightarrow> (BNotify r f res, T')))"

definition bbox_error :: "worker_settings \<Rightarrow> time \<Rightarrow> erow \<Rightarrow> exn \<Rightarrow> table \<Rightarrow> bbox_pc \<times> table" where
  "bbox_error cfg now r e T =
     (let permanent = is_permanent e;
          exhausted = ws_bbox_max_attempts cfg \<le> attempts_of (b_attempts r);
          code = (if permanent then ''permanent_error'' else ''bbox_refine_failed'') in
      if permanent \<or> exhausted then
        let (res, T') = fail_bbox_refinement now code (ex_text e) (e_id r) T in (BDone, T')
      else
        let (res, T') = requeue_bbox_refinement (e_id r) T in
        (case res of None \<Rightarrow> (BDone, T') | Some _ \<Rightarrow> (BSleep (e_id r), T')))"

fun bbox_step :: "worker_settings \<Rightarrow> time \<Rightarrow> bbox_input \<Rightarrow> bbox_pc \<Rightarrow> table \<Rightarrow> bbox_pc \<times> table \<times> effect list" where
  "bbox_step cfg now inp (BStart i) T = (case repo_get i T of
     None \<Rightarrow> (BDone, T, []) | Some r \<Rightarrow> (BClaim (e_id r), T, []))"
| "bbox_step cfg now inp (BClaim i) T =
     (let (res, T') = claim_bbox_refinement now (ws_bbox_lease cfg) i T in
      (case res of None \<Rightarrow> BDone | Some r \<Rightarrow> BRun r, T', []))"
| "bbox_step cfg now inp (BRun r) T = (let (pc, T') = bbox_run now inp r T in (pc, T', []))"
| "bbox_step cfg now inp (BNotify r f res) T =
     (let es = fire_webhook (bi_show inp) PostProcessingCompleted r (row_to_extraction f) (Some res) in
      (case bi_deliver inp of None \<Rightarrow> (BDone, T, es)
       | Some e \<Rightarrow> (if es = [] then BDone else BError r e, T, es)))"
| "bbox_step cfg now inp (BError r e) T = (let (pc, T') = bbox_error cfg now r e T in (pc, T', []))"
| "bbox_step cfg now inp (BSleep i) T = (case repo_get i T of
     None \<Rightarrow> (BDone, T, [])
   | Some r \<Rightarrow> (BDone, T, if bi_publish inp = None then [EPublish PostProcessingRequested (row_to_extraction r)] else []))"
| "bbox_step cfg now inp BDone T = (BDone, T, [])"

section \<open>The reapers and the backlog poll\<close>

definition republish :: "event_type \<Rightarrow> table \<Rightarrow> string list \<Rightarrow> effect list" where
  "republish ty T ids = concat (map (\<lambda>i. case repo_get i T of None \<Rightarrow> []
     | Some r \<Rightarrow> [EPublish ty (row_to_extraction r)]) ids)"

definition job_sweep :: "worker_settings \<Rightarrow> time \<Rightarrow> table \<Rightarrow> effect list" where
  "job_sweep cfg now T = republish ExtractionSubmitted T (find_stale_running now (ws_run_lease cfg) 100 T)
     @ republish ExtractionSubmitted T (find_stale_queued now (ws_queued_threshold cfg) 100 T)"

definition bbox_sweep_effects :: "worker_settings \<Rightarrow> time \<Rightarrow> table \<Rightarrow> effect list" where
  "bbox_sweep_effects cfg now T = republish PostProcessingRequested T (find_stale_bbox_refining now (ws_bbox_lease cfg) 100 T)
     @ republish PostProcessingRequested T (find_pending_bbox_revive now (ws_pending_threshold cfg) (ws_bbox_lease cfg) 100 T)"

text \<open>One cycle of \<open>_poll_queued_backlog\<close> starts a \<open>_process\<close> for each id.\<close>

definition poll_backlog :: "worker_settings \<Rightarrow> time \<Rightarrow> table \<Rightarrow> job_pc list" where
  "poll_backlog cfg now T = map JStart (find_stale_queued now (ws_poll_grace cfg) (ws_poll_batch cfg) T)"

end
