(* ===== verification/WorkerSystem.thy ===== *)
theory WorkerSystem
  imports Workers
begin

text \<open>
  The concurrent system around \<open>Workers\<close>: a table, any number of deliveries in progress in any
  number of workers, and the log of everything sent, with its step relation. The lemmas show
  that every step is at most one repository step, that notifications are owed exactly when a
  one-way milestone is reached (the locale \<open>once_per_key\<close>, interpreted for both webhooks),
  and what a notification in the log says of its row.
\<close>

section \<open>The whole system\<close>

text \<open>The table, the deliveries in progress in every worker, and everything sent so far. A bus may
  deliver any id to any worker at any time (at-least-once, duplicates, stale ids), a worker may
  crash between two steps, and clients submit and cancel meanwhile.\<close>

record sys =
  y_table :: table
  y_jobs :: "job_pc list"
  y_bboxes :: "bbox_pc list"
  y_log :: "effect list"

inductive sys_step :: "worker_settings \<Rightarrow> sys \<Rightarrow> sys \<Rightarrow> bool" for cfg where
  deliver_job: "sys_step cfg y (y\<lparr>y_jobs := y_jobs y @ [JStart i]\<rparr>)"
| deliver_bbox: "sys_step cfg y (y\<lparr>y_bboxes := y_bboxes y @ [BStart i]\<rparr>)"
| run_job: "n < length (y_jobs y) \<Longrightarrow>
    job_step cfg now (inp :: pyval job_input) (y_jobs y ! n) (y_table y) = (pc, T', es) \<Longrightarrow>
    sys_step cfg y (y\<lparr>y_table := T', y_jobs := (y_jobs y)[n := pc], y_log := y_log y @ es\<rparr>)"
| run_bbox: "n < length (y_bboxes y) \<Longrightarrow>
    bbox_step cfg now binp (y_bboxes y ! n) (y_table y) = (bpc, T', es) \<Longrightarrow>
    sys_step cfg y (y\<lparr>y_table := T', y_bboxes := (y_bboxes y)[n := bpc], y_log := y_log y @ es\<rparr>)"
| crash_job: "n < length (y_jobs y) \<Longrightarrow> sys_step cfg y (y\<lparr>y_jobs := (y_jobs y)[n := JDone]\<rparr>)"
| crash_bbox: "n < length (y_bboxes y) \<Longrightarrow> sys_step cfg y (y\<lparr>y_bboxes := (y_bboxes y)[n := BDone]\<rparr>)"
| api_submit: "fresh_row r \<Longrightarrow> repo_add r (y_table y) = Added T' \<Longrightarrow> sys_step cfg y (y\<lparr>y_table := T'\<rparr>)"
| api_cancel: "sys_step cfg y (y\<lparr>y_table := snd (mark_cancelled now i (y_table y))\<rparr>)"
| sweep_jobs: "sys_step cfg y (y\<lparr>y_log := y_log y @ job_sweep cfg now (y_table y)\<rparr>)"
| sweep_bboxes: "sys_step cfg y (y\<lparr>y_log := y_log y @ bbox_sweep_effects cfg now (y_table y)\<rparr>)"

section \<open>Each step is at most one repository step\<close>

definition at_most_one :: "table \<Rightarrow> table \<Rightarrow> bool" where
  "at_most_one T T' \<longleftrightarrow> T' = T \<or> repo_step T T'"

lemma at_most_one_steps: "at_most_one T T' \<Longrightarrow> repo_step\<^sup>*\<^sup>* T T'"
  by (auto simp: at_most_one_def)

lemmas repo_step_snd = s_run s_succeed s_fail s_cancel s_requeue s_bclaim s_brequeue s_bcomplete s_bfail

lemma snd_repo_steps [intro]:
  "mark_running now lease i T = (res, T') \<Longrightarrow> at_most_one T T'"
  "mark_succeeded now v req i T = (res, T') \<Longrightarrow> at_most_one T T'"
  "mark_failed now code msg i T = (res, T') \<Longrightarrow> at_most_one T T'"
  "requeue_for_retry i T = (res, T') \<Longrightarrow> at_most_one T T'"
  "claim_bbox_refinement now lease i T = (res, T') \<Longrightarrow> at_most_one T T'"
  "requeue_bbox_refinement i T = (res, T') \<Longrightarrow> at_most_one T T'"
  "complete_bbox_refinement now v i T = (res, T') \<Longrightarrow> at_most_one T T'"
  "fail_bbox_refinement now code msg i T = (res, T') \<Longrightarrow> at_most_one T T'"
  unfolding at_most_one_def using repo_step_snd by (metis snd_conv)+

lemma at_most_one_refl [simp]: "at_most_one T T"
  by (simp add: at_most_one_def)

lemma job_run_table: "job_run now inp r T = (pc', T') \<Longrightarrow> at_most_one T T'"
  by (auto simp: job_run_def Let_def split: option.splits sum.splits prod.splits)

lemma job_error_table: "job_error cfg now r e T = (pc', T') \<Longrightarrow> at_most_one T T'"
  by (auto simp: job_error_def Let_def split: option.splits prod.splits if_splits)

lemma bbox_run_table: "bbox_run now inp r T = (pc', T') \<Longrightarrow> at_most_one T T'"
  by (auto simp: bbox_run_def Let_def split: option.splits sum.splits prod.splits)

lemma bbox_error_table: "bbox_error cfg now r e T = (pc', T') \<Longrightarrow> at_most_one T T'"
  by (auto simp: bbox_error_def Let_def split: option.splits prod.splits if_splits)

lemma job_step_table: "job_step cfg now inp pc T = (pc', T', es) \<Longrightarrow> at_most_one T T'"
  by (cases pc) (auto simp: Let_def split: option.splits prod.splits if_splits
    intro: job_run_table job_error_table)

lemma bbox_step_table: "bbox_step cfg now inp pc T = (pc', T', es) \<Longrightarrow> at_most_one T T'"
  by (cases pc) (auto simp: Let_def split: option.splits prod.splits if_splits
    intro: bbox_run_table bbox_error_table)

lemma sys_step_table: "sys_step cfg y y' \<Longrightarrow> at_most_one (y_table y) (y_table y')"
  by (induction rule: sys_step.induct)
    (auto dest: job_step_table bbox_step_table intro: s_add s_cancel simp: at_most_one_def)

lemma sys_steps_table: "(sys_step cfg)\<^sup>*\<^sup>* y y' \<Longrightarrow> repo_step\<^sup>*\<^sup>* (y_table y) (y_table y')"
  by (induction rule: rtranclp_induct) (auto dest: sys_step_table intro: at_most_one_steps rtranclp_trans)

text \<open>A successful update, read back.\<close>

lemma update_won:
  assumes "guarded_transition grd upd" and "ids_distinct T" and "atomic_update i grd upd T = (Some f, T')"
  shows "\<exists>r. repo_get i T = Some r \<and> grd r \<and> f = upd r \<and> repo_get i T' = Some f \<and> e_id f = i"
proof -
  have "fst (atomic_update i grd upd T) = Some f" "T' = snd (atomic_update i grd upd T)" using assms(3) by simp_all
  then obtain r where "repo_get i T = Some r" "grd r" "f = upd r" "repo_get i T' = Some f"
    using guarded_transition.result [OF assms(1,2)] guarded_transition.lookup [OF assms(1,2)]
    by (fastforce split: option.splits if_splits)
  then show ?thesis using repo_get_in by blast
qed

lemmas mark_succeeded_won = update_won [OF mark_succeeded_tr.guarded_transition_axioms, folded mark_succeeded_def]
lemmas mark_failed_won = update_won [OF mark_failed_tr.guarded_transition_axioms, folded mark_failed_def]
lemmas mark_running_won = update_won [OF mark_running_tr.guarded_transition_axioms, folded mark_running_def]
lemmas bbox_complete_won = update_won [OF bbox_complete_tr.guarded_transition_axioms, folded complete_bbox_refinement_def]
lemmas bbox_claim_won = update_won [OF bbox_claim_tr.guarded_transition_axioms, folded claim_bbox_refinement_def]

section \<open>Sent at most once\<close>

text \<open>A notification that is owed exactly when a one-way milestone is reached: what is sent, plus
  what is still owed, never outgrows the milestones.\<close>

locale once_per_key =
  fixes inv :: "'s \<Rightarrow> bool"
    and step :: "'s \<Rightarrow> 's \<Rightarrow> bool"
    and sent :: "'s \<Rightarrow> 'k \<Rightarrow> nat"
    and owed :: "'s \<Rightarrow> 'k \<Rightarrow> nat"
    and reached :: "'s \<Rightarrow> 'k \<Rightarrow> nat"
  assumes inv_step: "step s s' \<Longrightarrow> inv s \<Longrightarrow> inv s'"
    and budget: "step s s' \<Longrightarrow> inv s \<Longrightarrow>
      sent s' k + owed s' k + reached s k \<le> sent s k + owed s k + reached s' k"
    and reached_once: "reached s k \<le> 1"
begin

lemma covered:
  "step\<^sup>*\<^sup>* s s' \<Longrightarrow> inv s \<Longrightarrow> sent s k + owed s k \<le> reached s k \<Longrightarrow>
     inv s' \<and> sent s' k + owed s' k \<le> reached s' k"
proof (induction rule: rtranclp_induct)
  case (step s1 s2)
  then show ?case using inv_step budget [of s1 s2 k] by fastforce
qed simp

lemma once:
  "step\<^sup>*\<^sup>* s s' \<Longrightarrow> inv s \<Longrightarrow> sent s k + owed s k \<le> reached s k \<Longrightarrow> sent s' k \<le> 1"
  using covered [of s s' k] reached_once [of s' k] by simp

end

definition is_webhook :: "event_type \<Rightarrow> string \<Rightarrow> effect \<Rightarrow> bool" where
  "is_webhook ty i e = (case e of EWebhook url ty' d res md hs \<Rightarrow> ty' = ty \<and> d_id d = i | EPublish _ _ \<Rightarrow> False)"

definition count_if :: "('a \<Rightarrow> bool) \<Rightarrow> 'a list \<Rightarrow> nat" where
  "count_if P xs = length (filter P xs)"

lemma count_if_simps [simp]:
  "count_if P [] = 0"
  "count_if P (x # xs) = (if P x then 1 else 0) + count_if P xs"
  "count_if P (xs @ ys) = count_if P xs + count_if P ys"
  by (simp_all add: count_if_def)

definition one :: "bool \<Rightarrow> nat" where
  "one b = (if b then 1 else 0)"

lemma count_if_update:
  "n < length xs \<Longrightarrow> count_if P (xs[n := x]) + one (P (xs ! n)) = count_if P xs + one (P x)"
proof (induction xs arbitrary: n)
  case (Cons y ys)
  show ?case
  proof (cases n)
    case (Suc m)
    with Cons have "count_if P (ys[m := x]) + one (P (ys ! m)) = count_if P ys + one (P x)" by simp
    with Suc show ?thesis by simp
  qed (simp add: one_def)
qed simp

definition job_owes :: "string \<Rightarrow> job_pc \<Rightarrow> bool" where
  "job_owes i pc = (case pc of JNotify r f res w \<Rightarrow> e_id f = i | JNotifyFailed r f \<Rightarrow> e_id f = i | _ \<Rightarrow> False)"

definition bbox_owes :: "string \<Rightarrow> bbox_pc \<Rightarrow> bool" where
  "bbox_owes i pc = (case pc of BNotify r f res \<Rightarrow> e_id f = i | _ \<Rightarrow> False)"

definition finished :: "table \<Rightarrow> string \<Rightarrow> nat" where
  "finished T i = (case repo_get i T of Some r \<Rightarrow> if e_status r \<in> {SUCCEEDED, FAILED} then 1 else 0 | None \<Rightarrow> 0)"

definition refined :: "table \<Rightarrow> string \<Rightarrow> nat" where
  "refined T i = (case repo_get i T of Some r \<Rightarrow> if b_status r = Some PP_SUCCEEDED then 1 else 0 | None \<Rightarrow> 0)"

lemma milestones_mono:
  assumes "at_most_one T T'" and "table_ok T"
  shows "finished T i \<le> finished T' i" and "refined T i \<le> refined T' i"
proof -
  have h: "\<exists>r'. repo_get i T' = Some r' \<and> row_history r r'" if "repo_get i T = Some r" for r
    using repo_steps_history [OF at_most_one_steps [OF assms(1)] assms(2) that] .
  show "finished T i \<le> finished T' i"
    using h by (cases "repo_get i T") (fastforce simp: finished_def row_history_def)+
  show "refined T i \<le> refined T' i"
    using h by (cases "repo_get i T") (fastforce simp: refined_def row_history_def pp_terminal_def)+
qed

lemma fire_webhook_count: "count_if (is_webhook ty i) (fire_webhook sh ty' r d res) \<le> (if ty' = ty \<and> d_id d = i then 1 else 0)"
  by (simp add: fire_webhook_def is_webhook_def split: option.split)

lemma dto_id [simp]: "d_id (row_to_extraction r) = e_id r"
  by (simp add: row_to_extraction_def)

lemma job_run_budget:
  assumes "job_run now inp r T = (pc', T')" and "table_ok T"
  shows "one (job_owes i pc') + finished T i \<le> finished T' i"
proof -
  have mono: "finished T i \<le> finished T' i"
    using milestones_mono(1) [OF job_run_table [OF assms(1)] assms(2)] .
  show ?thesis
  proof (cases "job_owes i pc'")
    case True
    with assms(1) obtain v req f where w: "mark_succeeded now v req (e_id r) T = (Some f, T')" "e_id f = i"
      by (auto simp: job_run_def job_owes_def Let_def split: sum.splits prod.splits option.splits)
    from mark_succeeded_won [OF table_ok_ids [OF assms(2)] w(1)] obtain r0 where
      "repo_get (e_id r) T = Some r0" "is_running r0" "f = succeed_values now v req r0" "repo_get (e_id r) T' = Some f"
      "e_id f = e_id r" by blast
    then have "finished T i = 0" "finished T' i = 1"
      using w(2) by (simp_all add: finished_def is_running_def succeed_values_def Let_def)
    then show ?thesis by (simp add: one_def)
  qed (use mono in \<open>simp add: one_def\<close>)
qed

lemma job_error_budget:
  assumes "job_error cfg now r e T = (pc', T')" and "table_ok T"
  shows "one (job_owes i pc') + finished T i \<le> finished T' i"
proof -
  have mono: "finished T i \<le> finished T' i"
    using milestones_mono(1) [OF job_error_table [OF assms(1)] assms(2)] .
  show ?thesis
  proof (cases "job_owes i pc'")
    case True
    with assms(1) obtain code msg f where w: "mark_failed now code msg (e_id r) T = (Some f, T')" "e_id f = i"
      by (auto simp: job_error_def job_owes_def Let_def split: prod.splits option.splits if_splits)
    from mark_failed_won [OF table_ok_ids [OF assms(2)] w(1)] obtain r0 where
      "repo_get (e_id r) T = Some r0" "is_running r0" "f = fail_values now code msg r0" "repo_get (e_id r) T' = Some f"
      "e_id f = e_id r" by blast
    then have "finished T i = 0" "finished T' i = 1"
      using w(2) by (simp_all add: finished_def is_running_def fail_values_def)
    then show ?thesis by (simp add: one_def)
  qed (use mono in \<open>simp add: one_def\<close>)
qed

lemma bbox_run_budget:
  assumes "bbox_run now inp r T = (pc', T')" and "table_ok T"
  shows "one (bbox_owes i pc') + refined T i \<le> refined T' i"
proof -
  have mono: "refined T i \<le> refined T' i"
    using milestones_mono(2) [OF bbox_run_table [OF assms(1)] assms(2)] .
  show ?thesis
  proof (cases "bbox_owes i pc'")
    case True
    with assms(1) obtain v f where w: "complete_bbox_refinement now v (e_id r) T = (Some f, T')" "e_id f = i"
      by (auto simp: bbox_run_def bbox_owes_def Let_def split: prod.splits option.splits sum.splits)
    from bbox_complete_won [OF table_ok_ids [OF assms(2)] w(1)] obtain r0 where
      "repo_get (e_id r) T = Some r0" "bbox_running r0" "f = bbox_complete_values now v r0" "repo_get (e_id r) T' = Some f"
      "e_id f = e_id r" by blast
    then have "refined T i = 0" "refined T' i = 1"
      using w(2) by (simp_all add: refined_def bbox_running_def bbox_complete_values_def)
    then show ?thesis by (simp add: one_def)
  qed (use mono in \<open>simp add: one_def\<close>)
qed

lemma job_step_budget:
  assumes st: "job_step cfg now inp pc T = (pc', T', es)" and T: "table_ok T"
  shows "count_if (is_webhook ExtractionCompleted i) es + one (job_owes i pc') + finished T i
    \<le> one (job_owes i pc) + finished T' i"
proof (cases pc)
  case (JNotify r f res w)
  have "one (e_id f = i) \<ge> count_if (is_webhook ExtractionCompleted i) (fire_webhook (ji_show inp) ExtractionCompleted r (row_to_extraction f) (Some res))"
    using fire_webhook_count [of ExtractionCompleted i "ji_show inp" ExtractionCompleted r "row_to_extraction f" "Some res"]
    by (simp add: one_def)
  with st JNotify show ?thesis
    by (auto simp: Let_def job_owes_def one_def split: if_splits option.splits)
next
  case (JNotifyFailed r f)
  have "one (e_id f = i) \<ge> count_if (is_webhook ExtractionCompleted i) (fire_webhook (ji_show inp) ExtractionCompleted r (row_to_extraction f) None)"
    using fire_webhook_count [of ExtractionCompleted i "ji_show inp" ExtractionCompleted r "row_to_extraction f" None]
    by (simp add: one_def)
  with st JNotifyFailed show ?thesis by (auto simp: job_owes_def one_def)
next
  case (JRun r)
  with st have "job_run now inp r T = (pc', T')" "es = []" by (auto split: prod.splits)
  with job_run_budget [OF this(1) T, of i] show ?thesis by simp
next
  case (JError r e)
  with st have "job_error cfg now r e T = (pc', T')" "es = []" by (auto split: prod.splits)
  with job_error_budget [OF this(1) T, of i] show ?thesis by simp
next
  case (JClaim j)
  with st milestones_mono(1) [OF job_step_table [OF st] T, of i] show ?thesis
    by (auto simp: job_owes_def one_def split: prod.splits option.splits)
qed (use st in \<open>auto simp: job_owes_def one_def is_webhook_def split: option.splits if_splits\<close>)

lemma bbox_step_budget:
  assumes st: "bbox_step cfg now inp pc T = (pc', T', es)" and T: "table_ok T"
  shows "count_if (is_webhook PostProcessingCompleted i) es + one (bbox_owes i pc') + refined T i
    \<le> one (bbox_owes i pc) + refined T' i"
proof (cases pc)
  case (BNotify r f res)
  have "one (e_id f = i) \<ge> count_if (is_webhook PostProcessingCompleted i) (fire_webhook (bi_show inp) PostProcessingCompleted r (row_to_extraction f) (Some res))"
    using fire_webhook_count [of PostProcessingCompleted i "bi_show inp" PostProcessingCompleted r "row_to_extraction f" "Some res"]
    by (simp add: one_def)
  with st BNotify show ?thesis
    by (auto simp: Let_def bbox_owes_def one_def split: if_splits option.splits)
next
  case (BRun r)
  with st have "bbox_run now inp r T = (pc', T')" "es = []" by (auto split: prod.splits)
  with bbox_run_budget [OF this(1) T, of i] show ?thesis by simp
next
  case (BError r e)
  with st have e: "bbox_error cfg now r e T = (pc', T')" "es = []" by (auto split: prod.splits)
  then have "\<not> bbox_owes i pc'"
    by (auto simp: bbox_error_def bbox_owes_def Let_def split: prod.splits option.splits if_splits)
  with e milestones_mono(2) [OF bbox_error_table [OF e(1)] T, of i] show ?thesis by (simp add: one_def)
next
  case (BClaim j)
  with st milestones_mono(2) [OF bbox_step_table [OF st] T, of i] show ?thesis
    by (auto simp: bbox_owes_def one_def split: prod.splits option.splits)
qed (use st in \<open>auto simp: bbox_owes_def one_def is_webhook_def split: option.splits if_splits\<close>)

text \<open>A worker of one kind never sends the other kind's notification, and neither do the sweeps.\<close>

lemma job_step_other: "job_step cfg now inp pc T = (pc', T', es) \<Longrightarrow> count_if (is_webhook PostProcessingCompleted i) es = 0"
  by (cases pc) (auto simp: Let_def fire_webhook_def is_webhook_def split: option.splits prod.splits if_splits)

lemma bbox_step_other: "bbox_step cfg now inp pc T = (pc', T', es) \<Longrightarrow> count_if (is_webhook ExtractionCompleted i) es = 0"
  by (cases pc) (auto simp: Let_def fire_webhook_def is_webhook_def split: option.splits prod.splits if_splits)

lemma republish_no_webhook: "count_if (is_webhook ty i) (republish ty' T ids) = 0"
  by (induction ids) (auto simp: republish_def is_webhook_def split: option.splits)

lemma sweeps_no_webhook [simp]:
  "count_if (is_webhook ty i) (job_sweep cfg now T) = 0"
  "count_if (is_webhook ty i) (bbox_sweep_effects cfg now T) = 0"
  by (simp_all add: job_sweep_def bbox_sweep_effects_def republish_no_webhook)

definition sys_ok :: "sys \<Rightarrow> bool" where
  "sys_ok y \<longleftrightarrow> table_ok (y_table y)"

lemma sys_ok_step: "sys_step cfg y y' \<Longrightarrow> sys_ok y \<Longrightarrow> sys_ok y'"
  unfolding sys_ok_def using repo_steps_ok [OF at_most_one_steps [OF sys_step_table]] by blast

definition completed_sent :: "sys \<Rightarrow> string \<Rightarrow> nat" where
  "completed_sent y i = count_if (is_webhook ExtractionCompleted i) (y_log y)"

definition refined_sent :: "sys \<Rightarrow> string \<Rightarrow> nat" where
  "refined_sent y i = count_if (is_webhook PostProcessingCompleted i) (y_log y)"

lemma not_owing [simp]: "\<not> job_owes i JDone" "\<not> bbox_owes i BDone" "\<not> job_owes i (JStart j)" "\<not> bbox_owes i (BStart j)"
  by (simp_all add: job_owes_def bbox_owes_def)

lemma one_simps [simp]: "one True = 1" "one False = 0"
  by (simp_all add: one_def)

interpretation completed_once: once_per_key sys_ok "sys_step cfg" completed_sent
    "\<lambda>y i. count_if (job_owes i) (y_jobs y)" "\<lambda>y i. finished (y_table y) i" for cfg
proof
  fix y y' i
  assume st: "sys_step cfg y y'" and ok: "sys_ok y"
  show "sys_ok y'" by (rule sys_ok_step [OF st ok])
  have T: "table_ok (y_table y)" using ok by (simp add: sys_ok_def)
  have mono: "finished (y_table y) i \<le> finished (y_table y') i"
    by (rule milestones_mono(1) [OF sys_step_table [OF st] T])
  from st show "completed_sent y' i + count_if (job_owes i) (y_jobs y') + finished (y_table y) i
      \<le> completed_sent y i + count_if (job_owes i) (y_jobs y) + finished (y_table y') i"
  proof cases
    case (run_job n now inp pc T' es)
    with job_step_budget [OF run_job(3) T, of i] count_if_update [OF run_job(2), of "job_owes i" pc] show ?thesis
      by (simp add: completed_sent_def)
  next
    case (crash_job n)
    with mono count_if_update [OF crash_job(2), of "job_owes i" JDone] show ?thesis
      by (simp add: completed_sent_def)
  next
    case (run_bbox n now binp bpc T' es)
    with mono bbox_step_other [OF run_bbox(3), of i] show ?thesis by (simp add: completed_sent_def)
  qed (use mono in \<open>simp_all add: completed_sent_def\<close>)
next
  show "finished (y_table y) i \<le> 1" for y i by (simp add: finished_def split: option.split)
qed

interpretation refined_once: once_per_key sys_ok "sys_step cfg" refined_sent
    "\<lambda>y i. count_if (bbox_owes i) (y_bboxes y)" "\<lambda>y i. refined (y_table y) i" for cfg
proof
  fix y y' i
  assume st: "sys_step cfg y y'" and ok: "sys_ok y"
  show "sys_ok y'" by (rule sys_ok_step [OF st ok])
  have T: "table_ok (y_table y)" using ok by (simp add: sys_ok_def)
  have mono: "refined (y_table y) i \<le> refined (y_table y') i"
    by (rule milestones_mono(2) [OF sys_step_table [OF st] T])
  from st show "refined_sent y' i + count_if (bbox_owes i) (y_bboxes y') + refined (y_table y) i
      \<le> refined_sent y i + count_if (bbox_owes i) (y_bboxes y) + refined (y_table y') i"
  proof cases
    case (run_bbox n now binp bpc T' es)
    with bbox_step_budget [OF run_bbox(3) T, of i] count_if_update [OF run_bbox(2), of "bbox_owes i" bpc] show ?thesis
      by (simp add: refined_sent_def)
  next
    case (crash_bbox n)
    with mono count_if_update [OF crash_bbox(2), of "bbox_owes i" BDone] show ?thesis
      by (simp add: refined_sent_def)
  next
    case (run_job n now inp pc T' es)
    with mono job_step_other [OF run_job(3), of i] show ?thesis by (simp add: refined_sent_def)
  qed (use mono in \<open>simp_all add: refined_sent_def\<close>)
next
  show "refined (y_table y) i \<le> 1" for y i by (simp add: refined_def split: option.split)
qed

section \<open>What a notification says\<close>

lemma row_history_trans: "row_history r r' \<Longrightarrow> row_history r' r'' \<Longrightarrow> row_history r r''"
  by (cases "b_status r"; cases "b_status r'")
    (auto simp: row_history_def intro: same_request_trans)

definition known :: "table \<Rightarrow> erow \<Rightarrow> bool" where
  "known T r \<longleftrightarrow> (\<exists>r'. repo_get (e_id r) T = Some r' \<and> row_history r r')"

lemma known_step:
  assumes "at_most_one T T'" and "table_ok T" and "known T r"
  shows "known T' r"
proof -
  from assms(3) obtain r' where "repo_get (e_id r) T = Some r'" "row_history r r'" by (auto simp: known_def)
  with repo_steps_history [OF at_most_one_steps [OF assms(1)] assms(2) this(1)] row_history_trans
  show ?thesis by (fastforce simp: known_def)
qed

definition pc_known :: "table \<Rightarrow> job_pc \<Rightarrow> bool" where
  "pc_known T pc = (case pc of
     JRun r \<Rightarrow> known T r
   | JNotify r f res w \<Rightarrow> known T r \<and> known T f \<and> same_request r f \<and> e_status f = SUCCEEDED \<and> e_result f = Some res
   | JPublish r f \<Rightarrow> known T r \<and> known T f \<and> same_request r f \<and> e_status f = SUCCEEDED
   | JError r e \<Rightarrow> known T r
   | JNotifyFailed r f \<Rightarrow> known T r \<and> known T f \<and> same_request r f \<and> e_status f = FAILED
   | _ \<Rightarrow> True)"

text \<open>What a completed webhook claims of the row with its id.\<close>

definition truthful :: "table \<Rightarrow> effect \<Rightarrow> bool" where
  "truthful T e = (case e of
     EPublish _ _ \<Rightarrow> True
   | EWebhook url ty d res md hs \<Rightarrow> ty = ExtractionCompleted \<longrightarrow>
       (\<exists>r. repo_get (d_id d) T = Some r \<and> d_status d = e_status r \<and> d_status d \<in> {SUCCEEDED, FAILED}
          \<and> e_callback r = Some url \<and> md = clean_metadata (e_metadata r)
          \<and> (res \<noteq> None \<longleftrightarrow> d_status d = SUCCEEDED)))"

lemma pc_known_step: "at_most_one T T' \<Longrightarrow> table_ok T \<Longrightarrow> pc_known T pc \<Longrightarrow> pc_known T' pc"
  by (cases pc) (auto simp: pc_known_def intro: known_step)

lemma truthful_step:
  assumes "at_most_one T T'" and "table_ok T" and "truthful T e"
  shows "truthful T' e"
proof -
  have "\<exists>r'. repo_get i T' = Some r' \<and> row_history r r'" if "repo_get i T = Some r" for i r
    using repo_steps_history [OF at_most_one_steps [OF assms(1)] assms(2) that] .
  with assms(3) show ?thesis
    by (cases e) (fastforce simp: truthful_def row_history_def same_request_def)+
qed

lemma fire_truthful:
  assumes "known T f" and "same_request r f" and "e_status f \<in> {SUCCEEDED, FAILED}"
    and "res \<noteq> None \<longleftrightarrow> e_status f = SUCCEEDED"
    and "e \<in> set (fire_webhook sh ExtractionCompleted r (row_to_extraction f) res)"
  shows "truthful T e"
proof -
  from assms(1) obtain r' where r': "repo_get (e_id f) T = Some r'" "row_history f r'" by (auto simp: known_def)
  with assms(2,3) have "e_status r' = e_status f" "e_callback r' = e_callback r" "e_metadata r' = e_metadata r"
    by (auto simp: row_history_def same_request_def)
  with r' assms(3-5) show ?thesis
    by (auto simp: fire_webhook_def truthful_def row_to_extraction_def split: option.splits if_splits)
qed

lemma update_won_known:
  assumes "guarded_transition grd upd" and "table_ok T" and "known T r"
    and "atomic_update (e_id r) grd upd T = (Some f, T')"
  shows "known T' f" and "same_request r f" and "\<exists>r'. grd r' \<and> f = upd r'"
proof -
  from update_won [OF assms(1) table_ok_ids [OF assms(2)] assms(4)] obtain r0 where
    r0: "repo_get (e_id r) T = Some r0" "grd r0" "f = upd r0" "repo_get (e_id r) T' = Some f" "e_id f = e_id r" by blast
  then show "known T' f" using row_history_refl by (auto simp: known_def)
  show "\<exists>r'. grd r' \<and> f = upd r'" using r0 by blast
  have "same_request r r0" using assms(3) r0(1) by (auto simp: known_def row_history_def)
  moreover have "same_request r0 f"
    using guarded_transition.upd_edge [OF assms(1) r0(2)] r0(3) by (simp add: row_edge_def)
  ultimately show "same_request r f" by (rule same_request_trans)
qed

lemmas succeeded_known = update_won_known [OF mark_succeeded_tr.guarded_transition_axioms, folded mark_succeeded_def]
lemmas failed_known = update_won_known [OF mark_failed_tr.guarded_transition_axioms, folded mark_failed_def]

lemma job_run_known:
  assumes h: "job_run now inp r T = (pc', T')" and T: "table_ok T" and k: "known T r"
  shows "pc_known T' pc'"
proof -
  have k': "known T' r" by (rule known_step [OF job_run_table [OF h] T k])
  show ?thesis
  proof (cases "\<exists>f v req. mark_succeeded now v req (e_id r) T = (Some f, T') \<and> pc' = JNotify r f v req")
    case True
    then obtain f v req where w: "mark_succeeded now v req (e_id r) T = (Some f, T')" "pc' = JNotify r f v req" by blast
    note s = succeeded_known [OF T k w(1)]
    then have "e_status f = SUCCEEDED" "e_result f = Some v" by (auto simp: succeed_values_def Let_def)
    with w s(1,2) k' show ?thesis by (simp add: pc_known_def)
  next
    case False
    with h k' show ?thesis
      by (auto simp: job_run_def pc_known_def Let_def split: sum.splits prod.splits option.splits)
  qed
qed

lemma job_error_known:
  assumes h: "job_error cfg now r e T = (pc', T')" and T: "table_ok T" and k: "known T r"
  shows "pc_known T' pc'"
proof -
  have k': "known T' r" by (rule known_step [OF job_error_table [OF h] T k])
  show ?thesis
  proof (cases "\<exists>f code msg. mark_failed now code msg (e_id r) T = (Some f, T') \<and> pc' = JNotifyFailed r f")
    case True
    then obtain f code msg where w: "mark_failed now code msg (e_id r) T = (Some f, T')" "pc' = JNotifyFailed r f" by blast
    note s = failed_known [OF T k w(1)]
    then have "e_status f = FAILED" by (auto simp: fail_values_def)
    with w s(1,2) k' show ?thesis by (simp add: pc_known_def)
  next
    case False
    with h k' show ?thesis
      by (auto simp: job_error_def pc_known_def Let_def split: prod.splits option.splits if_splits)
  qed
qed

lemma job_step_known:
  assumes h: "job_step cfg now inp pc T = (pc', T', es)" and T: "table_ok T" and k: "pc_known T pc"
  shows "pc_known T' pc' \<and> (\<forall>e\<in>set es. truthful T' e)"
proof (cases pc)
  case (JStart i)
  with h show ?thesis by (auto simp: pc_known_def split: option.splits)
next
  case (JClaim i)
  show ?thesis
  proof (cases "fst (mark_running now (ws_run_lease cfg) i T)")
    case None
    with h JClaim show ?thesis by (auto simp: pc_known_def split: prod.splits)
  next
    case (Some r)
    with h JClaim have w: "mark_running now (ws_run_lease cfg) i T = (Some r, T')" and pc': "pc' = JRun r" and "es = []"
      by (auto split: prod.splits)
    from mark_running_won [OF table_ok_ids [OF T] w] have "known T' r" using row_history_refl by (auto simp: known_def)
    with pc' \<open>es = []\<close> show ?thesis by (simp add: pc_known_def)
  qed
next
  case (JRun r)
  with h k job_run_known [OF _ T] show ?thesis by (auto simp: pc_known_def split: prod.splits)
next
  case (JNotify r f res w)
  with h k show ?thesis
    by (auto simp: pc_known_def Let_def split: if_splits option.splits intro: fire_truthful)
next
  case (JPublish r f)
  with h k show ?thesis by (auto simp: pc_known_def truthful_def split: option.splits)
next
  case (JError r e)
  with h k job_error_known [OF _ T] show ?thesis by (auto simp: pc_known_def split: prod.splits)
next
  case (JNotifyFailed r f)
  with h k show ?thesis by (auto simp: pc_known_def intro: fire_truthful)
next
  case (JSleep i)
  with h show ?thesis by (auto simp: pc_known_def truthful_def split: option.splits if_splits)
next
  case JDone
  with h show ?thesis by (auto simp: pc_known_def)
qed

definition sys_truth :: "sys \<Rightarrow> bool" where
  "sys_truth y \<longleftrightarrow> table_ok (y_table y) \<and> (\<forall>pc\<in>set (y_jobs y). pc_known (y_table y) pc)
     \<and> (\<forall>e\<in>set (y_log y). truthful (y_table y) e)"

lemma bbox_step_truthful: "bbox_step cfg now inp pc T = (pc', T', es) \<Longrightarrow> \<forall>e\<in>set es. truthful T'' e"
  by (cases pc) (auto simp: Let_def fire_webhook_def truthful_def split: option.splits prod.splits if_splits)

lemma sweeps_truthful:
  "e \<in> set (job_sweep cfg now T) \<Longrightarrow> truthful T'' e"
  "e \<in> set (bbox_sweep_effects cfg now T) \<Longrightarrow> truthful T'' e"
  by (auto simp: job_sweep_def bbox_sweep_effects_def republish_def truthful_def split: option.splits)

lemma sys_truth_step:
  assumes st: "sys_step cfg y y'" and y: "sys_truth y"
  shows "sys_truth y'"
proof -
  have T: "table_ok (y_table y)" using y by (simp add: sys_truth_def)
  note amo = sys_step_table [OF st]
  have T': "table_ok (y_table y')" using repo_steps_ok [OF at_most_one_steps [OF amo] T] .
  have jobs: "\<forall>pc\<in>set (y_jobs y). pc_known (y_table y') pc" and log: "\<forall>e\<in>set (y_log y). truthful (y_table y') e"
    using y pc_known_step [OF amo T] truthful_step [OF amo T] by (auto simp: sys_truth_def)
  from st show ?thesis
  proof cases
    case (run_job n now inp pc Tn es)
    have "pc_known (y_table y) (y_jobs y ! n)" using y run_job(2) by (simp add: sys_truth_def)
    from job_step_known [OF run_job(3) T this] T' jobs log run_job(1) show ?thesis
      by (auto simp: sys_truth_def dest!: subsetD [OF set_update_subset_insert])
  next
    case (run_bbox n now binp bpc Tn es)
    with bbox_step_truthful [OF run_bbox(3)] T' jobs log show ?thesis by (auto simp: sys_truth_def)
  next
    case (crash_job n)
    with T' jobs log show ?thesis
      by (auto simp: sys_truth_def pc_known_def dest!: subsetD [OF set_update_subset_insert])
  next
    case (deliver_job i)
    with T' jobs log show ?thesis by (auto simp: sys_truth_def pc_known_def)
  qed (use T' jobs log sweeps_truthful in \<open>auto simp: sys_truth_def\<close>)
qed

lemma sys_truth_steps: "(sys_step cfg)\<^sup>*\<^sup>* y y' \<Longrightarrow> sys_truth y \<Longrightarrow> sys_truth y'"
  by (induction rule: rtranclp_induct) (auto intro: sys_truth_step)

text \<open>A quiet system: nothing in progress and nothing sent yet.\<close>

definition quiet :: "table \<Rightarrow> sys" where
  "quiet T = \<lparr>y_table = T, y_jobs = [], y_bboxes = [], y_log = []\<rparr>"

end
