(* ===== verification/WorkerRuns.thy ===== *)
theory WorkerRuns
  imports WorkerSystem
begin

text \<open>
  Runs of the extraction worker: the retry delays, the specification of one uncontended
  attempt and of the retry loop, the request as it comes back from the row, and the properties
  of the workers with concrete runs as their witnesses.
\<close>

section \<open>Retries\<close>

lemma capped_nonneg: "0 \<le> ws_retry_base cfg \<Longrightarrow> 0 \<le> ws_retry_max cfg \<Longrightarrow> 0 \<le> capped_delay cfg a"
  by (simp add: capped_delay_def)

lemma capped_mono: "0 \<le> ws_retry_base cfg \<Longrightarrow> a \<le> b \<Longrightarrow> capped_delay cfg a \<le> capped_delay cfg b"
  unfolding capped_delay_def
  by (intro min.mono mult_left_mono power_increasing nat_mono) auto

section \<open>One uncontended attempt\<close>

text \<open>The specification of \<open>_process\<close> when nothing interferes: what the row becomes.\<close>

definition attempt_outcome :: "'p job_input \<Rightarrow> erow \<Rightarrow> exn + pyval \<times> bool" where
  "attempt_outcome inp c = (case build_request (ji_parse inp) c of
     Inl e \<Rightarrow> Inl e
   | Inr b \<Rightarrow> (let wants = st_bbox_refine (bl_stages b) in
       (case ji_execute inp (if wants then pipeline_request b else b) of
          Inl e \<Rightarrow> Inl e | Inr res \<Rightarrow> Inr (res, wants))))"

definition failed_attempt :: "worker_settings \<Rightarrow> time \<Rightarrow> exn \<Rightarrow> erow \<Rightarrow> erow" where
  "failed_attempt cfg now e c =
     (if is_permanent e then fail_values now ''permanent_error'' (ex_text e) c
      else if ws_max_attempts cfg \<le> e_attempts c then fail_values now ''extraction_failed'' (ex_text e) c
      else requeue_values c)"

definition attempt_result :: "worker_settings \<Rightarrow> time \<Rightarrow> 'p job_input \<Rightarrow> erow \<Rightarrow> erow" where
  "attempt_result cfg now inp r = (let c = run_values now r in
     (case attempt_outcome inp c of
        Inl e \<Rightarrow> failed_attempt cfg now e c
      | Inr (res, wants) \<Rightarrow> succeed_values now res wants c))"

fun drive :: "nat \<Rightarrow> worker_settings \<Rightarrow> time \<Rightarrow> 'p job_input \<Rightarrow> job_pc \<Rightarrow> table \<Rightarrow> job_pc \<times> table \<times> effect list" where
  "drive 0 cfg now inp pc T = (pc, T, [])"
| "drive (Suc k) cfg now inp pc T =
     (let (pc1, T1, es1) = job_step cfg now inp pc T; (pc2, T2, es2) = drive k cfg now inp pc1 T1
      in (pc2, T2, es1 @ es2))"

definition process_row :: "worker_settings \<Rightarrow> time \<Rightarrow> 'p job_input \<Rightarrow> string \<Rightarrow> table \<Rightarrow> job_pc \<times> table \<times> effect list" where
  "process_row cfg now inp i T = drive 5 cfg now inp (JStart i) T"

lemma drive_steps:
  "drive k cfg now (inp :: pyval job_input) pc T = (pc', T', es) \<Longrightarrow>
    (sys_step cfg)\<^sup>*\<^sup>* \<lparr>y_table = T, y_jobs = [pc], y_bboxes = B, y_log = L\<rparr>
       \<lparr>y_table = T', y_jobs = [pc'], y_bboxes = B, y_log = L @ es\<rparr>"
proof (induction k arbitrary: pc T L es)
  case (Suc k)
  obtain pc1 T1 es1 where s: "job_step cfg now inp pc T = (pc1, T1, es1)" by (metis prod_cases3)
  obtain es2 where d: "drive k cfg now inp pc1 T1 = (pc', T', es2)" "es = es1 @ es2"
    using Suc.prems s by (auto split: prod.splits)
  have "sys_step cfg \<lparr>y_table = T, y_jobs = [pc], y_bboxes = B, y_log = L\<rparr>
      \<lparr>y_table = T1, y_jobs = [pc1], y_bboxes = B, y_log = L @ es1\<rparr>"
    using run_job [of 0 "\<lparr>y_table = T, y_jobs = [pc], y_bboxes = B, y_log = L\<rparr>" cfg now inp pc1 T1 es1] s by simp
  with Suc.IH [OF d(1), of "L @ es1"] d(2) show ?case by (simp add: converse_rtranclp_into_rtranclp)
qed simp

lemma drive_done: "drive k cfg now inp JDone T = (JDone, T, [])"
  by (induction k) simp_all

lemma error_step:
  assumes ids: "ids_distinct T" and get: "repo_get i T = Some c" and run: "e_status c = RUNNING" and att: "e_attempts c \<noteq> 0"
  shows "\<exists>pc T'. job_error cfg now c e T = (pc, T') \<and> repo_get i T' = Some (failed_attempt cfg now e c)
    \<and> (\<forall>j. j \<noteq> i \<longrightarrow> repo_get j T' = repo_get j T)
    \<and> pc = (if e_status (failed_attempt cfg now e c) = QUEUED then JSleep i else JNotifyFailed c (failed_attempt cfg now e c))"
proof -
  have id: "e_id c = i" using get repo_get_in by blast
  show ?thesis
  proof (cases "is_permanent e \<or> ws_max_attempts cfg \<le> e_attempts c")
    case True
    let ?code = "if is_permanent e then ''permanent_error'' else ''extraction_failed''"
    let ?r = "mark_failed now ?code (ex_text e) i T"
    have "fst ?r = Some (fail_values now ?code (ex_text e) c)"
      using get run by (simp add: mark_failed_def mark_failed_tr.result [OF ids] is_running_def)
    moreover have "repo_get j (snd ?r) = (if j = i then Some (fail_values now ?code (ex_text e) c) else repo_get j T)" for j
      using get run by (auto simp: mark_failed_def mark_failed_tr.lookup [OF ids] is_running_def option.map_ident)
    ultimately show ?thesis using True att id
      by (auto simp: job_error_def failed_attempt_def attempts_of_def Let_def fail_values_def split: prod.splits)
  next
    case False
    let ?r = "requeue_for_retry i T"
    have "fst ?r = Some (requeue_values c)"
      using get run by (simp add: requeue_for_retry_def requeue_tr.result [OF ids] is_running_def)
    moreover have "repo_get j (snd ?r) = (if j = i then Some (requeue_values c) else repo_get j T)" for j
      using get run by (auto simp: requeue_for_retry_def requeue_tr.lookup [OF ids] is_running_def option.map_ident)
    ultimately show ?thesis using False att id
      by (auto simp: job_error_def failed_attempt_def attempts_of_def Let_def requeue_values_def split: prod.splits)
  qed
qed

definition attempt_effects :: "worker_settings \<Rightarrow> time \<Rightarrow> 'p job_input \<Rightarrow> erow \<Rightarrow> effect list" where
  "attempt_effects cfg now inp r = (let c = run_values now r; f = attempt_result cfg now inp r in
     (case attempt_outcome inp c of
        Inl e \<Rightarrow> if e_status f = QUEUED then [EPublish ExtractionSubmitted (row_to_extraction f)]
                 else fire_webhook (ji_show inp) ExtractionCompleted c (row_to_extraction f) None
      | Inr (res, wants) \<Rightarrow> fire_webhook (ji_show inp) ExtractionCompleted c (row_to_extraction f) (Some res)
          @ (if wants then [EPublish PostProcessingRequested (row_to_extraction f)] else [])))"

lemma job_run_outcome:
  "job_run now inp c T = (case attempt_outcome inp c of
     Inl e \<Rightarrow> (JError c e, T)
   | Inr (res, wants) \<Rightarrow> (let (fin, T') = mark_succeeded now res wants (e_id c) T in
       (case fin of None \<Rightarrow> (JDone, T') | Some f \<Rightarrow> (JNotify c f res wants, T'))))"
proof (cases "build_request (ji_parse inp) c")
  case (Inr b)
  let ?q = "if st_bbox_refine (bl_stages b) then pipeline_request b else b"
  show ?thesis
    using Inr by (cases "ji_execute inp ?q") (simp_all add: job_run_def attempt_outcome_def Let_def del: if_split)
qed (simp add: job_run_def attempt_outcome_def)

lemma process_row_result:
  assumes T: "table_ok T" and get: "repo_get i T = Some r" and g: "run_guard now (ws_run_lease cfg) r"
    and env: "ji_deliver inp = None" "ji_publish inp = None"
  shows "\<exists>T'. process_row cfg now inp i T = (JDone, T', attempt_effects cfg now inp r)
    \<and> repo_get i T' = Some (attempt_result cfg now inp r) \<and> (\<forall>j. j \<noteq> i \<longrightarrow> repo_get j T' = repo_get j T)"
proof -
  note ids = table_ok_ids [OF T]
  let ?c = "run_values now r"
  have id: "e_id r = i" and "row_ok r" using get repo_get_in T by (auto simp: table_ok_def)
  then have att: "e_attempts ?c \<noteq> 0" and run: "e_status ?c = RUNNING"
    by (auto simp: run_values_def row_ok_def main_ok_def)
  define T1 where "T1 = snd (mark_running now (ws_run_lease cfg) i T)"
  have m: "mark_running now (ws_run_lease cfg) i T = (Some ?c, T1)"
    using get g by (simp add: T1_def prod_eq_iff mark_running_def mark_running_tr.result [OF ids])
  have get1: "repo_get j T1 = (if j = i then Some ?c else repo_get j T)" for j
    using get g by (auto simp: T1_def mark_running_def mark_running_tr.lookup [OF ids] option.map_ident)
  have ids1: "ids_distinct T1" using ids by (simp add: T1_def mark_running_def mark_running_tr.ids)
  have idc: "e_id ?c = i" using id by (simp add: run_values_def)
  have "\<not> is_terminal_row r"
    using g by (auto simp: is_terminal_row_def estatus_terminal_def run_guard_def)
  then have p: "process_row cfg now inp i T = drive 3 cfg now inp (JRun ?c) T1"
    using get m id by (simp add: process_row_def numeral_eq_Suc split: prod.splits)
  show ?thesis
  proof (cases "attempt_outcome inp ?c")
    case (Inl e)
    then have f: "attempt_result cfg now inp r = failed_attempt cfg now e ?c"
      by (simp add: attempt_result_def)
    from error_step [OF ids1 _ run att, where i = i and now = now and cfg = cfg and e = e] get1 obtain pc T2 where
      e: "job_error cfg now ?c e T1 = (pc, T2)" "repo_get i T2 = Some (failed_attempt cfg now e ?c)"
      "\<forall>j. j \<noteq> i \<longrightarrow> repo_get j T2 = repo_get j T"
      "pc = (if e_status (failed_attempt cfg now e ?c) = QUEUED then JSleep i
         else JNotifyFailed ?c (failed_attempt cfg now e ?c))" by auto
    have "drive 3 cfg now inp (JRun ?c) T1 = (JDone, T2, attempt_effects cfg now inp r)"
      using Inl e env f by (auto simp: numeral_eq_Suc job_run_outcome attempt_effects_def Let_def)
    with p e(2,3) f show ?thesis by auto
  next
    case (Inr x)
    obtain res wants where x: "x = (res, wants)" by force
    then have f: "attempt_result cfg now inp r = succeed_values now res wants ?c"
      using Inr by (simp add: attempt_result_def)
    define T2 where "T2 = snd (mark_succeeded now res wants i T1)"
    have s: "mark_succeeded now res wants i T1 = (Some (succeed_values now res wants ?c), T2)"
      using get1 run by (simp add: T2_def prod_eq_iff mark_succeeded_def mark_succeeded_tr.result [OF ids1] is_running_def)
    have get2: "repo_get j T2 = (if j = i then Some (succeed_values now res wants ?c) else repo_get j T)" for j
      using get1 run by (auto simp: T2_def mark_succeeded_def mark_succeeded_tr.lookup [OF ids1] is_running_def option.map_ident)
    have "drive 3 cfg now inp (JRun ?c) T1 = (JDone, T2, attempt_effects cfg now inp r)"
      using Inr x s env f idc by (auto simp: numeral_eq_Suc job_run_outcome attempt_effects_def Let_def split: prod.splits)
    with p get2 f show ?thesis by auto
  qed
qed

text \<open>Repeated attempts that always fail transiently.\<close>

definition always_fails :: "'p job_input \<Rightarrow> exn \<Rightarrow> erow \<Rightarrow> bool" where
  "always_fails inp e r \<longleftrightarrow> \<not> is_permanent e \<and> (\<forall>c. same_request r c \<longrightarrow> attempt_outcome inp c = Inl e)"

definition attempts_at :: "worker_settings \<Rightarrow> 'p job_input \<Rightarrow> time list \<Rightarrow> erow \<Rightarrow> erow" where
  "attempts_at cfg inp ts r = foldl (\<lambda>r now. attempt_result cfg now inp r) r ts"

lemma attempt_same_request: "same_request r c \<Longrightarrow> same_request r (attempt_result cfg now inp c)"
  by (auto simp: attempt_result_def failed_attempt_def same_request_def run_values_def fail_values_def
      requeue_values_def succeed_values_def Let_def split: sum.splits)

lemma attempts_same_request: "same_request r (attempts_at cfg inp ts r)"
  by (induction ts rule: rev_induct)
    (simp_all add: attempts_at_def attempt_same_request, simp add: same_request_def)

lemma failing_attempt:
  assumes "always_fails inp e r"
  shows "attempts_at cfg inp (ts @ [t]) r = failed_attempt cfg t e (run_values t (attempts_at cfg inp ts r))"
proof -
  have "same_request r (run_values t (attempts_at cfg inp ts r))"
    using attempts_same_request [of r cfg inp ts] by (simp add: same_request_def run_values_def)
  with assms have "attempt_outcome inp (run_values t (attempts_at cfg inp ts r)) = Inl e"
    by (simp add: always_fails_def)
  then show ?thesis by (simp add: attempts_at_def attempt_result_def)
qed

lemma failing_attempts:
  assumes "always_fails inp e r" and "0 \<le> e_attempts r" and "e_status r = QUEUED"
  shows "e_attempts r + int (length ts) < ws_max_attempts cfg \<or> ts = [] \<Longrightarrow>
    e_status (attempts_at cfg inp ts r) = QUEUED \<and> e_attempts (attempts_at cfg inp ts r) = e_attempts r + int (length ts)"
proof (induction ts rule: rev_induct)
  case (snoc t ts)
  then have q: "e_attempts (attempts_at cfg inp ts r) = e_attempts r + int (length ts)" by auto
  with failing_attempt [OF assms(1)] snoc.prems assms(1) show ?case
    by (auto simp: failed_attempt_def always_fails_def run_values_def requeue_values_def)
qed (use assms in \<open>simp add: attempts_at_def\<close>)

section \<open>The request survives the queue\<close>

definition files_valid :: "file_input list \<Rightarrow> bool" where
  "files_valid fs \<longleftrightarrow> (\<forall>f\<in>set fs. f_filename f \<noteq> [] \<and> (\<forall>v. f_content f = Some v \<longrightarrow> b64_strict v \<noteq> None))"

lemma opt_text_str [simp]: "opt_text (opt_str v) = Inr v"
  by (cases v) (simp_all add: opt_str_def)

lemma validate_plain: "(\<And>v. c = Some v \<Longrightarrow> b64_strict v \<noteq> None) \<Longrightarrow> validate_base64 c = Inr c"
  using strip_plain by (cases c) (auto simp: Let_def)

lemma build_file_dump:
  "f_filename f \<noteq> [] \<Longrightarrow> (\<And>v. f_content f = Some v \<Longrightarrow> b64_strict v \<noteq> None) \<Longrightarrow> build_file nm (file_dump f) = Inr f"
  using validate_plain [of "f_content f"] by (simp add: build_file_def file_dump_def get_or_def)

lemma build_files_dump: "files_valid fs \<Longrightarrow> build_files nm (map file_dump fs) = Inr fs"
  by (induction fs) (simp_all add: files_valid_def build_file_dump)

section \<open>Concrete runs\<close>

definition sample_stages :: stage_toggles where
  "sample_stages = rq_stages sample_request"

definition sample_input :: "pyval job_input" where
  "sample_input = \<lparr>ji_parse = (\<lambda>_ _ _ _. Inr (sample_stages, PNone)), ji_execute = (\<lambda>_. Inr (PDict [])),
     ji_deliver = None, ji_publish = None, ji_show = (\<lambda>_. [])\<rparr>"

definition sample_settings :: worker_settings where
  "sample_settings = \<lparr>ws_run_lease = 1260, ws_max_attempts = 3, ws_bbox_lease = 660, ws_bbox_max_attempts = 3,
     ws_queued_threshold = 600, ws_pending_threshold = 1320, ws_poll_grace = 10, ws_poll_batch = 10,
     ws_retry_base = 5, ws_retry_max = 300\<rparr>"

definition hooked_row :: erow where
  "hooked_row = (sample_row ''ext_1'' 0)\<lparr>e_callback := Some ''https://c/hook''\<rparr>"

lemma hooked_ok: "table_ok [hooked_row]"
  by (simp add: table_ok_def keys_ok_def row_ok_defs hooked_row_def sample_row_def)

lemma hooked_get: "repo_get ''ext_1'' [hooked_row] = Some hooked_row"
  by (simp add: repo_get_def hooked_row_def sample_row_def)

lemma hooked_outcome: "attempt_outcome sample_input (run_values t hooked_row) = Inl (value_error ''schema_json missing files'')"
  by (simp add: attempt_outcome_def build_request_def sample_input_def as_dict_def run_values_def hooked_row_def
      sample_row_def get_or_def Let_def)

lemma hooked_result: "attempt_result sample_settings 7 sample_input hooked_row =
    fail_values 7 ''permanent_error'' ''schema_json missing files'' (run_values 7 hooked_row)"
  by (simp add: attempt_result_def hooked_outcome failed_attempt_def is_permanent_def value_error_def)

lemma hooked_effects: "attempt_effects sample_settings 7 sample_input hooked_row =
    [EWebhook ''https://c/hook'' ExtractionCompleted
       (row_to_extraction (fail_values 7 ''permanent_error'' ''schema_json missing files'' (run_values 7 hooked_row))) None [] []]"
proof -
  let ?c = "run_values 7 hooked_row"
  have "attempt_effects sample_settings 7 sample_input hooked_row = fire_webhook (ji_show sample_input) ExtractionCompleted ?c
      (row_to_extraction (fail_values 7 ''permanent_error'' ''schema_json missing files'' ?c)) None"
    by (simp add: attempt_effects_def hooked_outcome hooked_result Let_def, simp add: fail_values_def)
  moreover have "e_callback ?c = Some ''https://c/hook''" "e_metadata ?c = []"
    by (simp_all add: run_values_def hooked_row_def sample_row_def)
  ultimately show ?thesis
    by (simp add: fire_webhook_def clean_metadata_def extract_correlation_def dict_get_def)
qed

lemma hooked_run:
  "\<exists>T'. (sys_step sample_settings)\<^sup>*\<^sup>* (quiet [hooked_row])
     \<lparr>y_table = T', y_jobs = [JDone], y_bboxes = [], y_log = attempt_effects sample_settings 7 sample_input hooked_row\<rparr>"
proof -
  have g: "run_guard 7 (ws_run_lease sample_settings) hooked_row"
    by (simp add: run_guard_def hooked_row_def sample_row_def)
  have env: "ji_deliver sample_input = None" "ji_publish sample_input = None" by (simp_all add: sample_input_def)
  from process_row_result [OF hooked_ok hooked_get g env] obtain T' where
    "drive 5 sample_settings 7 sample_input (JStart ''ext_1'') [hooked_row]
       = (JDone, T', attempt_effects sample_settings 7 sample_input hooked_row)"
    by (auto simp: process_row_def)
  from drive_steps [OF this, of "[]" "[]"] have
    "(sys_step sample_settings)\<^sup>*\<^sup>* \<lparr>y_table = [hooked_row], y_jobs = [JStart ''ext_1''], y_bboxes = [], y_log = []\<rparr>
     \<lparr>y_table = T', y_jobs = [JDone], y_bboxes = [], y_log = attempt_effects sample_settings 7 sample_input hooked_row\<rparr>"
    by simp
  moreover have "sys_step sample_settings (quiet [hooked_row])
      \<lparr>y_table = [hooked_row], y_jobs = [JStart ''ext_1''], y_bboxes = [], y_log = []\<rparr>"
    using deliver_job [of sample_settings "quiet [hooked_row]" "''ext_1''"] by (simp add: quiet_def)
  ultimately show ?thesis by (blast intro: converse_rtranclp_into_rtranclp)
qed

section \<open>Properties\<close>

text \<open>C7: exactly-once notification. However workers, redeliveries, crashes, reapers, cancels and
  submits interleave, at most one \<open>extraction.completed\<close> webhook and at most one
  \<open>extraction.post_processing.completed\<close> webhook are ever sent for an extraction, and one is sent
  only after the row reached the milestone it announces.\<close>

theorem webhook_once:
  assumes "table_ok T" and "(sys_step cfg)\<^sup>*\<^sup>* (quiet T) y"
  shows "completed_sent y i \<le> 1 \<and> refined_sent y i \<le> 1
    \<and> completed_sent y i \<le> finished (y_table y) i \<and> refined_sent y i \<le> refined (y_table y) i"
proof -
  have ok: "sys_ok (quiet T)" using assms(1) by (simp add: sys_ok_def quiet_def)
  have "completed_sent (quiet T) i + count_if (job_owes i) (y_jobs (quiet T)) \<le> finished (y_table (quiet T)) i"
    "refined_sent (quiet T) i + count_if (bbox_owes i) (y_bboxes (quiet T)) \<le> refined (y_table (quiet T)) i"
    by (simp_all add: quiet_def completed_sent_def refined_sent_def)
  from completed_once.covered [OF assms(2) ok this(1)] completed_once.once [OF assms(2) ok this(1)]
    refined_once.covered [OF assms(2) ok this(2)] refined_once.once [OF assms(2) ok this(2)]
  show ?thesis by linarith
qed

theorem webhook_once_witness:
  "\<exists>y. completed_sent y ''ext_1'' = 1 \<and> finished (y_table y) ''ext_1'' = 1"
proof -
  obtain T' where r: "(sys_step sample_settings)\<^sup>*\<^sup>* (quiet [hooked_row])
     \<lparr>y_table = T', y_jobs = [JDone], y_bboxes = [], y_log = attempt_effects sample_settings 7 sample_input hooked_row\<rparr>"
    using hooked_run by blast
  define y where "y = \<lparr>y_table = T', y_jobs = [JDone], y_bboxes = [], y_log = attempt_effects sample_settings 7 sample_input hooked_row\<rparr>"
  have "completed_sent y ''ext_1'' = 1"
    by (simp add: y_def completed_sent_def hooked_effects is_webhook_def)
      (simp add: row_to_extraction_def fail_values_def run_values_def hooked_row_def sample_row_def)
  moreover from this webhook_once [OF hooked_ok r, of "''ext_1''"] have "1 \<le> finished (y_table y) ''ext_1''"
    by (simp add: y_def)
  moreover have "finished (y_table y) ''ext_1'' \<le> 1" by (simp add: finished_def split: option.split)
  ultimately show ?thesis by (intro exI [of _ y]) simp
qed

text \<open>C8: notifications tell the truth. Every completed webhook ever sent names an existing
  extraction; its status is that row's final status now and for ever, succeeded or failed; it went to
  the row's callback URL with the caller's metadata stripped of internal keys; and it carries a result
  exactly when the status is succeeded.\<close>

theorem webhook_truthful:
  assumes "table_ok T" and "(sys_step cfg)\<^sup>*\<^sup>* (quiet T) y" and "EWebhook url ExtractionCompleted d res md hs \<in> set (y_log y)"
  shows "\<exists>r. repo_get (d_id d) (y_table y) = Some r \<and> d_status d = e_status r \<and> d_status d \<in> {SUCCEEDED, FAILED}
    \<and> e_callback r = Some url \<and> md = clean_metadata (e_metadata r) \<and> (res \<noteq> None \<longleftrightarrow> d_status d = SUCCEEDED)"
proof -
  have "sys_truth (quiet T)" using assms(1) by (simp add: sys_truth_def quiet_def)
  from sys_truth_steps [OF assms(2) this] assms(3)
  have "truthful (y_table y) (EWebhook url ExtractionCompleted d res md hs)" by (auto simp: sys_truth_def)
  then show ?thesis by (simp add: truthful_def)
qed

theorem webhook_truthful_witness:
  "\<exists>T' r. repo_get ''ext_1'' T' = Some r \<and> e_status r = FAILED \<and> e_callback r = Some ''https://c/hook''"
proof -
  obtain T' where r: "(sys_step sample_settings)\<^sup>*\<^sup>* (quiet [hooked_row])
     \<lparr>y_table = T', y_jobs = [JDone], y_bboxes = [], y_log = attempt_effects sample_settings 7 sample_input hooked_row\<rparr>"
    using hooked_run by blast
  have "EWebhook ''https://c/hook'' ExtractionCompleted
       (row_to_extraction (fail_values 7 ''permanent_error'' ''schema_json missing files'' (run_values 7 hooked_row))) None [] []
      \<in> set (attempt_effects sample_settings 7 sample_input hooked_row)" by (simp add: hooked_effects)
  with webhook_truthful [OF hooked_ok r] obtain r' where
    "repo_get (d_id (row_to_extraction (fail_values 7 ''permanent_error'' ''schema_json missing files'' (run_values 7 hooked_row)))) T' = Some r'"
    "d_status (row_to_extraction (fail_values 7 ''permanent_error'' ''schema_json missing files'' (run_values 7 hooked_row))) = e_status r'"
    "e_callback r' = Some ''https://c/hook''" by fastforce
  then show ?thesis
    by (intro exI [of _ T'] exI [of _ r'])
      (simp add: row_to_extraction_def fail_values_def run_values_def hooked_row_def sample_row_def)
qed

text \<open>The retry delay is bounded and grows. With non-negative settings and a jitter draw in
  \<open>[0, 1)\<close>, the delay lies between the capped exponential and 1.2 times it, never exceeds 1.2 times
  the ceiling, and the capped part does not decrease with the attempt number.\<close>

theorem backoff_bounds:
  assumes "0 \<le> ws_retry_base cfg" and "0 \<le> ws_retry_max cfg" and "0 \<le> u" and "u < 1"
  shows "capped_delay cfg a \<le> backoff_delay cfg a u \<and> backoff_delay cfg a u \<le> 6 / 5 * ws_retry_max cfg
    \<and> (a \<le> b \<longrightarrow> capped_delay cfg a \<le> capped_delay cfg b)"
proof -
  have c: "0 \<le> capped_delay cfg a" "capped_delay cfg a \<le> ws_retry_max cfg"
    using assms capped_nonneg by (auto simp: capped_delay_def)
  have "capped_delay cfg a * (1 / 5) * u \<le> capped_delay cfg a * (1 / 5) * 1"
    using c assms(3,4) by (intro mult_left_mono) auto
  moreover have "0 \<le> capped_delay cfg a * (1 / 5) * u" using c assms(3) by simp
  ultimately show ?thesis
    using c capped_mono [OF assms(1), of a b] by (auto simp: backoff_delay_def)
qed

theorem backoff_bounds_witness:
  "capped_delay sample_settings 4 \<le> backoff_delay sample_settings 4 (1 / 2)
   \<and> backoff_delay sample_settings 4 (1 / 2) \<le> 6 / 5 * ws_retry_max sample_settings"
  using backoff_bounds [of sample_settings "1 / 2" 4 4] by (simp add: sample_settings_def)

text \<open>The backlog poll overtakes the backoff. A row requeued for a retry keeps the start time of
  the attempt that failed, and \<open>find_stale_queued\<close> measures age from that start time; so if the failed
  attempt ran longer than the poll's grace period, the row is in the next poll's batch at the very
  moment it is requeued, whatever delay the backoff chose.\<close>

theorem backoff_overtaken:
  assumes "table_ok T" and "repo_get i T = Some r" and "e_status r = RUNNING" and "e_started r = Some s"
    and "s < lease_cutoff now (ws_poll_grace cfg)" and "length T \<le> ws_poll_batch cfg"
  shows "\<exists>r'. requeue_for_retry i T = (Some r', snd (requeue_for_retry i T)) \<and> e_status r' = QUEUED
    \<and> JStart i \<in> set (poll_backlog cfg now (snd (requeue_for_retry i T)))"
proof -
  note ids = table_ok_ids [OF assms(1)]
  let ?T = "snd (requeue_for_retry i T)"
  have res: "fst (requeue_for_retry i T) = Some (requeue_values r)"
    using assms(2,3) by (simp add: requeue_for_retry_def requeue_tr.result [OF ids] is_running_def)
  have get: "repo_get i ?T = Some (requeue_values r)"
    using assms(2,3) by (simp add: requeue_for_retry_def requeue_tr.lookup [OF ids] is_running_def)
  then have mem: "requeue_values r \<in> set ?T" and id: "e_id (requeue_values r) = i" using repo_get_in by blast+
  have len: "length ?T \<le> ws_poll_batch cfg" using assms(6) by (simp add: requeue_for_retry_def atomic_update_def)
  have "e_id (requeue_values r) \<in> set (find_stale_queued now (ws_poll_grace cfg) (ws_poll_batch cfg) ?T)"
    unfolding find_stale_queued_def using assms(4,5)
    by (intro take_all_found [OF mem _ len]) (simp add: requeue_values_def coalesce_def)
  then show ?thesis using res id
    by (intro exI [of _ "requeue_values r"]) (auto simp: poll_backlog_def requeue_values_def prod_eq_iff)
qed

theorem backoff_overtaken_witness:
  "\<exists>T. JStart ''ext_1'' \<in> set (poll_backlog sample_settings 30000000 (snd (requeue_for_retry ''ext_1'' T)))"
proof -
  have ok: "table_ok [run_values 5 hooked_row]"
    by (simp add: table_ok_def keys_ok_def row_ok_defs run_values_def hooked_row_def sample_row_def)
  show ?thesis
    using backoff_overtaken [OF ok, of "''ext_1''" "run_values 5 hooked_row" 5 30000000 sample_settings]
    by (auto simp: repo_get_def run_values_def hooked_row_def sample_row_def lease_cutoff_def sample_settings_def)
qed





lemma sample_files_valid: "files_valid (rq_files (sq_request sample_submit))"
  by (simp add: files_valid_def sample_submit_def sample_request_def b64_val_def code_point_def)


definition timeout_error :: exn where
  "timeout_error = \<lparr>ex_value_or_type = False, ex_text = ''timeout''\<rparr>"

definition failing_input :: "pyval job_input" where
  "failing_input = sample_input\<lparr>ji_execute := (\<lambda>_. Inl timeout_error)\<rparr>"


end
