(* ===== verification/BboxJob.thy ===== *)
theory BboxJob
  imports RefineRuns Orchestrator WorkerRuns
begin

text \<open>
  What the bbox worker computes between its claim and its commit
  (\<open>core/services/workers/bbox_refine_worker.py\<close>, \<open>_refine_extraction_result\<close>): the stored result is
  parsed, the stored files are decoded and normalised again, and every document is refined against the
  normalised file its source names. Parsing and dumping of the result, the normaliser, the collection of
  words and the lenient \<open>b64decode\<close> are arguments; the refiner is \<open>refine\<close>. The documents are refined
  concurrently, each on its own groups; their outcomes are listed in document order.
\<close>

section \<open>The stored files\<close>

definition type_error :: exn where
  "type_error = \<lparr>ex_value_or_type = True, ex_text = ''argument should be a bytes-like object''\<rparr>"

type_synonym source = "nat list \<times> pyval \<times> pyval"

definition first_truthy :: "pyval \<Rightarrow> pyval \<Rightarrow> pyval" where
  "first_truthy v w = (if truthy v then v else w)"

fun job_sources :: "(string \<Rightarrow> nat list option) \<Rightarrow> string \<Rightarrow> pyval list \<Rightarrow> exn + source list" where
  "job_sources decode name [] = Inr []"
| "job_sources decode name (v # vs) = (case v of
     PDict d \<Rightarrow>
       if truthy (dict_get d ''content_base64'') then
         (case dict_get d ''content_base64'' of
            PStr s \<Rightarrow> (case decode s of
               None \<Rightarrow> Inl (value_error ''Incorrect padding'')
             | Some b \<Rightarrow> (case job_sources decode name vs of Inl e \<Rightarrow> Inl e
                 | Inr ss \<Rightarrow> Inr ((b, dict_get d ''content_type'', first_truthy (dict_get d ''filename'') (PStr name)) # ss)))
          | _ \<Rightarrow> Inl type_error)
       else job_sources decode name vs
   | _ \<Rightarrow> Inl attribute_error)"

definition file_entries :: "erow \<Rightarrow> exn + pyval list" where
  "file_entries r = (case as_dict (e_schema r) of Inl e \<Rightarrow> Inl e
     | Inr d \<Rightarrow> let fv = dict_get d ''files'' in
         if \<not> truthy fv then Inl (value_error ''schema_json missing files'')
         else (case fv of PList vs \<Rightarrow> Inr vs | PStr _ \<Rightarrow> Inl attribute_error | PDict _ \<Rightarrow> Inl attribute_error | _ \<Rightarrow> Inl type_error))"

type_synonym normaliser = "source \<Rightarrow> exn + normal_row list"

fun normalise_all :: "normaliser \<Rightarrow> source list \<Rightarrow> exn + normal_row list" where
  "normalise_all run [] = Inr []"
| "normalise_all run (s # ss) = (case run s of Inl e \<Rightarrow> Inl e
     | Inr rows \<Rightarrow> (case normalise_all run ss of Inl e \<Rightarrow> Inl e | Inr rest \<Rightarrow> Inr (rows @ rest)))"

text \<open>A dict keyed by file name: a later row replaces an earlier one.\<close>

definition by_filename :: "normal_row list \<Rightarrow> string \<Rightarrow> normal_row option" where
  "by_filename rows = map_of (rev (map (\<lambda>r. (nr_filename r, r)) rows))"

section \<open>The documents\<close>

record refine_job_env =
  rj_decode :: "string \<Rightarrow> nat list option"
  rj_normalise :: normaliser
  rj_words :: "normal_row \<Rightarrow> pyval \<Rightarrow> exn + page_words list"
  rj_match :: matcher
  rj_lib :: pylib
  rj_parse :: "pyval \<Rightarrow> exn + extraction_result"
  rj_dump :: "extraction_result \<Rightarrow> pyval"

text \<open>A box the constructor refuses is a \<open>ValueError\<close>.\<close>

definition refine_stored :: "refine_job_env \<Rightarrow> normal_row list \<Rightarrow> pyval \<Rightarrow> document \<Rightarrow> exn + document" where
  "refine_stored E rows hint d =
     (if do_groups d = [] then Inr d
      else (case by_filename rows (do_source d) of
          None \<Rightarrow> Inr d
        | Some m \<Rightarrow> (case rj_words E m hint of
              Inl e \<Rightarrow> Inl e
            | Inr pages \<Rightarrow> (case refine (rj_lib E) (rj_match E) pages (do_groups d) of (groups, counts, raised) \<Rightarrow>
                if raised then Inl (value_error ''Invalid bounding box'') else Inr (d\<lparr>do_groups := groups\<rparr>)))))"

text \<open>All outcomes are awaited; then the first exception, in document order, is raised.\<close>

fun first_raised :: "(exn + 'a) list \<Rightarrow> exn + 'a list" where
  "first_raised [] = Inr []"
| "first_raised (Inl e # os) = Inl e"
| "first_raised (Inr x # os) = (case first_raised os of Inl e \<Rightarrow> Inl e | Inr xs \<Rightarrow> Inr (x # xs))"

definition refine_job :: "refine_job_env \<Rightarrow> erow \<Rightarrow> exn + pyval" where
  "refine_job E r =
     (let stored = coalesce (e_result r) PNone in
      if \<not> truthy stored then Inl (value_error ''no result_json to refine'')
      else (case rj_parse E stored of Inl e \<Rightarrow> Inl e
        | Inr res \<Rightarrow> (case file_entries r of Inl e \<Rightarrow> Inl e
          | Inr vs \<Rightarrow> (case job_sources (rj_decode E) (e_filename r) vs of Inl e \<Rightarrow> Inl e
            | Inr ss \<Rightarrow>
                if ss = [] then Inl (value_error ''no decodable file bytes in schema_json'')
                else (case normalise_all (rj_normalise E) ss of Inl e \<Rightarrow> Inl e
                  | Inr rows \<Rightarrow> (case as_dict (e_options r) of Inl e \<Rightarrow> Inl e
                    | Inr opts \<Rightarrow> (case first_raised (map (refine_stored E rows (dict_get opts ''language_hint'')) (er_documents res)) of
                          Inl e \<Rightarrow> Inl e | Inr ds \<Rightarrow> Inr (rj_dump E (res\<lparr>er_documents := ds\<rparr>)))))))))"

section \<open>The files the worker reads\<close>

definition law_decode :: "(string \<Rightarrow> nat list option) \<Rightarrow> bool" where
  "law_decode decode \<longleftrightarrow> (\<forall>s bs. b64_strict s = Some bs \<longrightarrow> decode s = Some bs)"

definition source_of :: "file_input \<Rightarrow> source" where
  "source_of f = (case b64_strict (coalesce_str (f_content f)) of None \<Rightarrow> [] | Some b \<Rightarrow> b, opt_str (f_ctype f), PStr (f_filename f))"

definition has_content :: "file_input \<Rightarrow> bool" where
  "has_content f \<longleftrightarrow> (case f_content f of None \<Rightarrow> False | Some v \<Rightarrow> v \<noteq> [])"

lemma dump_entries:
  "dict_get [(''filename'', a), (''content_base64'', b), (''content_type'', c), (''expected_type'', e)] ''filename'' = a"
  "dict_get [(''filename'', a), (''content_base64'', b), (''content_type'', c), (''expected_type'', e)] ''content_base64'' = b"
  "dict_get [(''filename'', a), (''content_base64'', b), (''content_type'', c), (''expected_type'', e)] ''content_type'' = c"
  by (simp_all add: dict_get_def)

lemma sources_of_dump:
  assumes "law_decode decode"
  shows "files_valid fs \<Longrightarrow> job_sources decode nm (map file_dump fs) = Inr (map source_of (filter has_content fs))"
proof (induction fs)
  case (Cons f fs)
  then have IH: "job_sources decode nm (map file_dump fs) = Inr (map source_of (filter has_content fs))"
    by (simp add: files_valid_def)
  show ?case
  proof (cases "has_content f")
    case False
    then have "\<not> truthy (opt_str (f_content f))" by (auto simp: has_content_def opt_str_def split: option.splits)
    with False IH show ?thesis by (simp add: file_dump_def [of f] dump_entries)
  next
    case True
    then obtain v where v: "f_content f = Some v" "v \<noteq> []" by (auto simp: has_content_def split: option.splits)
    with Cons.prems obtain bs where b: "b64_strict v = Some bs" "f_filename f \<noteq> []" by (auto simp: files_valid_def)
    with assms have "decode v = Some bs" by (simp add: law_decode_def)
    with True v b IH show ?thesis
      by (simp add: file_dump_def [of f] dump_entries opt_str_def source_of_def coalesce_str_def first_truthy_def)
  qed
qed simp

text \<open>The out-of-band pass sees the submitted files: whatever transitions the row went through, the sources
  the worker hands to the normaliser are the bytes, types and names of the submitted files that have content.\<close>

lemma sources_read:
  assumes "law_decode decode" "files_valid (rq_files (sq_request q))" "rq_files (sq_request q) \<noteq> []"
    "same_request (new_row sha i now ctx idem q bs) r"
  shows "\<exists>vs. file_entries r = Inr vs \<and> job_sources decode (e_filename r) vs = Inr (map source_of (filter has_content (rq_files (sq_request q))))"
proof -
  have "e_schema r = schema_json q" using assms(4) by (auto simp: same_request_def new_row_def)
  then have "file_entries r = Inr (map file_dump (rq_files (sq_request q)))"
    using assms(3) by (simp add: file_entries_def as_dict_def schema_json_def dict_get_def Let_def)
  with sources_of_dump [OF assms(1,2)] show ?thesis by simp
qed

section \<open>What the pass changes\<close>

definition same_but_boxes :: "document \<Rightarrow> document \<Rightarrow> bool" where
  "same_but_boxes d d' \<longleftrightarrow> d' = d\<lparr>do_groups := do_groups d'\<rparr>
     \<and> map (\<lambda>g. (xg_name g, map bare (xg_fields g))) (do_groups d') = map (\<lambda>g. (xg_name g, map bare (xg_fields g))) (do_groups d)"

lemma refined_doc:
  assumes "refine (rj_lib E) (rj_match E) pages (do_groups d) = (gs, c, raised)"
  shows "same_but_boxes d (d\<lparr>do_groups := gs\<rparr>)"
  using only_boxes [of "rj_lib E" "rj_match E" pages "do_groups d"] assms by (simp add: same_but_boxes_def)

lemma refine_stored_boxes: "refine_stored E rows hint d = Inr d' \<Longrightarrow> same_but_boxes d d'"
proof -
  assume a: "refine_stored E rows hint d = Inr d'"
  have same: "same_but_boxes d d" by (simp add: same_but_boxes_def)
  show ?thesis
  proof (cases "do_groups d = [] \<or> by_filename rows (do_source d) = None")
    case True
    with a same show ?thesis by (auto simp: refine_stored_def split: if_splits)
  next
    case False
    with a obtain m pages where p: "by_filename rows (do_source d) = Some m" "rj_words E m hint = Inr pages"
      by (auto simp: refine_stored_def split: if_splits sum.splits)
    obtain gs c raised where r: "refine (rj_lib E) (rj_match E) pages (do_groups d) = (gs, c, raised)" by (metis surj_pair)
    with a False p have "d' = d\<lparr>do_groups := gs\<rparr>" by (auto simp: refine_stored_def split: if_splits)
    with refined_doc [OF r] show ?thesis by simp
  qed
qed

lemma first_raised_all [simp]: "first_raised (map Inr xs) = Inr xs"
  by (induction xs) simp_all

lemma first_raised_some: "first_raised os = Inr xs \<Longrightarrow> os = map Inr xs"
  by (induction os arbitrary: xs rule: first_raised.induct) (auto split: sum.splits)

lemma first_raised_Inr: "first_raised os = Inr xs \<longleftrightarrow> os = map Inr xs"
  using first_raised_some by auto

lemma first_raised_map: "first_raised (map f ds) = Inr ds' \<Longrightarrow> list_all2 (\<lambda>d d'. f d = Inr d') ds ds'"
  by (simp add: first_raised_Inr list_all2_conv_all_nth) (metis length_map nth_map)

lemma refine_job_result:
  assumes "refine_job E r = Inr v"
  shows "\<exists>res ds. rj_parse E (coalesce (e_result r) PNone) = Inr res \<and> v = rj_dump E (res\<lparr>er_documents := ds\<rparr>)
     \<and> list_all2 same_but_boxes (er_documents res) ds"
proof -
  from assms obtain res rows hint ds where r: "rj_parse E (coalesce (e_result r) PNone) = Inr res"
    "first_raised (map (refine_stored E rows hint) (er_documents res)) = Inr ds" "v = rj_dump E (res\<lparr>er_documents := ds\<rparr>)"
    by (auto simp: refine_job_def Let_def split: if_splits sum.splits)
  from first_raised_map [OF r(2)] have "list_all2 same_but_boxes (er_documents res) ds"
    by (rule list_all2_mono) (rule refine_stored_boxes)
  with r show ?thesis by blast
qed


section \<open>Pages\<close>

lemma best_match_page: "best_match_on_page U threshold t p = Some m \<Longrightarrow> mr_page m = pg_page p"
  using spaced_located [of U threshold t "pg_words p" "pg_page p" m] unspaced_located [of U threshold t "pg_words p" "pg_page p" m]
  by (auto simp: best_match_on_page_def union_bbox_def split: if_splits)

lemma located_on_candidate:
  assumes "locate U threshold v pages (Some cs) = Some m" "p \<in> set pages" "pg_page p \<in> set cs" "pg_words p \<noteq> []"
  shows "mr_page m \<in> set cs"
proof -
  from locate_hit [OF assms(1)] obtain q t where q: "q \<in> set (in_scope pages (Some cs))" "best_match_on_page U threshold t q = Some m"
    unfolding page_hits_def by blast
  have "cs \<noteq> []" "list_ex (\<lambda>p. pg_words p \<noteq> []) (filter (\<lambda>p. pg_page p \<in> set cs) pages)"
    using assms(2-4) by (auto simp: list_ex_iff)
  then have "in_scope pages (Some cs) = filter (\<lambda>p. pg_page p \<in> set cs) pages"
    by (cases cs) (simp_all add: in_scope_def Let_def)
  with q(1) best_match_page [OF q(2)] show ?thesis by simp
qed

lemma str_of_nat_inj: "str_of_nat i = str_of_nat j \<longleftrightarrow> i = j"
  using int_of_str_nat by metis

lemma updates_map_of:
  "map_of (foldl (\<lambda>out f. AList.update (fst f) (g f) out) [] (map (\<lambda>i. target_of L i (ls ! i)) is)) (str_of_nat i)
     = (if i \<in> set is then Some (g (target_of L i (ls ! i))) else None)"
  by (induction "is" rule: rev_induct) (auto simp: update_conv' target_of_def str_of_nat_inj)

lemma fuzzy_answer:
  "answer (fuzzy_locate_all U threshold) pages L ls i = (if i \<in> set (wanted_indices L ls)
     then locate U threshold (fst (snd (target_of L i (ls ! i)))) pages (snd (snd (target_of L i (ls ! i)))) else None)"
  by (simp add: answer_def result_of_def fuzzy_locate_all_def residual_targets_eq updates_map_of)


definition page_two :: page_words where
  "page_two = sample_page\<lparr>pg_page := 2, pg_words := [plain_word [65] 2 (1 / 2) (1 / 2) 1 1]\<rparr>"

definition second_document :: document where
  "second_document = \<lparr>do_type = ''note'', do_source = ''f.pdf'', do_pages = [2], do_description = [], do_confidence = 1, do_notes = None,
     do_groups = [\<lparr>xg_name = ''g'', xg_fields = [XField ((plain_meta ''a'')\<lparr>xm_pages := [1]\<rparr>) (VStr ''A'')]\<rparr>], do_visual = [], do_content = None\<rparr>"

lemma second_leaves: "group_leaves (do_groups second_document) = [XField ((plain_meta ''a'')\<lparr>xm_pages := [1]\<rparr>) (VStr ''A'')]"
  by (simp add: group_leaves_def second_document_def)

lemma second_answer:
  "answer (fuzzy_locate_all sample_unicode 1) [sample_page, page_two] no_pylib (group_leaves (do_groups second_document)) 0 = Some word_a"
proof -
  have v: "value_as_string no_pylib (VStr ''A'') = ''A''" by (simp add: value_as_string_def) code_simp
  have w: "wanted_indices no_pylib (group_leaves (do_groups second_document)) = [0]"
    unfolding second_leaves by (simp add: wanted_indices_def wanted_def v grounded_def box_source_def plain_meta_def)
  have t: "target_of no_pylib 0 (group_leaves (do_groups second_document) ! 0) = (str_of_nat 0, [65], Some [1])"
    unfolding second_leaves by (simp add: target_of_def v code_point_def)
  have ne: "pg_words sample_page \<noteq> []" "pg_page sample_page = 1" "pg_page page_two = 2" by (simp_all add: sample_page_def page_two_def)
  have "locate sample_unicode 1 [65] [sample_page, page_two] (Some [1]) = Some word_a"
    using ne by (simp add: locate_def sample_normal sample_variants in_scope_def sample_hits)
  then show ?thesis by (simp add: fuzzy_answer w t)
qed


definition sample_result :: extraction_result where
  "sample_result = \<lparr>er_partial = False, er_files = [], er_documents = [second_document], er_discovered = [], er_rules = [], er_outputs = [],
     er_model = [], er_errors = [], er_escalation = None, er_repair = None\<rparr>"

definition sample_job_env :: refine_job_env where
  "sample_job_env = \<lparr>rj_decode = b64_strict, rj_normalise = (\<lambda>s. Inr [\<lparr>nr_filename = ''f.pdf'', nr_derived = [], nr_media = [], nr_pages = 2, nr_bytes = fst s\<rparr>]),
     rj_words = (\<lambda>m hint. Inr [sample_page, page_two]), rj_match = fuzzy_locate_all sample_unicode 1, rj_lib = no_pylib,
     rj_parse = (\<lambda>v. Inr sample_result), rj_dump = (\<lambda>res. PList (map (\<lambda>d. PStr (do_source d)) (er_documents res)))\<rparr>"

definition sample_leg :: erow where
  "sample_leg = (new_row (\<lambda>_. []) ''ext_1'' 0 [] None sample_submit [[37]])\<lparr>e_status := SUCCEEDED, e_result := Some (PStr ''r''), b_status := Some PP_RUNNING\<rparr>"

lemma sample_refined: "\<exists>ds. refine_stored sample_job_env [\<lparr>nr_filename = ''f.pdf'', nr_derived = [], nr_media = [], nr_pages = 2, nr_bytes = b\<rparr>] hint second_document = Inr ds"
proof -
  obtain gs c raised where r: "refine no_pylib (fuzzy_locate_all sample_unicode 1) [sample_page, page_two] (do_groups second_document) = (gs, c, raised)" by (metis surj_pair)
  have "list_all page_ok [sample_page, page_two]" by (simp add: page_ok_def sample_page_def page_two_def word_ok_def plain_word_def)
  from fz.never_raises [OF this, of no_pylib sample_unicode 1 "do_groups second_document"] r have "\<not> raised" by simp
  then show ?thesis using r by (simp add: refine_stored_def sample_job_env_def by_filename_def second_document_def)
qed


section \<open>Two files of one name\<close>

text \<open>Of two files with one name only the last is looked at, for the documents of both.\<close>

lemma last_file_wins:
  assumes "nr_filename m = n" "n \<notin> nr_filename ` set rows'"
  shows "by_filename (rows @ m # rows') n = Some m"
proof -
  have "map_of (rev (map (\<lambda>r. (nr_filename r, r)) rows')) n = None"
    using assms(2) by (auto simp: map_of_eq_None_iff image_iff)
  with assms(1) show ?thesis by (simp add: by_filename_def map_add_def)
qed

end
