(* ===== verification/Webhook.thy ===== *)
theory Webhook
  imports Prelude
begin

text \<open>
  \<open>WebhookPublisher\<close> (\<open>core/services/webhook/webhook_publisher.py\<close>): the headers of a
  delivery and the attempt loop. The HTTP client is a function from the attempt number to its
  reply; the HMAC digest is a parameter. The retry combinator is \<open>tenacity\<close>'s, also a
  parameter: the code configures it with \<open>reraise=True\<close>, \<open>stop_after_attempt\<close> and
  \<open>retry_if_exception_type(_RetryableWebhook)\<close>, and \<open>tenacity_law\<close> is what its
  documentation says of that configuration: attempts are made until one does not raise the
  retryable exception or the attempts are used up, and then the last exception is re-raised.
\<close>

section \<open>Headers\<close>

text \<open>A header dict in insertion order; assigning an existing name keeps its place.\<close>

type_synonym headers = "(string \<times> string) list"

definition base_headers :: headers where
  "base_headers = [(''Content-Type'', ''application/json''), (''User-Agent'', ''flydocs/26.6.3'')]"

fun merge_extra :: "headers \<Rightarrow> headers \<Rightarrow> headers" where
  "merge_extra hs [] = hs"
| "merge_extra hs ((n, v) # es) =
     (if v = [] \<or> py_lower n \<in> {''content-type'', ''user-agent''} then merge_extra hs es
      else merge_extra (AList.update n v hs) es)"

definition delivery_headers :: "headers \<Rightarrow> (string \<times> string) option \<Rightarrow> string \<Rightarrow> headers" where
  "delivery_headers extra sig_scheme digest =
     (let hs = merge_extra base_headers extra in
      case sig_scheme of None \<Rightarrow> hs
      | Some (name, scheme) \<Rightarrow> AList.update name (scheme @ ''='' @ digest) hs)"

section \<open>Attempts\<close>

datatype reply = Status nat | RequestError

datatype attempt = Returned bool | Retryable | TransportError

definition do_post :: "reply \<Rightarrow> attempt" where
  "do_post r = (case r of
     RequestError \<Rightarrow> TransportError
   | Status s \<Rightarrow>
       if (500 \<le> s \<and> s < 600) \<or> s = 429 then Retryable
       else if 400 \<le> s then Returned False
       else Returned True)"

text \<open>What the retrying call ends with; \<open>RetryErr\<close> is \<open>tenacity.RetryError\<close>.\<close>

datatype retried = Got bool | RaisedRetryable | RaisedTransport | RetryErr

type_synonym retrier = "nat \<Rightarrow> (nat \<Rightarrow> attempt) \<Rightarrow> retried \<times> nat"

fun outcome_of :: "attempt \<Rightarrow> retried" where
  "outcome_of (Returned b) = Got b"
| "outcome_of Retryable = RaisedRetryable"
| "outcome_of TransportError = RaisedTransport"

text \<open>The second component is the number of attempts made.\<close>

definition tenacity_law :: "retrier \<Rightarrow> bool" where
  "tenacity_law retry \<longleftrightarrow> (\<forall>k f. 0 < k \<longrightarrow>
     (\<exists>n<k. (\<forall>m<n. f m = Retryable) \<and> (n = k - 1 \<or> f n \<noteq> Retryable)
        \<and> retry k f = (outcome_of (f n), Suc n)))"

text \<open>\<open>deliver\<close>: the boolean it returns, or the exception that escapes it.\<close>

datatype delivery = Delivered bool | RaisesRetryableWebhook

definition deliver :: "retrier \<Rightarrow> int \<Rightarrow> (nat \<Rightarrow> reply) \<Rightarrow> delivery \<times> nat" where
  "deliver retry max_attempts post =
     (let (out, posts) = retry (nat (max 1 max_attempts)) (\<lambda>n. do_post (post n)) in
      (case out of Got b \<Rightarrow> Delivered b
       | RetryErr \<Rightarrow> Delivered False
       | RaisedTransport \<Rightarrow> Delivered False
       | RaisedRetryable \<Rightarrow> RaisesRetryableWebhook, posts))"

fun retry_from :: "nat \<Rightarrow> nat \<Rightarrow> (nat \<Rightarrow> attempt) \<Rightarrow> retried \<times> nat" where
  "retry_from 0 n f = (outcome_of (f n), Suc n)"
| "retry_from (Suc k) n f = (if f n = Retryable then retry_from k (Suc n) f else (outcome_of (f n), Suc n))"

definition retry_ref :: retrier where
  "retry_ref k f = retry_from (k - 1) 0 f"

lemma retry_from_law:
  "(\<forall>m<n. f m = Retryable) \<Longrightarrow> \<exists>j. n \<le> j \<and> j \<le> n + k \<and> (\<forall>m<j. f m = Retryable)
     \<and> (j = n + k \<or> f j \<noteq> Retryable) \<and> retry_from k n f = (outcome_of (f j), Suc j)"
proof (induction k arbitrary: n)
  case 0
  then show ?case by (intro exI [of _ n]) simp
next
  case (Suc k)
  show ?case
  proof (cases "f n = Retryable")
    case True
    with Suc.prems have "\<forall>m<Suc n. f m = Retryable" by (simp add: less_Suc_eq)
    from Suc.IH [OF this] True show ?thesis by (auto intro: Suc_leD)
  next
    case False
    with Suc.prems show ?thesis by (intro exI [of _ n]) simp
  qed
qed

lemma retry_ref_law: "tenacity_law retry_ref"
  unfolding tenacity_law_def
proof (intro allI impI)
  fix k :: nat and f assume "0 < k"
  from retry_from_law [of 0 f "k - 1"] obtain j where
    "j \<le> k - 1" "\<forall>m<j. f m = Retryable" "j = k - 1 \<or> f j \<noteq> Retryable"
    "retry_from (k - 1) 0 f = (outcome_of (f j), Suc j)" by auto
  with \<open>0 < k\<close> show "\<exists>n<k. (\<forall>m<n. f m = Retryable) \<and> (n = k - 1 \<or> f n \<noteq> Retryable)
      \<and> retry_ref k f = (outcome_of (f n), Suc n)"
    by (intro exI [of _ j]) (auto simp: retry_ref_def)
qed

section \<open>Properties\<close>

text \<open>The delivery contract. The number of posts never exceeds \<open>max(1, max_attempts)\<close>; every
  post but the last got a retryable answer (5xx or 429). \<open>deliver\<close> returns true exactly when the
  last answer was below 400, false when it was another 4xx (or an unassigned code from 600) or the
  transport failed; when the last permitted attempt is still retryable, the exception escapes
  \<open>deliver\<close> instead of the documented false.\<close>

theorem deliver_contract:
  assumes "tenacity_law retry"
  shows "\<exists>n < nat (max 1 max_attempts). \<exists>out.
      deliver retry max_attempts post = (out, Suc n)
    \<and> (\<forall>m<n. do_post (post m) = Retryable)
    \<and> (out = Delivered True \<longleftrightarrow> (\<exists>s<400. post n = Status s))
    \<and> (out = RaisesRetryableWebhook \<longleftrightarrow> n = nat (max 1 max_attempts) - 1 \<and> do_post (post n) = Retryable)"
proof -
  let ?k = "nat (max 1 max_attempts)" and ?f = "\<lambda>n. do_post (post n)"
  have "0 < ?k" by simp
  from assms [unfolded tenacity_law_def, rule_format, OF this, of ?f] obtain n where n: "n < ?k" "\<forall>m<n. ?f m = Retryable" "n = ?k - 1 \<or> ?f n \<noteq> Retryable"
    "retry ?k ?f = (outcome_of (?f n), Suc n)"
    by (elim exE conjE) (rule that)
  have t: "?f n = Returned True \<longleftrightarrow> (\<exists>s<400. post n = Status s)"
    by (auto simp: do_post_def split: reply.splits)
  define out where "out = fst (deliver retry max_attempts post)"
  have d: "deliver retry max_attempts post = (out, Suc n)" and
    o: "out = (case ?f n of Returned b \<Rightarrow> Delivered b | Retryable \<Rightarrow> RaisesRetryableWebhook | TransportError \<Rightarrow> Delivered False)"
    using n(4) by (cases "?f n"; simp add: out_def deliver_def)+
  have "out = Delivered True \<longleftrightarrow> (\<exists>s<400. post n = Status s)"
    using t o by (cases "?f n") auto
  moreover have "out = RaisesRetryableWebhook \<longleftrightarrow> n = ?k - 1 \<and> ?f n = Retryable"
    using o n(3) by (cases "?f n") auto
  ultimately show ?thesis using n(1,2) d by blast
qed

theorem deliver_contract_witness:
  "\<exists>n < 5. \<exists>out. deliver retry_ref 5 (\<lambda>m. if m < 2 then Status 503 else Status 204) = (out, Suc n)"
  using deliver_contract [OF retry_ref_law, of 5 "\<lambda>m. if m < 2 then Status 503 else Status 204"] by auto

text \<open>No caller-supplied header reaches the receiver in place of the publisher's own: whatever
  the extra headers are, the content type and user agent are the publisher's, and with a secret the
  signature header carries the scheme and the digest of this delivery.\<close>

theorem headers_protected:
  "map_of (delivery_headers extra None digest) ''Content-Type'' = Some ''application/json''
   \<and> map_of (delivery_headers extra None digest) ''User-Agent'' = Some ''flydocs/26.6.3''
   \<and> map_of (delivery_headers extra (Some (name, scheme)) digest) name = Some (scheme @ ''='' @ digest)"
proof -
  have ext: "py_lower n \<in> {''content-type'', ''user-agent''} \<Longrightarrow> map_of (merge_extra hs extra) n = map_of hs n" for n hs
    by (induction hs extra rule: merge_extra.induct) (auto simp: update_conv')
  have "py_lower ''Content-Type'' = ''content-type''" "py_lower ''User-Agent'' = ''user-agent''"
    by code_simp+
  with ext [of "''Content-Type''" base_headers] ext [of "''User-Agent''" base_headers] show ?thesis
    by (simp add: delivery_headers_def base_headers_def Let_def update_conv')
qed

end
