(* ===== verification/WebApi.thy ===== *)
theory WebApi
  imports Extractions Webhook
begin

text \<open>
  The HTTP edge from both sides: \<open>ExtractionsController\<close>, \<open>ExtractController\<close> and
  \<open>ExceptionAdvice\<close> (\<open>web\<close>) on the server, and the Python SDK (\<open>flydocs_sdk\<close>): its headers, query
  parameters, decoding of problem bodies, wait loop and webhook verifier. Routing, JSON and the
  transport are the frameworks': a body travels as the value it stands for.
\<close>

section \<open>Problem bodies\<close>

record problem =
  pb_type :: string
  pb_title :: string
  pb_status :: nat
  pb_detail :: "string option"
  pb_instance :: "string option"
  pb_code :: "string option"
  pb_extensions :: "(string \<times> pyval) list option"

definition opt_entry :: "string \<Rightarrow> ('a \<Rightarrow> pyval) \<Rightarrow> 'a option \<Rightarrow> (string \<times> pyval) list" where
  "opt_entry k f v = (case v of None \<Rightarrow> [] | Some x \<Rightarrow> [(k, f x)])"

text \<open>\<open>model_dump(exclude_none=True)\<close>\<close>

definition dump_problem :: "problem \<Rightarrow> pyval" where
  "dump_problem p = PDict ([(''type'', PStr (pb_type p)), (''title'', PStr (pb_title p)), (''status'', PInt (int (pb_status p)))]
     @ opt_entry ''detail'' PStr (pb_detail p) @ opt_entry ''instance'' PStr (pb_instance p) @ opt_entry ''code'' PStr (pb_code p)
     @ opt_entry ''extensions'' PDict (pb_extensions p))"

text \<open>\<open>HTTPException\<close> is answered with its detail under the key \<open>detail\<close>.\<close>

definition http_problem :: "string \<Rightarrow> string \<Rightarrow> string \<Rightarrow> pyval" where
  "http_problem code title detail = PDict [(''detail'', PDict [(''code'', PStr code), (''title'', PStr title), (''detail'', PStr detail)])]"

definition http_problem_with_payload :: "string \<Rightarrow> string \<Rightarrow> string \<Rightarrow> (string \<times> pyval) list \<Rightarrow> pyval" where
  "http_problem_with_payload code title detail extra = PDict [(''detail'', PDict
     (fold (\<lambda>(k, v) d. AList.update k v d) extra [(''code'', PStr code), (''title'', PStr title), (''detail'', PStr detail)]))]"

section \<open>The controllers\<close>

datatype 'a web_answer = Answered nat 'a | Problem nat pyval

text \<open>What the exception advice makes of the exceptions no controller catches. A normalisation error has a status,
  a code and perhaps a file name.\<close>

datatype domain_exn = NotReadyExn string string string | TimedOutExn int string | NotCancellableExn string
  | BinaryExn nat string "string option" string | ValueExn string

definition plain_problem :: "string \<Rightarrow> string \<Rightarrow> nat \<Rightarrow> string \<Rightarrow> string \<Rightarrow> (string \<times> pyval) list option \<Rightarrow> problem" where
  "plain_problem slug title status code detail ext = \<lparr>pb_type = ''https://flydocs.dev/problems/'' @ slug, pb_title = title, pb_status = status,
     pb_detail = Some detail, pb_instance = None, pb_code = Some code, pb_extensions = ext\<rparr>"

definition dashed :: "string \<Rightarrow> string" where
  "dashed s = map (\<lambda>c. if c = CHR ''_'' then CHR ''-'' else c) s"

definition advice :: "domain_exn \<Rightarrow> problem" where
  "advice e = (case e of
     NotReadyExn i status msg \<Rightarrow> plain_problem ''not-ready'' ''Extraction not ready'' 409 ''not_ready'' msg
       (Some [(''extraction_id'', PStr i), (''status'', PStr status)])
   | TimedOutExn t msg \<Rightarrow> plain_problem ''timeout'' ''Extraction timed out'' 408 ''timeout'' msg (Some [(''timeout_s'', PInt t)])
   | NotCancellableExn msg \<Rightarrow> plain_problem ''not-cancellable'' ''Extraction cannot be cancelled'' 409 ''not_cancellable'' msg None
   | BinaryExn status code name msg \<Rightarrow> plain_problem (dashed code) ''Binary could not be normalised'' status code msg
       (case name of Some (c # cs) \<Rightarrow> Some [(''filename'', PStr (c # cs))] | _ \<Rightarrow> None)
   | ValueExn msg \<Rightarrow> plain_problem ''invalid-request'' ''Invalid request'' 400 ''invalid_request'' msg None)"

text \<open>The advice returns the body; the status the framework answers it with is an argument.\<close>

definition advised :: "(problem \<Rightarrow> nat) \<Rightarrow> domain_exn \<Rightarrow> 'a web_answer" where
  "advised respond e = Problem (respond (advice e)) (dump_problem (advice e))"

text \<open>The texts of issues and exceptions are arguments; a missing row is the framework's 404.\<close>

definition issue_dict :: "(issue \<Rightarrow> string \<times> string) \<Rightarrow> issue \<Rightarrow> pyval" where
  "issue_dict texts i = PDict [(''severity'', PStr (if is_severity i = SEV_ERROR then ''error'' else ''warning'')),
     (''code'', PStr (fst (texts i))), (''message'', PStr (snd (texts i))), (''path'', PStr (is_path i))]"

definition report_payload :: "(issue \<Rightarrow> string \<times> string) \<Rightarrow> issue list \<Rightarrow> (string \<times> pyval) list" where
  "report_payload texts issues = [(''errors'', PList (map (issue_dict texts) (report_errors issues))), (''warnings'', PList (map (issue_dict texts) (report_warnings issues)))]"

definition counted_issues :: "issue list \<Rightarrow> string \<Rightarrow> string" where
  "counted_issues issues what = str_of_nat (length (report_errors issues)) @ '' error(s) and '' @ str_of_nat (length (report_warnings issues))
     @ '' warning(s) detected before '' @ what @ ''.''"

definition submit_http :: "(problem \<Rightarrow> nat) \<Rightarrow> (issue \<Rightarrow> string \<times> string) \<Rightarrow> string \<Rightarrow> submit_outcome \<Rightarrow> extraction_dto web_answer option" where
  "submit_http respond texts why r = (case r of
     Accepted d \<Rightarrow> Some (Answered 202 d)
   | InvalidRequestError issues \<Rightarrow> Some (Problem 422 (http_problem_with_payload ''validation_failed'' ''Request failed semantic validation''
       (counted_issues issues ''queueing'') (report_payload texts issues)))
   | DecodeError \<Rightarrow> Some (advised respond (ValueExn why))
   | _ \<Rightarrow> None)"

definition not_found :: "pyval \<Rightarrow> 'a web_answer" where
  "not_found body = Problem 404 body"

definition get_http :: "pyval \<Rightarrow> extraction_dto option \<Rightarrow> extraction_dto web_answer" where
  "get_http missing r = (case r of None \<Rightarrow> not_found missing | Some d \<Rightarrow> Answered 200 d)"

definition result_http :: "pyval \<Rightarrow> (string \<Rightarrow> estatus \<Rightarrow> string) \<Rightarrow> 'a result_outcome \<Rightarrow> (string \<times> 'a) web_answer option" where
  "result_http missing msg r = (case r of
     Result i x \<Rightarrow> Some (Answered 200 (i, x)) | ResultNotFound \<Rightarrow> Some (not_found missing)
   | NotReady i s \<Rightarrow> Some (Problem 409 (http_problem ''not_ready'' ''Extraction not ready'' (msg i s))) | _ \<Rightarrow> None)"

definition cancel_http :: "pyval \<Rightarrow> (string \<Rightarrow> estatus \<Rightarrow> string) \<Rightarrow> cancel_outcome \<Rightarrow> extraction_dto web_answer" where
  "cancel_http missing msg r = (case r of Cancelled d \<Rightarrow> Answered 200 d | NotFound \<Rightarrow> not_found missing
   | NotCancellable i s \<Rightarrow> Problem 409 (http_problem ''not_cancellable'' ''Extraction cannot be cancelled'' (msg i s)))"

text \<open>The synchronous endpoint: the gates, then the handler, which can time out or raise another exception (\<open>None\<close>).\<close>

definition gate_problem :: "nat \<Rightarrow> (string \<Rightarrow> string) \<Rightarrow> gate_error \<Rightarrow> 'a web_answer" where
  "gate_problem max_bytes why g = (case g of
     FileTooLarge name n \<Rightarrow> Problem 413 (http_problem ''file_too_large'' ''File too large''
       (name @ '' is '' @ str_of_nat n @ '' bytes (max '' @ str_of_nat max_bytes @ '')''))
   | BadBase64 name \<Rightarrow> Problem 422 (http_problem ''invalid_base64'' ''Invalid base64 content'' (name @ '': '' @ why name)))"

datatype 'a handled = Handled 'a | HandlerTimedOut string | HandlerRaised

definition extract_http :: "(issue \<Rightarrow> string \<times> string) \<Rightarrow> nat \<Rightarrow> (string \<Rightarrow> string) \<Rightarrow> (extraction_request \<Rightarrow> 'a handled) \<Rightarrow> extraction_request \<Rightarrow> 'a web_answer option" where
  "extract_http texts max_bytes why handler q = (case enforce_size_limits max_bytes (rq_files q) of
     Some g \<Rightarrow> Some (gate_problem max_bytes why g)
   | None \<Rightarrow> (let issues = validate_request True q in
       if has_errors issues then Some (Problem 422 (http_problem_with_payload ''validation_failed'' ''Request failed semantic validation''
         (counted_issues issues ''the pipeline'') (report_payload texts issues)))
       else (case handler q of Handled r \<Rightarrow> Some (Answered 200 r)
         | HandlerTimedOut msg \<Rightarrow> Some (Problem 408 (http_problem ''timeout'' ''Extraction timed out'' msg)) | HandlerRaised \<Rightarrow> None)))"

record validation_response =
  vr_ok :: bool
  vr_error_count :: nat
  vr_warning_count :: nat
  vr_errors :: "issue list"
  vr_warnings :: "issue list"

definition validate_http :: "extraction_request \<Rightarrow> validation_response" where
  "validate_http q = (let r = validate_request True q in \<lparr>vr_ok = (\<not> has_errors r), vr_error_count = length (report_errors r),
     vr_warning_count = length (report_warnings r), vr_errors = report_errors r, vr_warnings = report_warnings r\<rparr>)"

section \<open>Listing\<close>

definition status_name :: "estatus \<Rightarrow> string" where
  "status_name s = (case s of QUEUED \<Rightarrow> ''queued'' | RUNNING \<Rightarrow> ''running'' | SUCCEEDED \<Rightarrow> ''succeeded'' | FAILED \<Rightarrow> ''failed'' | CANCELLED \<Rightarrow> ''cancelled'')"

definition pp_name :: "ppstatus \<Rightarrow> string" where
  "pp_name s = (case s of PP_PENDING \<Rightarrow> ''pending'' | PP_RUNNING \<Rightarrow> ''running'' | PP_SUCCEEDED \<Rightarrow> ''succeeded'' | PP_FAILED \<Rightarrow> ''failed'')"

definition enum_of :: "('a \<Rightarrow> string) \<Rightarrow> 'a list \<Rightarrow> string \<Rightarrow> 'a option" where
  "enum_of name values s = List.find (\<lambda>v. name v = s) values"

definition all_statuses :: "estatus list" where
  "all_statuses = [QUEUED, RUNNING, SUCCEEDED, FAILED, CANCELLED]"

definition all_pp :: "ppstatus list" where
  "all_pp = [PP_PENDING, PP_RUNNING, PP_SUCCEEDED, PP_FAILED]"

fun pieces :: "string \<Rightarrow> string \<Rightarrow> string list" where
  "pieces acc [] = [rev acc]"
| "pieces acc (c # cs) = (if c = CHR '','' then rev acc # pieces [] cs else pieces (c # acc) cs)"

definition split_csv :: "string \<Rightarrow> string list" where
  "split_csv v = (if v = [] then [] else filter (\<lambda>p. p \<noteq> []) (map py_strip (pieces [] v)))"

fun all_some :: "'a option list \<Rightarrow> 'a list option" where
  "all_some [] = Some []"
| "all_some (None # xs) = None"
| "all_some (Some x # xs) = map_option (\<lambda>ys. x # ys) (all_some xs)"

text \<open>\<open>Z\<close> is replaced before the time is parsed; \<open>None\<close> outside is the \<open>ValueError\<close>.\<close>

definition replace_z :: "string \<Rightarrow> string" where
  "replace_z s = concat (map (\<lambda>c. if c = CHR ''Z'' then ''+00:00'' else [c]) s)"

definition parse_iso :: "(string \<Rightarrow> time option) \<Rightarrow> string \<Rightarrow> time option option" where
  "parse_iso from_iso v = (if v = [] then Some None else map_option Some (from_iso (replace_z v)))"

type_synonym query = "(string \<times> string) list"

definition q_str :: "query \<Rightarrow> string \<Rightarrow> string" where
  "q_str q k = (case map_of q k of Some v \<Rightarrow> v | None \<Rightarrow> [])"

definition q_nat :: "query \<Rightarrow> string \<Rightarrow> nat \<Rightarrow> nat" where
  "q_nat q k d = (case map_of q k of Some v \<Rightarrow> int_of_str v | None \<Rightarrow> d)"

definition list_query :: "(string \<Rightarrow> time option) \<Rightarrow> query \<Rightarrow> (list_filter \<times> nat \<times> nat) option" where
  "list_query from_iso q = (case (all_some (map (enum_of status_name all_statuses) (split_csv (q_str q ''status''))),
       all_some (map (enum_of pp_name all_pp) (split_csv (q_str q ''post_processing_status''))),
       parse_iso from_iso (q_str q ''created_after''), parse_iso from_iso (q_str q ''created_before'')) of
     (Some ss, Some ps, Some a, Some b) \<Rightarrow> Some (\<lparr>q_statuses = ss, q_pp_statuses = ps, q_after = a, q_before = b,
       q_idem = (if q_str q ''idempotency_key'' = [] then None else Some (q_str q ''idempotency_key''))\<rparr>, q_nat q ''limit'' 50, q_nat q ''offset'' 0)
   | _ \<Rightarrow> None)"

definition list_http :: "(problem \<Rightarrow> nat) \<Rightarrow> (string \<Rightarrow> time option) \<Rightarrow> string \<Rightarrow> query \<Rightarrow> table \<Rightarrow> (extraction_dto list \<times> nat) web_answer" where
  "list_http respond from_iso why q T = (case list_query from_iso q of None \<Rightarrow> advised respond (ValueExn why)
   | Some (f, cap, off) \<Rightarrow> Answered 200 (list_handle f cap off T))"

section \<open>Properties\<close>

lemma extract_gated:
  "enforce_size_limits m (rq_files q) = Some g \<Longrightarrow> extract_http texts m why h q = Some (gate_problem m why g)"
  by (simp add: extract_http_def)

lemma extract_rejected:
  "enforce_size_limits m (rq_files q) = None \<Longrightarrow> \<not> vr_ok (validate_http q) \<Longrightarrow>
     extract_http texts m why h q = Some (Problem 422 (http_problem_with_payload ''validation_failed'' ''Request failed semantic validation''
         (counted_issues (validate_request True q) ''the pipeline'') (report_payload texts (validate_request True q))))"
  by (simp add: extract_http_def validate_http_def Let_def)

lemma extract_handled:
  "enforce_size_limits m (rq_files q) = None \<Longrightarrow> vr_ok (validate_http q) \<Longrightarrow>
     extract_http texts m why h q = (case h q of Handled r \<Rightarrow> Some (Answered 200 r)
         | HandlerTimedOut msg \<Rightarrow> Some (Problem 408 (http_problem ''timeout'' ''Extraction timed out'' msg)) | HandlerRaised \<Rightarrow> None)"
  by (simp add: extract_http_def validate_http_def Let_def)


end
