(* ===== verification/Postprocess.thy ===== *)
theory Postprocess
  imports FieldCheck
begin

text \<open>
  From the answer of the extraction model to the extraction tree (\<open>core/services/extraction\<close>): the
  coercions of \<open>schema.py\<close> and \<open>postprocess.py\<close>, and the attribute names of the output models. What
  pydantic accepts as a number or as nested fields, and \<open>str()\<close> of a nested value, are arguments.
\<close>

section \<open>Numbers\<close>

text \<open>\<open>float(i)\<close> of an integer: 53 significant bits, rounded to nearest, ties to even.\<close>

function extra_bits :: "nat \<Rightarrow> nat" where
  "extra_bits a = (if a < 2 ^ 53 then 0 else Suc (extra_bits (a div 2)))"
  by pat_completeness auto
termination by (relation "measure id") auto

declare extra_bits.simps [simp del]

definition round_half_even :: "nat \<Rightarrow> nat \<Rightarrow> nat" where
  "round_half_even a d = (let q = a div d; r = a mod d in if d < 2 * r \<or> d = 2 * r \<and> odd q then q + 1 else q)"

definition float_of_int :: "int \<Rightarrow> int" where
  "float_of_int i = (let a = nat \<bar>i\<bar>; d = 2 ^ extra_bits a in sgn i * int (round_half_even a d * d))"

text \<open>\<open>float(v)\<close> of a dynamic value.\<close>

definition pyfloat_of :: "pyval \<Rightarrow> pyfloat res" where
  "pyfloat_of v = (case v of
     PFloat f \<Rightarrow> Inr f
   | PInt i \<Rightarrow> (if \<bar>of_int i\<bar> < float_limit then Inr (Fin (of_int (float_of_int i))) else Inl OverflowErr)
   | PBool b \<Rightarrow> Inr (Fin (if b then 1 else 0))
   | PStr s \<Rightarrow> (case float_of_str s of Some f \<Rightarrow> Inr f | None \<Rightarrow> Inl ValueErr)
   | _ \<Rightarrow> Inl TypeErr)"

definition truncated :: "rat \<Rightarrow> int" where
  "truncated q = (if q < 0 then - \<lfloor>- q\<rfloor> else \<lfloor>q\<rfloor>)"

text \<open>\<open>int(f)\<close>.\<close>

definition int_of_float :: "pyfloat \<Rightarrow> int res" where
  "int_of_float f = (case f of Fin q \<Rightarrow> Inr (truncated q) | NaN \<Rightarrow> Inl ValueErr | _ \<Rightarrow> Inl OverflowErr)"

text \<open>\<open>max(0.0, min(1.0, f))\<close>: a NaN is one.\<close>

definition clamp_float :: "pyfloat \<Rightarrow> rat" where
  "clamp_float f = (case f of Fin q \<Rightarrow> max 0 (min 1 q) | NegInf \<Rightarrow> 0 | _ \<Rightarrow> 1)"

section \<open>Coercions\<close>

record payload_lib =
  pa_str :: "pyval \<Rightarrow> string"
  pa_lax_float :: "pyval \<Rightarrow> pyfloat option"
  pa_lax_int :: "pyval \<Rightarrow> bool"
  pa_fields :: "pyval list \<Rightarrow> xfield list option"

definition str_of_val :: "payload_lib \<Rightarrow> pyval \<Rightarrow> string" where
  "str_of_val L v = (case v of PNone \<Rightarrow> ''None'' | PStr s \<Rightarrow> s | PInt i \<Rightarrow> str_of_int i
     | PBool b \<Rightarrow> (if b then ''True'' else ''False'') | _ \<Rightarrow> pa_str L v)"

text \<open>A \<open>ValueError\<close> or \<open>TypeError\<close> gives \<open>None\<close>; others get through.\<close>

definition value_or_none :: "pyval res \<Rightarrow> pyval res" where
  "value_or_none r = (case r of Inl ValueErr \<Rightarrow> Inr PNone | Inl TypeErr \<Rightarrow> Inr PNone | _ \<Rightarrow> r)"

definition coerce_scalar :: "payload_lib \<Rightarrow> field_type \<Rightarrow> pyval \<Rightarrow> pyval res" where
  "coerce_scalar L t raw = (if raw = PNone \<or> raw = PStr [] then Inr PNone
     else value_or_none (case t of
       T_STRING \<Rightarrow> Inr (PStr (str_of_val L raw))
     | T_NUMBER \<Rightarrow> (case pyfloat_of raw of Inl e \<Rightarrow> Inl e | Inr f \<Rightarrow> Inr (PFloat f))
     | T_INTEGER \<Rightarrow> (case pyfloat_of raw of Inl e \<Rightarrow> Inl e | Inr f \<Rightarrow>
         (case int_of_float f of Inl e \<Rightarrow> Inl e | Inr i \<Rightarrow> Inr (PInt i)))
     | T_BOOLEAN \<Rightarrow> (case raw of
         PStr s \<Rightarrow> Inr (PBool (py_lower (py_strip s) \<in> {''true'', ''yes'', ''1'', ''t'', ''y''}))
       | _ \<Rightarrow> Inr (PBool (truthy raw)))
     | _ \<Rightarrow> Inr raw))"

definition fresh_box :: "rat \<Rightarrow> rat \<Rightarrow> rat \<Rightarrow> rat \<Rightarrow> bounding_box" where
  "fresh_box x0 y0 x1 y1 = \<lparr>bb_xmin = x0, bb_ymin = y0, bb_xmax = x1, bb_ymax = y1, bb_quality = None, bb_score = 0, bb_source = None, bb_refinement = None\<rparr>"

definition raw_coord :: "payload_lib \<Rightarrow> (string \<times> pyval) list \<Rightarrow> string \<Rightarrow> pyfloat option" where
  "raw_coord L kvs k = (case map_of kvs k of None \<Rightarrow> Some (Fin 0) | Some v \<Rightarrow> pa_lax_float L v)"

text \<open>A dict is validated as a raw box; anything else but \<open>None\<close> has no coordinates.\<close>

definition clamp_bbox :: "payload_lib \<Rightarrow> pyval \<Rightarrow> bounding_box option" where
  "clamp_bbox L raw = (case raw of PDict kvs \<Rightarrow>
     (case (raw_coord L kvs ''xmin'', raw_coord L kvs ''ymin'', raw_coord L kvs ''xmax'', raw_coord L kvs ''ymax'') of
       (Some a, Some b, Some c, Some d) \<Rightarrow>
         (if \<not> (case map_of kvs ''page'' of None \<Rightarrow> True | Some v \<Rightarrow> pa_lax_int L v) then None
          else (let xmin = clamp_float a; ymin = clamp_float b; xmax = clamp_float c; ymax = clamp_float d in
            if xmax \<le> xmin \<or> ymax \<le> ymin then None else Some (fresh_box xmin ymin xmax ymax)))
     | _ \<Rightarrow> None)
   | _ \<Rightarrow> None)"

definition clamp_conf :: "pyval \<Rightarrow> rat res" where
  "clamp_conf raw = (case pyfloat_of raw of Inr f \<Rightarrow> Inr (clamp_float f) | Inl OverflowErr \<Rightarrow> Inl OverflowErr | Inl _ \<Rightarrow> Inr 0)"

definition int_or_none :: "pyval \<Rightarrow> int option" where
  "int_or_none raw = (case raw of
     PInt i \<Rightarrow> if 1 \<le> i then Some i else None
   | PStr s \<Rightarrow> if s \<noteq> [] \<and> list_all is_digit s \<and> 1 \<le> int_of_str s then Some (int (int_of_str s)) else None
   | _ \<Rightarrow> None)"

definition maybe_str :: "pyval \<Rightarrow> string option" where
  "maybe_str raw = (case raw of PStr s \<Rightarrow> if py_strip s = [] then None else Some (py_strip s) | _ \<Rightarrow> None)"

section \<open>Fields\<close>

text \<open>What \<open>ExtractedField\<close> accepts as a value; \<open>None\<close> is a validation error, a \<open>ValueError\<close>.\<close>

definition accepted_value :: "payload_lib \<Rightarrow> pyval \<Rightarrow> xvalue option" where
  "accepted_value L v = (case v of PNone \<Rightarrow> Some VNone | PBool b \<Rightarrow> Some (VBool b) | PInt i \<Rightarrow> Some (VInt i) | PFloat f \<Rightarrow> Some (VFloat f)
     | PStr s \<Rightarrow> Some (VStr s) | PList vs \<Rightarrow> map_option VList (pa_fields L vs) | PDict _ \<Rightarrow> None)"

definition get_default :: "(string \<times> pyval) list \<Rightarrow> string \<Rightarrow> pyval \<Rightarrow> pyval" where
  "get_default kvs k d = (case map_of kvs k of Some v \<Rightarrow> v | None \<Rightarrow> d)"

definition row_items :: "field_spec \<Rightarrow> field_spec list" where
  "row_items sp = (case fs_items sp of None \<Rightarrow> [] | Some it \<Rightarrow>
     (if fs_type it = T_OBJECT then (case fs_fields it of Some (f # fs) \<Rightarrow> f # fs | _ \<Rightarrow> [it]) else [it]))"

definition scalar_from_payload :: "payload_lib \<Rightarrow> field_spec \<Rightarrow> (string \<times> pyval) list \<Rightarrow> xfield res" where
  "scalar_from_payload L sp kvs = (case coerce_scalar L (fs_type sp) (dict_get kvs ''value'') of Inl e \<Rightarrow> Inl e
   | Inr v \<Rightarrow> (case clamp_conf (get_default kvs ''confidence'' (PFloat (Fin 0))) of Inl e \<Rightarrow> Inl e
     | Inr conf \<Rightarrow> (let page = (if v = PNone then None else int_or_none (dict_get kvs ''page''));
                     box = (if v = PNone then None else clamp_bbox L (dict_get kvs ''bbox'')) in
       (case accepted_value L v of None \<Rightarrow> Inl ValueErr
       | Some x \<Rightarrow> Inr (XField ((plain_meta (fs_name sp))\<lparr>xm_pages := (case page of None \<Rightarrow> [] | Some p \<Rightarrow> [p]),
           xm_confidence := conf, xm_bbox := box, xm_notes := maybe_str (dict_get kvs ''notes'')\<rparr>) x)))))"

text \<open>\<open>sorted\<close> of a set.\<close>

definition sorted_pages :: "int list \<Rightarrow> int list" where
  "sorted_pages ps = sort (remdups ps)"

text \<open>The columns of a row, with the pages seen so far in the array.\<close>

fun row_fields :: "payload_lib \<Rightarrow> (string \<times> pyval) list \<Rightarrow> field_spec list \<Rightarrow> int list \<Rightarrow> (xfield list \<times> int list) res" where
  "row_fields L kvs [] ps = Inr ([], ps)"
| "row_fields L kvs (it # its) ps = (case dict_get kvs (fs_name it) of
     PDict p \<Rightarrow> (case scalar_from_payload L it p of Inl e \<Rightarrow> Inl e
       | Inr f \<Rightarrow> (case row_fields L kvs its (ps @ xm_pages (xf_meta f)) of Inl e \<Rightarrow> Inl e | Inr (fs, ps') \<Rightarrow> Inr (f # fs, ps')))
   | _ \<Rightarrow> (case row_fields L kvs its ps of Inl e \<Rightarrow> Inl e | Inr (fs, ps') \<Rightarrow> Inr (XField (plain_meta (fs_name it)) VNone # fs, ps')))"

definition row_name :: "nat \<Rightarrow> string" where
  "row_name i = ''row_'' @ str_of_nat (i + 1)"

fun array_rows :: "payload_lib \<Rightarrow> field_spec list \<Rightarrow> nat \<Rightarrow> int list \<Rightarrow> pyval list \<Rightarrow> (xfield list \<times> int list) res" where
  "array_rows L its i ps [] = Inr ([], ps)"
| "array_rows L its i ps (r # rs) = (case r of
     PDict kvs \<Rightarrow> (case row_fields L kvs its ps of Inl e \<Rightarrow> Inl e
       | Inr (fs, ps') \<Rightarrow> (case array_rows L its (Suc i) ps' rs of Inl e \<Rightarrow> Inl e
         | Inr (rows, ps'') \<Rightarrow> Inr (XField ((plain_meta (row_name i))\<lparr>xm_pages := sorted_pages ps'\<rparr>) (VList fs) # rows, ps'')))
   | _ \<Rightarrow> array_rows L its (Suc i) ps rs)"

text \<open>Iterating over \<open>v or []\<close>; the elements of a string or dict are strings.\<close>

definition iterated :: "pyval \<Rightarrow> pyval list res" where
  "iterated v = (if \<not> truthy v then Inr [] else (case v of PList vs \<Rightarrow> Inr vs | PStr s \<Rightarrow> Inr (map (\<lambda>c. PStr [c]) s)
     | PDict kvs \<Rightarrow> Inr (map (\<lambda>kv. PStr (fst kv)) kvs) | _ \<Rightarrow> Inl TypeErr))"

definition page_number :: "pyval \<Rightarrow> int list" where
  "page_number v = (case v of PInt i \<Rightarrow> if 1 \<le> i then [i] else [] | PBool b \<Rightarrow> if b then [1] else [] | _ \<Rightarrow> [])"

definition array_from_payload :: "payload_lib \<Rightarrow> field_spec \<Rightarrow> (string \<times> pyval) list \<Rightarrow> xfield res" where
  "array_from_payload L sp kvs = (case iterated (dict_get kvs ''rows'') of Inl e \<Rightarrow> Inl e
   | Inr rs \<Rightarrow> (case array_rows L (row_items sp) 0 [] rs of Inl e \<Rightarrow> Inl e
     | Inr (rows, ps) \<Rightarrow> (case iterated (dict_get kvs ''pages'') of Inl e \<Rightarrow> Inl e
       | Inr qs \<Rightarrow> (case clamp_conf (get_default kvs ''confidence'' (PFloat (Fin 0))) of Inl e \<Rightarrow> Inl e
         | Inr conf \<Rightarrow> Inr (XField ((plain_meta (fs_name sp))\<lparr>xm_pages := sorted_pages (concat (map page_number qs) @ ps),
             xm_confidence := conf, xm_notes := maybe_str (dict_get kvs ''notes'')\<rparr>) (VList rows))))))"

definition dict_of_val :: "pyval \<Rightarrow> (string \<times> pyval) list" where
  "dict_of_val v = (case v of PDict kvs \<Rightarrow> kvs | _ \<Rightarrow> [])"

definition normalise_field :: "payload_lib \<Rightarrow> (string \<times> pyval) list \<Rightarrow> field_spec \<Rightarrow> xfield res" where
  "normalise_field L kvs sp = (let p = dict_of_val (dict_get kvs (fs_name sp)) in
     if fs_type sp = T_ARRAY then array_from_payload L sp p else scalar_from_payload L sp p)"

definition normalise_doc :: "payload_lib \<Rightarrow> (string \<times> pyval) list \<Rightarrow> doc_type \<Rightarrow> xgroup list res" where
  "normalise_doc L out doc = map_res (\<lambda>g. case map_res (normalise_field L (dict_of_val (dict_get out (fg_name g)))) (fg_fields g) of
     Inl e \<Rightarrow> Inl e | Inr fs \<Rightarrow> Inr \<lparr>xg_name = fg_name g, xg_fields = fs\<rparr>) (dt_groups doc)"

section \<open>The shape of the tree\<close>

definition leaf_made :: "field_spec \<Rightarrow> xfield \<Rightarrow> bool" where
  "leaf_made sp f \<longleftrightarrow> xf_name f = fs_name sp \<and> unit_interval (xm_confidence (xf_meta f))
     \<and> list_all (\<lambda>p. 1 \<le> p) (xm_pages (xf_meta f)) \<and> length (xm_pages (xf_meta f)) \<le> 1
     \<and> (case xm_bbox (xf_meta f) of None \<Rightarrow> True | Some b \<Rightarrow> bbox_valid b)
     \<and> (if xf_value f = VNone then xm_pages (xf_meta f) = [] \<and> xm_bbox (xf_meta f) = None else type_ok (fs_type sp) (xf_value f))"

definition row_made :: "field_spec list \<Rightarrow> xfield \<Rightarrow> bool" where
  "row_made its r = (case xf_value r of VList fs \<Rightarrow> list_all2 leaf_made its fs | _ \<Rightarrow> False)"

definition field_made :: "field_spec \<Rightarrow> xfield \<Rightarrow> bool" where
  "field_made sp f = (if fs_type sp = T_ARRAY
     then xf_name f = fs_name sp \<and> unit_interval (xm_confidence (xf_meta f)) \<and> xm_bbox (xf_meta f) = None
       \<and> sorted (xm_pages (xf_meta f)) \<and> list_all (\<lambda>p. 1 \<le> p) (xm_pages (xf_meta f))
       \<and> (case xf_value f of VList rows \<Rightarrow> list_all (row_made (row_items sp)) rows | _ \<Rightarrow> False)
     else leaf_made sp f)"

lemma clamp_float_unit: "unit_interval (clamp_float f)"
  by (simp add: clamp_float_def unit_interval_def split: pyfloat.split)

lemma clamp_conf_unit: "clamp_conf raw = Inr c \<Longrightarrow> unit_interval c"
  by (auto simp: clamp_conf_def clamp_float_unit unit_interval_def [of 0] split: sum.splits pyexn.splits)

lemma clamp_bbox_valid: "clamp_bbox L raw = Some b \<Longrightarrow> bbox_valid b"
  using clamp_float_unit by (auto simp: clamp_bbox_def Let_def bbox_valid_def fresh_box_def split: pyval.splits option.splits prod.splits if_splits)

lemma int_or_none_pos: "int_or_none raw = Some p \<Longrightarrow> 1 \<le> p"
  by (auto simp: int_or_none_def split: pyval.splits if_splits)

lemma coerce_scalar_type:
  "coerce_scalar L t raw = Inr v \<Longrightarrow> v = PNone \<or> (case t of T_STRING \<Rightarrow> \<exists>s. v = PStr s | T_NUMBER \<Rightarrow> \<exists>f. v = PFloat f
     | T_INTEGER \<Rightarrow> \<exists>i. v = PInt i | T_BOOLEAN \<Rightarrow> \<exists>b. v = PBool b | _ \<Rightarrow> True)"
  by (cases t) (auto simp: coerce_scalar_def value_or_none_def split: if_splits sum.splits pyexn.splits pyval.splits)

lemma accepted_value_type: "coerce_scalar L t raw = Inr v \<Longrightarrow> accepted_value L v = Some x \<Longrightarrow> if x = VNone then v = PNone else type_ok t x"
  using coerce_scalar_type [of L t raw v] by (cases t) (auto simp: accepted_value_def type_ok_def split: pyval.splits)

lemma scalar_made: "scalar_from_payload L sp kvs = Inr f \<Longrightarrow> leaf_made sp f"
  unfolding scalar_from_payload_def
  by (auto simp: leaf_made_def Let_def plain_meta_def clamp_conf_unit dest: clamp_bbox_valid int_or_none_pos dest!: accepted_value_type
      split: sum.splits option.splits if_splits)

lemma scalar_pages_pos: "scalar_from_payload L sp kvs = Inr f \<Longrightarrow> list_all (\<lambda>p. 1 \<le> p) (xm_pages (xf_meta f))"
  using scalar_made by (auto simp: leaf_made_def)

lemma blank_made: "leaf_made sp (XField (plain_meta (fs_name sp)) VNone)"
  by (simp add: leaf_made_def plain_meta_def unit_interval_def)

lemma row_fields_made:
  "row_fields L kvs its ps = Inr (fs, ps') \<Longrightarrow> list_all (\<lambda>p. 1 \<le> p) ps \<Longrightarrow> list_all2 leaf_made its fs \<and> list_all (\<lambda>p. 1 \<le> p) ps'"
proof (induction its arbitrary: ps fs)
  case (Cons it its)
  show ?case
  proof (cases "\<exists>p. dict_get kvs (fs_name it) = PDict p")
    case True
    then obtain p f fs2 where p: "dict_get kvs (fs_name it) = PDict p" "scalar_from_payload L it p = Inr f"
        "row_fields L kvs its (ps @ xm_pages (xf_meta f)) = Inr (fs2, ps')" "fs = f # fs2"
      using Cons.prems(1) by (auto split: sum.splits)
    from Cons.IH [OF p(3)] Cons.prems(2) scalar_pages_pos [OF p(2)] scalar_made [OF p(2)] p(4) show ?thesis by simp
  next
    case False
    then obtain fs2 where "row_fields L kvs its ps = Inr (fs2, ps')" "fs = XField (plain_meta (fs_name it)) VNone # fs2"
      using Cons.prems(1) by (auto split: pyval.splits sum.splits)
    with Cons.IH [OF this(1) Cons.prems(2)] blank_made show ?thesis by simp
  qed
qed simp

lemma array_rows_made:
  "array_rows L its i ps rs = Inr (rows, ps') \<Longrightarrow> list_all (\<lambda>p. 1 \<le> p) ps \<Longrightarrow> list_all (row_made its) rows \<and> list_all (\<lambda>p. 1 \<le> p) ps'"
proof (induction rs arbitrary: i ps rows)
  case (Cons r rs)
  show ?case
  proof (cases "\<exists>kvs. r = PDict kvs")
    case True
    then obtain kvs fs ps1 rows2 where r: "r = PDict kvs" "row_fields L kvs its ps = Inr (fs, ps1)"
        "array_rows L its (Suc i) ps1 rs = Inr (rows2, ps')" "rows = XField ((plain_meta (row_name i))\<lparr>xm_pages := sorted_pages ps1\<rparr>) (VList fs) # rows2"
      using Cons.prems(1) by (auto split: sum.splits)
    from row_fields_made [OF r(2) Cons.prems(2)] Cons.IH [OF r(3)] r(4) show ?thesis by (simp add: row_made_def)
  next
    case False
    then have "array_rows L its (Suc i) ps rs = Inr (rows, ps')" using Cons.prems(1) by (auto split: pyval.splits)
    from Cons.IH [OF this Cons.prems(2)] show ?thesis .
  qed
qed simp

lemma page_number_pos: "p \<in> set (page_number v) \<Longrightarrow> 1 \<le> p"
  by (auto simp: page_number_def split: pyval.splits if_splits)

lemma array_made: "fs_type sp = T_ARRAY \<Longrightarrow> array_from_payload L sp kvs = Inr f \<Longrightarrow> field_made sp f"
proof -
  assume t: "fs_type sp = T_ARRAY" and a: "array_from_payload L sp kvs = Inr f"
  from a obtain rs rows ps qs conf where r: "array_rows L (row_items sp) 0 [] rs = Inr (rows, ps)"
      "clamp_conf (get_default kvs ''confidence'' (PFloat (Fin 0))) = Inr conf"
      "f = XField ((plain_meta (fs_name sp))\<lparr>xm_pages := sorted_pages (concat (map page_number qs) @ ps), xm_confidence := conf,
         xm_notes := maybe_str (dict_get kvs ''notes'')\<rparr>) (VList rows)"
    by (auto simp: array_from_payload_def split: sum.splits prod.splits)
  from array_rows_made [OF r(1)] clamp_conf_unit [OF r(2)] t r(3) show ?thesis
    by (auto simp: field_made_def plain_meta_def sorted_pages_def list_all_iff dest: page_number_pos)
qed

lemma map_res_list_all2: "map_res f xs = Inr ys \<Longrightarrow> list_all2 (\<lambda>x y. f x = Inr y) xs ys"
  by (induction xs arbitrary: ys) (auto split: sum.splits)

text \<open>C9: the tree made from an answer. Whatever the model answers, if the answer is taken the tree has the groups and
  fields of the schema, in order; confidences are in the unit interval, boxes are rectangles on the
  page, pages count from one, a field without value has neither page nor box, and every scalar has the
  type its schema asks for, so the type check of the field validator never fails on it.\<close>

theorem normalised_shape:
  "(case normalise_doc L out doc of Inl e \<Rightarrow> True
    | Inr gs \<Rightarrow> list_all2 (\<lambda>g x. xg_name x = fg_name g \<and> list_all2 field_made (fg_fields g) (xg_fields x)) (dt_groups doc) gs)"
proof (cases "normalise_doc L out doc")
  case (Inr gs)
  have f: "field_made sp f" if "normalise_field L kvs sp = Inr f" for kvs sp f
    using that array_made [of sp L] scalar_made [of L sp] by (auto simp: normalise_field_def Let_def field_made_def split: if_splits)
  have g: "xg_name x = fg_name g \<and> list_all2 field_made (fg_fields g) (xg_fields x)"
    if "(case map_res (normalise_field L kvs) (fg_fields g) of Inl e \<Rightarrow> Inl e | Inr fs \<Rightarrow> Inr \<lparr>xg_name = fg_name g, xg_fields = fs\<rparr>) = Inr x" for kvs g x
    using that f by (auto dest!: map_res_list_all2 elim!: list_all2_mono split: sum.splits)
  from map_res_list_all2 [OF Inr [unfolded normalise_doc_def]] show ?thesis unfolding Inr sum.case
    by (rule list_all2_mono) (rule g)
qed simp

section \<open>Answers the output model accepts\<close>

text \<open>What pydantic leaves of a payload for a field: \<open>None\<close> or a value of its type. A field of type object or array in
  a scalar position takes any value; the tree takes no nested one.\<close>

definition value_fits :: "field_type \<Rightarrow> pyval \<Rightarrow> bool" where
  "value_fits t v = (v = PNone \<or> (case t of
     T_STRING \<Rightarrow> (case v of PStr _ \<Rightarrow> True | _ \<Rightarrow> False) | T_NUMBER \<Rightarrow> (case v of PFloat _ \<Rightarrow> True | _ \<Rightarrow> False)
   | T_INTEGER \<Rightarrow> (case v of PInt i \<Rightarrow> \<bar>of_int i\<bar> < float_limit | _ \<Rightarrow> False) | T_BOOLEAN \<Rightarrow> (case v of PBool _ \<Rightarrow> True | _ \<Rightarrow> False)
   | _ \<Rightarrow> (case v of PList _ \<Rightarrow> False | PDict _ \<Rightarrow> False | _ \<Rightarrow> True)))"

definition conf_fits :: "(string \<times> pyval) list \<Rightarrow> bool" where
  "conf_fits kvs = (case get_default kvs ''confidence'' (PFloat (Fin 0)) of PFloat _ \<Rightarrow> True | _ \<Rightarrow> False)"

definition scalar_fits :: "field_spec \<Rightarrow> (string \<times> pyval) list \<Rightarrow> bool" where
  "scalar_fits sp kvs \<longleftrightarrow> value_fits (fs_type sp) (dict_get kvs ''value'') \<and> conf_fits kvs"

definition row_fits :: "field_spec list \<Rightarrow> pyval \<Rightarrow> bool" where
  "row_fits its r = (case r of PDict kvs \<Rightarrow> list_all (\<lambda>it. scalar_fits it (dict_of_val (dict_get kvs (fs_name it)))) its | _ \<Rightarrow> True)"

definition list_fits :: "(pyval \<Rightarrow> bool) \<Rightarrow> pyval \<Rightarrow> bool" where
  "list_fits P v = (case v of PNone \<Rightarrow> True | PList vs \<Rightarrow> list_all P vs | _ \<Rightarrow> False)"

definition field_fits :: "(string \<times> pyval) list \<Rightarrow> field_spec \<Rightarrow> bool" where
  "field_fits kvs sp = (let p = dict_of_val (dict_get kvs (fs_name sp)) in
     if fs_type sp = T_ARRAY then list_fits (row_fits (row_items sp)) (dict_get p ''rows'') \<and> list_fits (\<lambda>_. True) (dict_get p ''pages'') \<and> conf_fits p
     else scalar_fits sp p)"

definition answer_fits :: "(string \<times> pyval) list \<Rightarrow> doc_type \<Rightarrow> bool" where
  "answer_fits out doc = list_all (\<lambda>g. list_all (field_fits (dict_of_val (dict_get out (fg_name g)))) (fg_fields g)) (dt_groups doc)"

lemma conf_fits_clamp: "conf_fits kvs \<Longrightarrow> \<exists>c. clamp_conf (get_default kvs ''confidence'' (PFloat (Fin 0))) = Inr c"
  by (auto simp: conf_fits_def clamp_conf_def pyfloat_of_def split: pyval.splits)

lemma value_fits_coerce: "value_fits t v \<Longrightarrow> t = T_INTEGER \<or> (\<exists>w x. coerce_scalar L t v = Inr w \<and> accepted_value L w = Some x)"
  by (cases t; cases v) (auto simp: value_fits_def coerce_scalar_def value_or_none_def accepted_value_def pyfloat_of_def str_of_val_def split: option.splits)

lemma integer_fits_coerce: "value_fits T_INTEGER v \<Longrightarrow> \<exists>w x. coerce_scalar L T_INTEGER v = Inr w \<and> accepted_value L w = Some x"
  by (cases v) (auto simp: value_fits_def coerce_scalar_def value_or_none_def accepted_value_def pyfloat_of_def int_of_float_def)

lemma scalar_total: "scalar_fits sp kvs \<Longrightarrow> \<exists>f. scalar_from_payload L sp kvs = Inr f"
proof -
  assume f: "scalar_fits sp kvs"
  obtain w x where "coerce_scalar L (fs_type sp) (dict_get kvs ''value'') = Inr w" "accepted_value L w = Some x"
    using f value_fits_coerce [of "fs_type sp" _ L] integer_fits_coerce [of _ L] unfolding scalar_fits_def by metis
  with f conf_fits_clamp [of kvs] show ?thesis unfolding scalar_fits_def by (auto simp: scalar_from_payload_def Let_def)
qed

lemma row_fields_total:
  "list_all (\<lambda>it. scalar_fits it (dict_of_val (dict_get kvs (fs_name it)))) its \<Longrightarrow> \<exists>r. row_fields L kvs its ps = Inr r"
proof (induction its arbitrary: ps)
  case (Cons it its)
  show ?case
  proof (cases "dict_get kvs (fs_name it)")
    case (PDict p)
    with Cons.prems obtain f where f: "scalar_from_payload L it p = Inr f" using scalar_total [of it p L] by (auto simp: dict_of_val_def)
    from Cons.IH [of "ps @ xm_pages (xf_meta f)"] Cons.prems PDict f show ?thesis by (auto split: sum.split)
  qed (use Cons.IH [of ps] Cons.prems in \<open>auto split: sum.split\<close>)
qed simp

lemma array_rows_total: "list_all (row_fits its) rs \<Longrightarrow> \<exists>r. array_rows L its i ps rs = Inr r"
proof (induction rs arbitrary: i ps)
  case (Cons r rs)
  show ?case
  proof (cases r)
    case (PDict kvs)
    with Cons.prems obtain fs ps1 where f: "row_fields L kvs its ps = Inr (fs, ps1)" using row_fields_total [of kvs its L ps] by (auto simp: row_fits_def)
    from Cons.IH [of "Suc i" ps1] Cons.prems PDict f show ?thesis by (auto split: sum.split)
  qed (use Cons.IH [of "Suc i" ps] Cons.prems in auto)
qed simp

lemma list_fits_iterated: "list_fits P v \<Longrightarrow> \<exists>vs. iterated v = Inr vs \<and> list_all P vs"
  by (auto simp: list_fits_def iterated_def split: pyval.splits)

lemma array_total:
  assumes "list_fits (row_fits (row_items sp)) (dict_get p ''rows'')" "list_fits (\<lambda>_. True) (dict_get p ''pages'')" "conf_fits p"
  shows "\<exists>f. array_from_payload L sp p = Inr f"
proof -
  obtain rs where rs: "iterated (dict_get p ''rows'') = Inr rs" "list_all (row_fits (row_items sp)) rs" using list_fits_iterated [OF assms(1)] by blast
  obtain r where "array_rows L (row_items sp) 0 [] rs = Inr r" using array_rows_total [OF rs(2)] by blast
  with rs(1) list_fits_iterated [OF assms(2)] conf_fits_clamp [OF assms(3)] show ?thesis
    by (cases r) (auto simp: array_from_payload_def)
qed

lemma map_res_total: "(\<And>x. x \<in> set xs \<Longrightarrow> \<exists>y. f x = Inr y) \<Longrightarrow> \<exists>ys. map_res f xs = Inr ys"
  by (induction xs) (fastforce split: sum.split)+


text \<open>An object field answered with an object is refused.\<close>

lemma object_answer_refused:
  "fs_type sp = T_OBJECT \<Longrightarrow> dict_get kvs ''value'' = PDict d \<Longrightarrow> conf_fits kvs \<Longrightarrow> scalar_from_payload L sp kvs = Inl ValueErr"
  using conf_fits_clamp [of kvs] by (auto simp: scalar_from_payload_def coerce_scalar_def value_or_none_def accepted_value_def Let_def)

section \<open>Integers\<close>

lemma extra_bits_small: "a < 2 ^ 53 \<Longrightarrow> extra_bits a = 0"
  by (simp add: extra_bits.simps)

lemma float_of_int_exact: "\<bar>i\<bar> \<le> 2 ^ 53 \<Longrightarrow> float_of_int i = i"
proof -
  assume i: "\<bar>i\<bar> \<le> 2 ^ 53"
  show ?thesis
  proof (cases "\<bar>i\<bar> = 2 ^ 53")
    case True
    have e: "extra_bits 9007199254740992 = 1" by (simp add: extra_bits.simps)
    have "nat \<bar>i\<bar> = 9007199254740992" using True by simp
    then have "float_of_int i = sgn i * int (round_half_even 9007199254740992 2 * 2)" by (simp add: float_of_int_def Let_def e)
    also have "round_half_even 9007199254740992 2 = 4503599627370496" by (simp add: round_half_even_def)
    finally show ?thesis using True by (simp add: sgn_if split: if_splits)
  next
    case False
    with i have "nat \<bar>i\<bar> < 2 ^ 53" by (simp add: nat_less_iff)
    then show ?thesis by (simp add: float_of_int_def extra_bits_small round_half_even_def sgn_mult_abs)
  qed
qed

lemma truncated_int [simp]: "truncated (of_int i) = i"
  by (simp add: truncated_def)

lemma small_below_limit: "\<bar>i\<bar> \<le> 2 ^ 53 \<Longrightarrow> \<bar>of_int i :: rat\<bar> < float_limit"
proof -
  assume "\<bar>i\<bar> \<le> 2 ^ 53"
  then have "\<bar>of_int i :: rat\<bar> \<le> of_int (2 ^ 53)" by (simp only: of_int_abs [symmetric] of_int_le_iff)
  also have "\<dots> < float_limit" by (simp add: float_limit_def)
  finally show ?thesis .
qed

text \<open>Integer fields. An integer of at most 53 bits comes through; coercion goes through a float, so a longer one
  may not.\<close>

theorem integer_exact:
  assumes "\<bar>i\<bar> \<le> 2 ^ 53"
  shows "coerce_scalar L T_INTEGER (PInt i) = Inr (PInt i)"
  using small_below_limit [OF assms] float_of_int_exact [OF assms]
  by (simp add: coerce_scalar_def pyfloat_of_def int_of_float_def value_or_none_def)

definition strict_lib :: payload_lib where
  "strict_lib = \<lparr>pa_str = (\<lambda>_. []), pa_lax_float = (\<lambda>v. case v of PFloat f \<Rightarrow> Some f | _ \<Rightarrow> None),
     pa_lax_int = (\<lambda>v. case v of PInt _ \<Rightarrow> True | _ \<Rightarrow> False), pa_fields = (\<lambda>_. None)\<rparr>"

theorem integer_exact_witness: "coerce_scalar strict_lib T_INTEGER (PInt 9007199254740991) = Inr (PInt 9007199254740991)"
  by (rule integer_exact) simp

text \<open>A seventeen digit number loses its last digit.\<close>

lemma integer_digits_lost: "coerce_scalar L T_INTEGER (PInt 90071992547409931) = Inr (PInt 90071992547409936)"
proof -
  have "extra_bits 90071992547409931 = 4" by (simp add: extra_bits.simps)
  then have "float_of_int 90071992547409931 = 90071992547409936" by (simp add: float_of_int_def round_half_even_def)
  moreover have "\<bar>of_int 90071992547409931 :: rat\<bar> < float_limit" by (simp add: float_limit_def)
  ultimately show ?thesis
    by (simp add: coerce_scalar_def pyfloat_of_def int_of_float_def value_or_none_def truncated_def)
qed

section \<open>The pages of rows\<close>

fun pages_accumulate :: "int set \<Rightarrow> xfield list \<Rightarrow> bool" where
  "pages_accumulate ps [] = True"
| "pages_accumulate ps (r # rs) = (let qs = ps \<union> \<Union> (set (map (\<lambda>f. set (xm_pages (xf_meta f))) (rows_of (xf_value r)))) in
     set (xm_pages (xf_meta r)) = qs \<and> pages_accumulate qs rs)"

lemma row_fields_pages:
  "row_fields L kvs its ps = Inr (fs, ps') \<Longrightarrow> set ps' = set ps \<union> \<Union> (set (map (\<lambda>f. set (xm_pages (xf_meta f))) fs))"
proof (induction its arbitrary: ps fs)
  case (Cons it its)
  show ?case
  proof (cases "\<exists>p. dict_get kvs (fs_name it) = PDict p")
    case True
    then obtain p f fs2 where p: "row_fields L kvs its (ps @ xm_pages (xf_meta f)) = Inr (fs2, ps')" "fs = f # fs2"
      using Cons.prems(1) by (auto split: sum.splits)
    from Cons.IH [OF p(1)] p(2) show ?thesis by auto
  next
    case False
    then obtain fs2 where "row_fields L kvs its ps = Inr (fs2, ps')" "fs = XField (plain_meta (fs_name it)) VNone # fs2"
      using Cons.prems(1) by (auto split: pyval.splits sum.splits)
    with Cons.IH [OF this(1)] show ?thesis by (simp add: plain_meta_def)
  qed
qed simp

lemma set_sorted_pages [simp]: "set (sorted_pages ps) = set ps"
  by (simp add: sorted_pages_def)

lemma array_rows_accumulate: "array_rows L its i ps rs = Inr (rows, ps') \<Longrightarrow> pages_accumulate (set ps) rows"
proof (induction rs arbitrary: i ps rows)
  case (Cons r rs)
  show ?case
  proof (cases "\<exists>kvs. r = PDict kvs")
    case True
    then obtain kvs fs ps1 rows2 where r: "row_fields L kvs its ps = Inr (fs, ps1)"
        "array_rows L its (Suc i) ps1 rs = Inr (rows2, ps')" "rows = XField ((plain_meta (row_name i))\<lparr>xm_pages := sorted_pages ps1\<rparr>) (VList fs) # rows2"
      using Cons.prems(1) by (auto split: sum.splits)
    from row_fields_pages [OF r(1)] Cons.IH [OF r(2)] r(3) show ?thesis by (simp add: rows_of_def)
  next
    case False
    then have "array_rows L its (Suc i) ps rs = Inr (rows, ps')" using Cons.prems(1) by (auto split: pyval.splits)
    from Cons.IH [OF this] show ?thesis .
  qed
qed simp

text \<open>The pages of a row. The pages recorded for a row are those of its own values and of all rows before it.\<close>

theorem row_pages:
  "(case array_from_payload L sp kvs of Inl e \<Rightarrow> True | Inr f \<Rightarrow> pages_accumulate {} (rows_of (xf_value f)))"
  using array_rows_accumulate [of L "row_items sp" 0 "[]"]
  by (auto simp: array_from_payload_def rows_of_def split: sum.split)

section \<open>Attribute names of the output models\<close>

definition attr_char :: "char \<Rightarrow> char" where
  "attr_char c = (if is_digit c \<or> is_alpha c \<or> c = CHR ''_'' then c else CHR ''_'')"

definition safe_attr :: "string \<Rightarrow> string \<Rightarrow> string" where
  "safe_attr prefix name = (let t = strip_chars ''_'' (map attr_char name); cleaned = (if t = [] then prefix else t) in
     if is_digit (hd cleaned) then prefix @ ''_'' @ cleaned else cleaned)"

lemma fewer_longer:
  "attr \<in> set used \<Longrightarrow> length (filter (\<lambda>u. length attr + 1 \<le> length u) used) < length (filter (\<lambda>u. length attr \<le> length u) used)"
proof (induction used)
  case (Cons u us)
  have "length (filter (\<lambda>u. length attr + 1 \<le> length u) us) \<le> length (filter (\<lambda>u. length attr \<le> length u) us)"
    by (induction us) auto
  with Cons show ?case by auto
qed simp

text \<open>The loop that appends underscores until the name is not used.\<close>

function unused_attr :: "string list \<Rightarrow> string \<Rightarrow> string" where
  "unused_attr used attr = (if attr \<in> set used then unused_attr used (attr @ ''_'') else attr)"
  by pat_completeness auto

termination
  by (relation "measure (\<lambda>(used, attr). length (filter (\<lambda>u. length attr \<le> length u) used))") (use fewer_longer in auto)

declare unused_attr.simps [simp del]

fun attr_names :: "string \<Rightarrow> string list \<Rightarrow> string list \<Rightarrow> string list" where
  "attr_names prefix used [] = []"
| "attr_names prefix used (n # ns) = (let a = unused_attr used (safe_attr prefix n) in a # attr_names prefix (used @ [a]) ns)"

definition attr_ok :: "string \<Rightarrow> bool" where
  "attr_ok a \<longleftrightarrow> a \<noteq> [] \<and> is_alpha (hd a) \<and> list_all (\<lambda>c. is_alpha c \<or> is_digit c \<or> c = CHR ''_'') a"

lemma strip_chars_hd: "strip_chars cs s \<noteq> [] \<Longrightarrow> hd (strip_chars cs s) \<notin> set cs"
proof -
  let ?t = "dropWhile (\<lambda>c. c \<in> set cs) s"
  assume n: "strip_chars cs s \<noteq> []"
  have "rev ?t = takeWhile (\<lambda>c. c \<in> set cs) (rev ?t) @ dropWhile (\<lambda>c. c \<in> set cs) (rev ?t)" by simp
  then have z: "?t = strip_chars cs s @ rev (takeWhile (\<lambda>c. c \<in> set cs) (rev ?t))"
    unfolding strip_chars_def by (metis rev_append rev_rev_ident)
  then have "?t \<noteq> []" using n by (metis append_is_Nil_conv)
  moreover have "hd ?t = hd (strip_chars cs s)" using n z by (metis hd_append2)
  ultimately show ?thesis using hd_dropWhile [of "\<lambda>c. c \<in> set cs" s] by auto
qed

lemma strip_chars_subset: "set (strip_chars cs s) \<subseteq> set s"
  unfolding strip_chars_def by (auto dest!: set_dropWhileD)

lemma safe_attr_ok: "attr_ok prefix \<Longrightarrow> attr_ok (safe_attr prefix n)"
proof -
  assume p: "attr_ok prefix"
  let ?t = "strip_chars ''_'' (map attr_char n)"
  have chars: "list_all (\<lambda>c. is_alpha c \<or> is_digit c \<or> c = CHR ''_'') ?t"
    using strip_chars_subset [of "''_''" "map attr_char n"] by (auto simp: list_all_iff attr_char_def)
  show ?thesis
  proof (cases "?t = []")
    case True
    have "\<not> is_digit (hd prefix)" using p by (auto simp: attr_ok_def is_alpha_def is_digit_def is_upper_ascii_def is_lower_ascii_def)
    with True p show ?thesis by (simp add: safe_attr_def)
  next
    case False
    then have "hd ?t \<noteq> CHR ''_''" using strip_chars_hd [OF False] by simp
    moreover have "is_alpha (hd ?t) \<or> is_digit (hd ?t) \<or> hd ?t = CHR ''_''" using chars False by (simp add: list_all_iff)
    ultimately show ?thesis using False chars p by (auto simp: safe_attr_def Let_def attr_ok_def)
  qed
qed

lemma unused_attr_ok: "attr_ok a \<Longrightarrow> attr_ok (unused_attr used a) \<and> unused_attr used a \<notin> set used"
proof (induction used a rule: unused_attr.induct)
  case (1 used a)
  have "attr_ok (a @ ''_'')" using 1(2) by (auto simp: attr_ok_def)
  with 1 show ?case using unused_attr.simps [of used a] by (cases "a \<in> set used") auto
qed

lemma attr_names_spec: "attr_ok prefix \<Longrightarrow> distinct (attr_names prefix used ns) \<and> set (attr_names prefix used ns) \<inter> set used = {}
    \<and> list_all attr_ok (attr_names prefix used ns) \<and> length (attr_names prefix used ns) = length ns"
proof (induction ns arbitrary: used)
  case (Cons n ns)
  let ?a = "unused_attr used (safe_attr prefix n)"
  from Cons.IH [OF Cons.prems, of "used @ [?a]"] unused_attr_ok [OF safe_attr_ok [OF Cons.prems], of used n] show ?case
    by (auto simp: Let_def)
qed simp

text \<open>The attributes of the output models. Whatever the names in the schema, the search for an unused attribute ends,
  and the attributes are different identifiers, one per name.\<close>

theorem attribute_names:
  assumes "attr_ok prefix"
  shows "distinct (attr_names prefix [] ns) \<and> list_all attr_ok (attr_names prefix [] ns) \<and> length (attr_names prefix [] ns) = length ns"
  using attr_names_spec [OF assms, of "[]" ns] by blast

theorem attribute_names_witness: "distinct (attr_names ''f'' [] [''a b'', ''a_b'', ''1x'', ''''])"
proof -
  have "attr_ok ''f''" by code_simp
  from attribute_names [OF this] show ?thesis by blast
qed

section \<open>A concrete answer\<close>

definition plain_spec :: "string \<Rightarrow> field_type \<Rightarrow> field_spec option \<Rightarrow> field_spec list option \<Rightarrow> field_spec" where
  "plain_spec n t its fs = FieldSpec n t False None None None None None its fs []"

definition items_doc :: doc_type where
  "items_doc = \<lparr>dt_id = ''invoice'', dt_description = None, dt_groups = [\<lparr>fg_name = ''g'', fg_fields = [plain_spec ''number'' T_STRING None None,
     plain_spec ''items'' T_ARRAY (Some (plain_spec ''item'' T_OBJECT None (Some [plain_spec ''what'' T_STRING None None]))) None]\<rparr>], dt_visual_checks = []\<rparr>"

definition item_row :: "string \<Rightarrow> int \<Rightarrow> pyval" where
  "item_row s p = PDict [(''what'', PDict [(''value'', PStr s), (''page'', PInt p)])]"

definition items_answer :: "(string \<times> pyval) list" where
  "items_answer = [(''g'', PDict [(''number'', PDict [(''value'', PStr ''A1'')]), (''items'', PDict [(''rows'', PList [item_row ''x'' 1, item_row ''y'' 5])])])]"

lemma items_fit: "answer_fits items_answer items_doc"
  by code_simp


text \<open>The second row, whose one value is on page five, is on pages one and five.\<close>

lemma second_row_pages:
  "case normalise_doc strict_lib items_answer items_doc of Inl e \<Rightarrow> False | Inr gs \<Rightarrow>
     map (\<lambda>r. xm_pages (xf_meta r)) (rows_of (xf_value (xg_fields (hd gs) ! 1))) = [[1], [1, 5]]"
  by code_simp

end
