(* ===== verification/Extractor.thy ===== *)
theory Extractor
  imports Postprocess Agents
begin

text \<open>
  \<open>MultimodalExtractor\<close> (\<open>core/services/extraction/extractor.py\<close>): the call with its fallback model, the
  retry for empty arrays, the repair pass, and the texts cut to a length; \<open>slice_pdf\<close> and the loader. The
  models are an argument: what a model answers to a kind of call, \<open>None\<close> when the call raises.
\<close>

section \<open>Calls\<close>

datatype ask_kind = First_Pass | Retry_Arrays "string list" | Repair_Fields string

type_synonym extract_agent = "string \<Rightarrow> ask_kind \<Rightarrow> (string \<times> pyval) list option"

record extractor =
  ex_model :: string
  ex_fallback :: "string option"
  ex_retry :: bool
  ex_repair :: bool

definition model_id :: "extractor \<Rightarrow> string option \<Rightarrow> string" where
  "model_id X model = (case model of Some (c # cs) \<Rightarrow> c # cs | _ \<Rightarrow> ex_model X)"

text \<open>One call and the tree made of its answer; both can raise.\<close>

definition ask_model :: "payload_lib \<Rightarrow> extract_agent \<Rightarrow> doc_type \<Rightarrow> string \<Rightarrow> ask_kind \<Rightarrow> xgroup list option" where
  "ask_model L ask doc m k = (case ask m k of None \<Rightarrow> None | Some out \<Rightarrow> (case normalise_doc L out doc of Inl e \<Rightarrow> None | Inr gs \<Rightarrow> Some gs))"

definition extract_once :: "extractor \<Rightarrow> payload_lib \<Rightarrow> extract_agent \<Rightarrow> doc_type \<Rightarrow> string option \<Rightarrow> (xgroup list \<times> string) option" where
  "extract_once X L ask doc model = (let m = model_id X model in
     case ask_model L ask doc m First_Pass of Some gs \<Rightarrow> Some (gs, m)
   | None \<Rightarrow> (case ex_fallback X of None \<Rightarrow> None
     | Some fb \<Rightarrow> if fb = [] \<or> fb = m then None else map_option (\<lambda>gs. (gs, fb)) (ask_model L ask doc fb First_Pass)))"

section \<open>Empty arrays\<close>

definition array_names :: "doc_type \<Rightarrow> string list" where
  "array_names doc = map fs_name (filter (\<lambda>f. fs_type f = T_ARRAY) (concat (map fg_fields (dt_groups doc))))"

definition array_fields :: "doc_type \<Rightarrow> xgroup list \<Rightarrow> xfield list" where
  "array_fields doc gs = filter (\<lambda>f. xf_name f \<in> set (array_names doc) \<and> is_rows (xf_value f)) (concat (map xg_fields gs))"

definition suspicious_empty_arrays :: "doc_type \<Rightarrow> xgroup list \<Rightarrow> string list" where
  "suspicious_empty_arrays doc gs = (let fs = array_fields doc gs in
     if list_ex (\<lambda>f. rows_of (xf_value f) \<noteq> []) fs then [] else map xf_name fs)"

definition merge_after_retry :: "xgroup list \<Rightarrow> xgroup list \<Rightarrow> string list \<Rightarrow> xgroup list" where
  "merge_after_retry original retry empties = map (\<lambda>g. case dict_of (map (\<lambda>r. (xg_name r, r)) retry) (xg_name g) of
     None \<Rightarrow> g
   | Some r \<Rightarrow> g\<lparr>xg_fields := map (\<lambda>f. case dict_of (map (\<lambda>h. (xf_name h, h)) (xg_fields r)) (xf_name f) of
       Some h \<Rightarrow> if xf_name f \<in> set empties then h else f | None \<Rightarrow> f) (xg_fields g)\<rparr>) original"

definition retry_min_pages :: nat where
  "retry_min_pages = 3"

definition multimodal_extract :: "extractor \<Rightarrow> payload_lib \<Rightarrow> extract_agent \<Rightarrow> doc_type \<Rightarrow> nat \<Rightarrow> string option \<Rightarrow> (xgroup list \<times> string) option" where
  "multimodal_extract X L ask doc pages model = (case extract_once X L ask doc model of None \<Rightarrow> None
   | Some (gs, used) \<Rightarrow> (let empties = suspicious_empty_arrays doc gs; m = model_id X model in
       if ex_retry X \<and> retry_min_pages \<le> pages \<and> empties \<noteq> []
       then (case ask_model L ask doc m (Retry_Arrays empties) of None \<Rightarrow> None
         | Some retry \<Rightarrow> Some (merge_after_retry gs retry empties, m))
       else Some (gs, used)))"

definition extract_repair :: "extractor \<Rightarrow> payload_lib \<Rightarrow> extract_agent \<Rightarrow> doc_type \<Rightarrow> string \<Rightarrow> string option \<Rightarrow> xgroup list option" where
  "extract_repair X L ask doc failing model = (if \<not> ex_repair X then Some [] else ask_model L ask doc (model_id X model) (Repair_Fields failing))"

section \<open>Texts cut to a length\<close>

text \<open>\<open>s.rsplit(sep, 1)[0]\<close> and \<open>s.rstrip(chars)\<close>.\<close>

definition rsplit_head :: "string \<Rightarrow> string \<Rightarrow> string" where
  "rsplit_head sep s = (case filter (\<lambda>k. starts_with (drop k s) sep) [0..<length s] of [] \<Rightarrow> s | k # ks \<Rightarrow> take (last (k # ks)) s)"

definition rstrip_where :: "(char \<Rightarrow> bool) \<Rightarrow> string \<Rightarrow> string" where
  "rstrip_where P s = rev (dropWhile P (rev s))"

definition compress :: "nat \<Rightarrow> string \<Rightarrow> string" where
  "compress n text = (if text = [] then text
     else (let cleaned = py_join '' '' (py_split text) in
       if length cleaned \<le> n then cleaned
       else rstrip_where (\<lambda>c. c = CHR ''.'') (rsplit_head ''. '' (take n cleaned)) @ ''.''))"

definition compress_entry :: "nat \<Rightarrow> (string \<times> pyval) list \<Rightarrow> (string \<times> pyval) list" where
  "compress_entry n kvs = AList.update ''description'' (case dict_get kvs ''description'' of PStr s \<Rightarrow> PStr (compress n s) | v \<Rightarrow> v) kvs"

definition over_dicts :: "((string \<times> pyval) list \<Rightarrow> (string \<times> pyval) list) \<Rightarrow> string \<Rightarrow> (string \<times> pyval) list \<Rightarrow> (string \<times> pyval) list" where
  "over_dicts f k kvs = (case dict_get kvs k of
     PList vs \<Rightarrow> AList.update k (PList (map (\<lambda>v. case v of PDict d \<Rightarrow> PDict (f d) | w \<Rightarrow> w) vs)) kvs | _ \<Rightarrow> kvs)"

definition compress_field :: "(string \<times> pyval) list \<Rightarrow> (string \<times> pyval) list" where
  "compress_field kvs = (let k1 = compress_entry 160 kvs in
     case dict_get k1 ''items'' of
       PDict it \<Rightarrow> AList.update ''items'' (PDict (over_dicts (compress_entry 140) ''fields'' (compress_entry 140 it))) k1
     | _ \<Rightarrow> k1)"

definition compress_group :: "(string \<times> pyval) list \<Rightarrow> (string \<times> pyval) list" where
  "compress_group raw = over_dicts compress_field ''fields'' (compress_entry 180 raw)"

definition newlines :: string where
  "newlines = [CHR 0x0A, CHR 0x0A]"

text \<open>The text anchor: the Markdown of the document, cut at a paragraph when that keeps at least six tenths.\<close>

definition trim_anchor :: "nat \<Rightarrow> string \<Rightarrow> string option" where
  "trim_anchor n markdown = (let trimmed = py_strip markdown in
     if trimmed = [] then None
     else if length trimmed \<le> n then Some trimmed
     else (let cut = take n trimmed; soft = rsplit_head newlines cut;
               kept = (if n * 6 div 10 \<le> length soft then soft else cut) in
       Some (rstrip_where is_space kept @ newlines @ ''... [anchor truncated]'')))"

definition anchor_media :: "string list" where
  "anchor_media = [pdf_type, ''image/png'', ''image/jpeg'', ''image/tiff'', ''image/bmp'', ''image/webp'']"

text \<open>\<open>None\<close> for the Markdown is a document the library does not render.\<close>

definition produce_anchor :: "int \<Rightarrow> string \<Rightarrow> bool \<Rightarrow> int option \<Rightarrow> string option \<Rightarrow> string option" where
  "produce_anchor default_max media empty_data max_chars markdown = (let n = (case max_chars of Some m \<Rightarrow> m | None \<Rightarrow> default_max) in
     if empty_data \<or> media \<notin> set anchor_media \<or> n \<le> 0 then None
     else (case markdown of None \<Rightarrow> None | Some md \<Rightarrow> trim_anchor (nat n) md))"

section \<open>Slices and loaded documents\<close>

definition slice_pages :: "'p list \<Rightarrow> int \<Rightarrow> int \<Rightarrow> 'p list option" where
  "slice_pages ps first last' = (let s = max 0 (first - 1); e = min (int (length ps)) last' in
     if e \<le> s then None else Some (take (nat (e - s)) (drop (nat s) ps)))"

definition has_prefix :: "nat list \<Rightarrow> nat list \<Rightarrow> bool" where
  "has_prefix magic data = (take (length magic) data = magic)"

definition ascii :: "string \<Rightarrow> nat list" where
  "ascii s = map code_point s"

definition sniff_media_type :: "nat list \<Rightarrow> string option \<Rightarrow> string" where
  "sniff_media_type data default' =
     (if has_prefix (ascii ''%PDF-'') data then pdf_type
      else if has_prefix ([0x89] @ ascii ''PNG'' @ [13, 10, 26, 10]) data then ''image/png''
      else if has_prefix [0xFF, 0xD8, 0xFF] data then ''image/jpeg''
      else if has_prefix (ascii ''GIF87a'') data \<or> has_prefix (ascii ''GIF89a'') data then ''image/gif''
      else if take 4 data = ascii ''RIFF'' \<and> take 4 (drop 8 data) = ascii ''WEBP'' then ''image/webp''
      else if has_prefix (ascii ''II*'' @ [0]) data \<or> has_prefix (ascii ''MM'' @ [0] @ ascii ''*'') data then ''image/tiff''
      else (case default' of Some (c # cs) \<Rightarrow> c # cs | _ \<Rightarrow> ''application/octet-stream''))"

record loaded_document =
  ld_bytes :: "nat list"
  ld_media :: string
  ld_pages :: nat

text \<open>\<open>None\<close> for the page count of a PDF is one that cannot be read; the result \<open>None\<close> is the \<open>ValueError\<close>.\<close>

definition count_pdf_pages :: "nat option \<Rightarrow> nat" where
  "count_pdf_pages n = (case n of None \<Rightarrow> 1 | Some k \<Rightarrow> max 1 k)"

definition before_semicolon :: "string \<Rightarrow> string" where
  "before_semicolon s = takeWhile (\<lambda>c. c \<noteq> CHR '';'') s"

definition load_document :: "(nat list \<Rightarrow> nat option) \<Rightarrow> nat list \<Rightarrow> string option \<Rightarrow> loaded_document option" where
  "load_document pdf_pages data declared = (if data = [] then None
     else (let media = py_strip (before_semicolon (py_lower (case declared of Some (c # cs) \<Rightarrow> c # cs | _ \<Rightarrow> sniff_media_type data None))) in
       Some \<lparr>ld_bytes = data, ld_media = media, ld_pages = (if media = pdf_type then count_pdf_pages (pdf_pages data) else 1)\<rparr>))"

section \<open>The retry\<close>

definition same_but :: "string list \<Rightarrow> xfield \<Rightarrow> xfield \<Rightarrow> bool" where
  "same_but empties f f' \<longleftrightarrow> xf_name f' = xf_name f \<and> (xf_name f \<in> set empties \<or> f' = f)"

text \<open>The merge after a retry. Groups and fields keep their names and order, and every field whose name is not
  that of an empty array is the one of the first pass.\<close>

theorem retry_keeps_others:
  "list_all2 (\<lambda>g g'. xg_name g' = xg_name g \<and> list_all2 (same_but empties) (xg_fields g) (xg_fields g')) gs (merge_after_retry gs retry empties)"
proof -
  have name: "xf_name h = n" if "dict_of (map (\<lambda>h. (xf_name h, h)) hs) n = Some h" for hs n h
    using dict_of_in [OF that] by auto
  show ?thesis unfolding merge_after_retry_def list.rel_map
    by (rule list.rel_refl) (auto simp: list.rel_map same_but_def intro!: list.rel_refl dest: name split: option.split)
qed

text \<open>C40: what an outage costs. When the model of the request raises on every call and the fallback model answers the
  first pass with empty arrays, the retry goes back to the model that is down and its exception
  discards the answer.\<close>

theorem outage_loses_answer:
  assumes "\<And>k. ask (model_id X model) k = None"
    and "extract_once X L ask doc model = Some (gs, used)"
    and "ex_retry X" "3 \<le> pages" "suspicious_empty_arrays doc gs \<noteq> []"
  shows "used \<noteq> model_id X model \<and> multimodal_extract X L ask doc pages model = None"
  using assms by (auto simp: multimodal_extract_def ask_model_def extract_once_def Let_def retry_min_pages_def split: option.splits if_splits)

definition retry_extractor :: extractor where
  "retry_extractor = \<lparr>ex_model = ''primary'', ex_fallback = Some ''backup'', ex_retry = True, ex_repair = True\<rparr>"

definition only_backup :: extract_agent where
  "only_backup m k = (if m = ''backup'' then Some [] else None)"

lemma backup_answers:
  "case extract_once retry_extractor strict_lib only_backup items_doc None of None \<Rightarrow> False
    | Some (gs, used) \<Rightarrow> used = ''backup'' \<and> suspicious_empty_arrays items_doc gs = [''items'']"
  by code_simp

theorem outage_loses_answer_witness:
  "extract_once retry_extractor strict_lib only_backup items_doc None \<noteq> None
    \<and> multimodal_extract retry_extractor strict_lib only_backup items_doc 3 None = None"
proof -
  obtain gs used where o1: "extract_once retry_extractor strict_lib only_backup items_doc None = Some (gs, used)"
      and e: "suspicious_empty_arrays items_doc gs = [''items'']"
    using backup_answers by (auto split: option.splits)
  have d: "only_backup (model_id retry_extractor None) k = None" for k by (simp add: only_backup_def model_id_def retry_extractor_def)
  have r: "ex_retry retry_extractor" by (simp add: retry_extractor_def)
  from outage_loses_answer [OF d o1 r, of 3] e o1 show ?thesis by simp
qed

text \<open>A field that shares its name with an empty array of another group is replaced too.\<close>

definition shared_name :: "xvalue \<Rightarrow> xvalue \<Rightarrow> xgroup list" where
  "shared_name v w = [\<lparr>xg_name = ''a'', xg_fields = [XField (plain_meta ''people'') v]\<rparr>, \<lparr>xg_name = ''b'', xg_fields = [XField (plain_meta ''people'') w]\<rparr>]"

lemma retry_replaces_namesake:
  "merge_after_retry (shared_name (VList []) (VInt 3)) (shared_name (VList []) VNone) [''people''] = shared_name (VList []) VNone"
  by code_simp

section \<open>Lengths\<close>

lemma rsplit_head_length: "length (rsplit_head sep s) \<le> length s"
  by (auto simp: rsplit_head_def split: list.split)

lemma rstrip_length: "length (rstrip_where P s) \<le> length s"
  using length_dropWhile_le [of P "rev s"] by (simp add: rstrip_where_def)

lemma compress_length: "length (compress n s) \<le> n + 1"
proof -
  have "length (rstrip_where (\<lambda>c. c = CHR ''.'') (rsplit_head ''. '' (take n t))) \<le> n" for t
    using rstrip_length [of "\<lambda>c. c = CHR ''.''" "rsplit_head ''. '' (take n t)"] rsplit_head_length [of "''. ''" "take n t"] by simp
  then show ?thesis by (simp add: compress_def Let_def)
qed

lemma anchor_length: "trim_anchor n md = Some t \<Longrightarrow> length t \<le> n + 24"
proof -
  assume t: "trim_anchor n md = Some t"
  have k: "length (rstrip_where is_space (rsplit_head newlines (take n s))) \<le> n" "length (rstrip_where is_space (take n s)) \<le> n" for s
    using rstrip_length [of is_space "rsplit_head newlines (take n s)"] rstrip_length [of is_space "take n s"] rsplit_head_length [of newlines "take n s"] by auto
  have "length newlines + length ''... [anchor truncated]'' = 24" by (simp add: newlines_def)
  with t k show ?thesis by (auto simp: trim_anchor_def Let_def split: if_splits)
qed

text \<open>The texts sent to the model are bounded. A description is cut to at most one character more than its limit and
  a text anchor to at most 24 more than its own.\<close>

theorem texts_bounded:
  "length (compress n s) \<le> n + 1 \<and> (case trim_anchor n md of None \<Rightarrow> True | Some t \<Rightarrow> length t \<le> n + 24)"
  using compress_length anchor_length by (auto split: option.split)

text \<open>The limit itself is not respected.\<close>

lemma compress_over_limit: "length (compress 3 ''abcdef'') = 4"
  by code_simp

section \<open>Slices\<close>

lemma slice_pages_valid:
  assumes "1 \<le> a" "a \<le> b" "b \<le> int (length ps)"
  shows "slice_pages ps a b = Some (take (nat (b - a + 1)) (drop (nat (a - 1)) ps))"
  using assms by (simp add: slice_pages_def Let_def max_def min_def algebra_simps)

text \<open>Slices. Any slice with a page is a nonempty run of consecutive pages of the document, and the slices of
  adjacent ranges put together are the slice of the whole range.\<close>

theorem slices_join:
  assumes "1 \<le> a" "a \<le> b" "b < c" "c \<le> int (length ps)"
  shows "(case (slice_pages ps a b, slice_pages ps (b + 1) c) of (Some xs, Some ys) \<Rightarrow> slice_pages ps a c = Some (xs @ ys) \<and> xs \<noteq> [] \<and> ys \<noteq> [] | _ \<Rightarrow> False)"
proof -
  have x: "slice_pages ps a b = Some (take (nat (b - a + 1)) (drop (nat (a - 1)) ps))" using assms by (intro slice_pages_valid) auto
  have y: "slice_pages ps (b + 1) c = Some (take (nat (c - b)) (drop (nat b) ps))" using assms slice_pages_valid [of "b + 1" c ps] by simp
  have z: "slice_pages ps a c = Some (take (nat (c - a + 1)) (drop (nat (a - 1)) ps))" using assms by (intro slice_pages_valid) auto
  have "nat (c - a + 1) = nat (b - a + 1) + nat (c - b)" using assms by simp
  moreover have "drop (nat (b - a + 1)) (drop (nat (a - 1)) ps) = drop (nat b) ps" using assms by (simp add: nat_add_distrib [symmetric])
  ultimately have "take (nat (c - a + 1)) (drop (nat (a - 1)) ps) = take (nat (b - a + 1)) (drop (nat (a - 1)) ps) @ take (nat (c - b)) (drop (nat b) ps)"
    by (simp add: take_add)
  moreover have "\<not> length ps \<le> nat (a - 1) \<and> \<not> length ps \<le> nat b" using assms by linarith
  ultimately show ?thesis using x y z assms by simp
qed

theorem slices_join_witness: "slice_pages [10 :: nat, 11, 12, 13] 2 4 = Some [11, 12, 13]"
proof -
  have "slice_pages [10 :: nat, 11, 12, 13] 2 3 = Some [11, 12]" "slice_pages [10 :: nat, 11, 12, 13] 4 4 = Some [13]" by code_simp+
  with slices_join [of 2 3 4 "[10 :: nat, 11, 12, 13]"] show ?thesis by simp
qed

lemma loaded_pages: "load_document pdf_pages data declared = Some d \<Longrightarrow> 1 \<le> ld_pages d \<and> ld_bytes d = data"
  by (auto simp: load_document_def Let_def count_pdf_pages_def split: if_splits option.splits)

end
