(* ===== verification/SdkClient.thy ===== *)
theory SdkClient
  imports WebApi
begin

text \<open>
  The Python SDK (\<open>sdks/python/src/flydocs_sdk\<close>) against the server: headers, problem bodies, query
  parameters, the request step, the wait loop and the webhook verifier.
\<close>

section \<open>Headers\<close>

definition sdk_headers :: "string \<Rightarrow> headers \<Rightarrow> string option \<Rightarrow> string option \<Rightarrow> string option \<Rightarrow> headers" where
  "sdk_headers agent extra api_key idem corr =
     (let set_if = (\<lambda>k v hs. case v of Some (c # cs) \<Rightarrow> AList.update k (c # cs) hs | _ \<Rightarrow> hs);
          h0 = [(''Accept'', ''application/json''), (''User-Agent'', agent)];
          h1 = (case api_key of Some (c # cs) \<Rightarrow> AList.update ''Authorization'' (''Bearer '' @ c # cs) h0 | _ \<Rightarrow> h0);
          h2 = fold (\<lambda>(n, v) hs. if v = [] then hs else AList.update n v hs) extra h1 in
      set_if ''X-Correlation-Id'' corr (set_if ''Idempotency-Key'' idem h2))"

section \<open>Errors\<close>

record client_error =
  ce_status :: nat
  ce_code :: string
  ce_title :: string
  ce_detail :: string
  ce_type :: string
  ce_instance :: string
  ce_extensions :: "(string \<times> pyval) list"
  ce_payload :: "(string \<times> pyval) list"
  ce_raw :: string

definition first_str :: "(string \<times> pyval) list list \<Rightarrow> string \<Rightarrow> string option" where
  "first_str sources k = (case List.find (\<lambda>d. case dict_get d k of PStr _ \<Rightarrow> True | _ \<Rightarrow> False) sources of
     None \<Rightarrow> None | Some d \<Rightarrow> (case dict_get d k of PStr s \<Rightarrow> Some s | _ \<Rightarrow> None))"

definition first_dict :: "(string \<times> pyval) list list \<Rightarrow> string \<Rightarrow> (string \<times> pyval) list option" where
  "first_dict sources k = (case List.find (\<lambda>d. case dict_get d k of PDict _ \<Rightarrow> True | _ \<Rightarrow> False) sources of
     None \<Rightarrow> None | Some d \<Rightarrow> (case dict_get d k of PDict e \<Rightarrow> Some e | _ \<Rightarrow> None))"

definition problem_sources :: "(string \<times> pyval) list \<Rightarrow> (string \<times> pyval) list list" where
  "problem_sources data = (case dict_get data ''detail'' of PDict (x # xs) \<Rightarrow> [data, x # xs] | _ \<Rightarrow> [data])"

definition or_blank :: "string option \<Rightarrow> string" where
  "or_blank v = (case v of None \<Rightarrow> [] | Some s \<Rightarrow> s)"

text \<open>\<open>FlydocsHttpError.__init__\<close>\<close>

definition http_error :: "nat \<Rightarrow> string option \<Rightarrow> string option \<Rightarrow> string option \<Rightarrow> string option \<Rightarrow> string option
    \<Rightarrow> (string \<times> pyval) list option \<Rightarrow> (string \<times> pyval) list \<Rightarrow> string \<Rightarrow> client_error" where
  "http_error status code title detail ty inst ext payload raw = \<lparr>ce_status = status, ce_code = or_blank code, ce_title = or_blank title,
     ce_detail = or_blank detail, ce_type = (case ty of Some (c # cs) \<Rightarrow> c # cs | _ \<Rightarrow> ''about:blank''), ce_instance = or_blank inst,
     ce_extensions = (case ext of None \<Rightarrow> [] | Some e \<Rightarrow> e), ce_payload = payload, ce_raw = raw\<rparr>"

text \<open>A body that is no JSON is \<open>None\<close>.\<close>

definition decode_problem :: "nat \<Rightarrow> pyval option \<Rightarrow> string \<Rightarrow> client_error" where
  "decode_problem status body raw = (case body of
     Some (PDict data) \<Rightarrow> (let ss = problem_sources data in
       http_error status (first_str ss ''code'') (first_str ss ''title'') (first_str ss ''detail'') (first_str ss ''type'') (first_str ss ''instance'')
         (first_dict ss ''extensions'') data raw)
   | _ \<Rightarrow> http_error status None None None None None None [] raw)"

definition error_message :: "client_error \<Rightarrow> string" where
  "error_message e = ''HTTP '' @ str_of_nat (ce_status e) @ (if ce_code e = [] then [] else '' '' @ ce_code e)
     @ (if ce_detail e \<noteq> [] then '': '' @ ce_detail e else if ce_title e \<noteq> [] then '': '' @ ce_title e else [])"

definition non_empty :: "string \<Rightarrow> string option" where
  "non_empty s = (if s = [] then None else Some s)"

definition as_problem :: "client_error \<Rightarrow> problem" where
  "as_problem e = \<lparr>pb_type = ce_type e, pb_title = ce_title e, pb_status = ce_status e, pb_detail = non_empty (ce_detail e),
     pb_instance = non_empty (ce_instance e), pb_code = non_empty (ce_code e), pb_extensions = (if ce_extensions e = [] then None else Some (ce_extensions e))\<rparr>"

section \<open>One request\<close>

datatype wire = NoAnswer bool string string | Response nat bool "pyval option" string

datatype client_exn = TimeoutExn string | ClientExn string | HttpExn client_error

definition map_transport_error :: "bool \<Rightarrow> string \<Rightarrow> string \<Rightarrow> client_exn" where
  "map_transport_error timed_out msg name = (if timed_out then TimeoutExn (if msg = [] then ''request timed out'' else msg)
     else ClientExn (if msg = [] then name else msg))"

text \<open>The body that is returned, \<open>None\<close> for no content.\<close>

definition request_json :: "wire \<Rightarrow> client_exn + pyval option" where
  "request_json w = (case w of NoAnswer t msg name \<Rightarrow> Inl (map_transport_error t msg name)
   | Response status no_content body raw \<Rightarrow>
       if 400 \<le> status then Inl (HttpExn (decode_problem status body raw))
       else if status = 204 \<or> no_content then Inr None
       else (case body of None \<Rightarrow> Inl (ClientExn ''expected JSON response'') | Some v \<Rightarrow> Inr (Some v)))"

definition wire_of :: "('a \<Rightarrow> pyval) \<Rightarrow> 'a web_answer \<Rightarrow> wire" where
  "wire_of dump a = (case a of Answered status x \<Rightarrow> Response status False (Some (dump x)) [] | Problem status body \<Rightarrow> Response status False (Some body) [])"

text \<open>\<open>_post_for_result\<close>: with file handles the body is multipart, its JSON part the request without its files, one
  part per handle under the last segment of its name.\<close>

datatype sent = SentJson "(string \<times> pyval) list" | SentParts "(string \<times> pyval) list" "string list"

definition part_name :: "string \<Rightarrow> string" where
  "part_name n = rev (takeWhile (\<lambda>c. c \<noteq> CHR ''/'') (rev n))"

definition post_body :: "(string \<times> pyval) list \<Rightarrow> string list \<Rightarrow> sent" where
  "post_body payload handles = (if handles = [] then SentJson payload
     else SentParts (filter (\<lambda>(k, v). k \<noteq> ''files'') payload) (map part_name handles))"

lemma parts_without_files: "post_body payload handles = SentParts body names \<Longrightarrow> map_of body ''files'' = None \<and> length names = length handles"
  by (auto simp: post_body_def map_of_eq_None_iff split: if_splits)

section \<open>Query parameters\<close>

definition csv :: "string list \<Rightarrow> string" where
  "csv xs = py_join '','' xs"

text \<open>\<open>list\<close>: a list of statuses may also be left out.\<close>

definition list_params :: "(time \<Rightarrow> string) \<Rightarrow> estatus list option \<Rightarrow> ppstatus list option \<Rightarrow> string option \<Rightarrow> time option \<Rightarrow> time option \<Rightarrow> nat \<Rightarrow> nat \<Rightarrow> query" where
  "list_params fmt ss ps idem a b cap off = [(''limit'', str_of_nat cap), (''offset'', str_of_nat off)]
     @ (case ss of None \<Rightarrow> [] | Some xs \<Rightarrow> [(''status'', csv (map status_name xs))])
     @ (case ps of None \<Rightarrow> [] | Some xs \<Rightarrow> [(''post_processing_status'', csv (map pp_name xs))])
     @ (case idem of Some (c # cs) \<Rightarrow> [(''idempotency_key'', c # cs)] | _ \<Rightarrow> [])
     @ (case a of None \<Rightarrow> [] | Some t \<Rightarrow> [(''created_after'', fmt t)]) @ (case b of None \<Rightarrow> [] | Some t \<Rightarrow> [(''created_before'', fmt t)])"

definition result_params :: "bool \<Rightarrow> string \<Rightarrow> query" where
  "result_params wait timeout = [(''wait_for_post_processing'', if wait then ''true'' else ''false''), (''timeout'', timeout)]"

section \<open>Waiting\<close>

datatype wait_result = Terminal estatus | WaitTimedOut estatus | WaitRaised client_exn

text \<open>\<open>obs n\<close> is what the \<open>n\<close>-th read gives, \<open>clk n\<close> the clock after it.\<close>

fun wait_loop :: "nat \<Rightarrow> rat \<Rightarrow> (nat \<Rightarrow> client_exn + estatus) \<Rightarrow> (nat \<Rightarrow> rat) \<Rightarrow> nat \<Rightarrow> (wait_result \<times> nat) option" where
  "wait_loop fuel deadline obs clk n = (case obs n of Inl e \<Rightarrow> Some (WaitRaised e, n)
   | Inr s \<Rightarrow> if estatus_terminal s then Some (Terminal s, n)
       else if deadline - clk n \<le> 0 then Some (WaitTimedOut s, n)
       else (case fuel of 0 \<Rightarrow> None | Suc k \<Rightarrow> wait_loop k deadline obs clk (Suc n)))"

declare wait_loop.simps [simp del]

definition sleep_time :: "rat \<Rightarrow> rat \<Rightarrow> rat" where
  "sleep_time poll remaining = min poll (max remaining (1 / 100))"

definition wait_for_completion :: "nat \<Rightarrow> rat \<Rightarrow> rat \<Rightarrow> (nat \<Rightarrow> client_exn + estatus) \<Rightarrow> (nat \<Rightarrow> rat) \<Rightarrow> (wait_result \<times> nat) option" where
  "wait_for_completion fuel start timeout obs clk = wait_loop fuel (start + max 0 timeout) obs clk 0"

section \<open>Webhooks\<close>

datatype verify_error = HeaderMissing | UnsupportedScheme string | SignatureMismatch | NotAsciiRaised | BadEnvelope

definition ascii_only :: "string \<Rightarrow> bool" where
  "ascii_only s = list_all (\<lambda>c. code_point c < 128) s"

text \<open>\<open>hmac.compare_digest\<close> raises on text that is not ASCII.\<close>

definition compare_digest :: "string \<Rightarrow> string \<Rightarrow> bool option" where
  "compare_digest a b = (if ascii_only a \<and> ascii_only b then Some (a = b) else None)"

definition sdk_sign :: "(nat list \<Rightarrow> string) \<Rightarrow> string \<Rightarrow> nat list \<Rightarrow> string" where
  "sdk_sign hmac scheme body = scheme @ ''='' @ hmac body"

definition check_candidate :: "(nat list \<Rightarrow> string) \<Rightarrow> (nat list \<Rightarrow> 'e option) \<Rightarrow> nat list \<Rightarrow> string \<Rightarrow> verify_error + 'e" where
  "check_candidate hmac parse body candidate = (case compare_digest candidate (hmac body) of
     None \<Rightarrow> Inl NotAsciiRaised | Some False \<Rightarrow> Inl SignatureMismatch
   | Some True \<Rightarrow> (case parse body of None \<Rightarrow> Inl BadEnvelope | Some e \<Rightarrow> Inr e))"

text \<open>The digest with the secret and the parser of the envelope are arguments.\<close>

definition sdk_verify :: "(nat list \<Rightarrow> string) \<Rightarrow> (nat list \<Rightarrow> 'e option) \<Rightarrow> string \<Rightarrow> nat list \<Rightarrow> string \<Rightarrow> verify_error + 'e" where
  "sdk_verify hmac parse scheme body header = (if header = [] then Inl HeaderMissing
     else (let provided = py_strip header in
       if CHR ''='' \<in> set provided
       then (let given = takeWhile (\<lambda>c. c \<noteq> CHR ''='') provided in
         if py_lower given \<noteq> py_lower scheme then Inl (UnsupportedScheme given)
         else check_candidate hmac parse body (drop (length given + 1) provided))
       else check_candidate hmac parse body provided))"

section \<open>Webhooks accepted\<close>

definition hex_digest :: "string \<Rightarrow> bool" where
  "hex_digest d \<longleftrightarrow> d \<noteq> [] \<and> list_all (\<lambda>c. is_digit c \<or> in_range CHR ''a'' CHR ''f'' c) d"

lemma hex_char:
  assumes "is_digit c \<or> in_range CHR ''a'' CHR ''f'' c"
  shows "code_point c < 128" "\<not> is_space c" "c \<noteq> CHR ''=''"
  using assms by (auto simp: is_digit_def in_range_def is_space_def code_point_def)

lemma hex_ascii: "hex_digest d \<Longrightarrow> ascii_only d"
  unfolding hex_digest_def ascii_only_def list_all_iff using hex_char(1) by blast

lemma hex_no_eq: "hex_digest d \<Longrightarrow> CHR ''='' \<notin> set d"
  unfolding hex_digest_def list_all_iff using hex_char(3) by blast

lemma hex_last: "hex_digest d \<Longrightarrow> \<not> is_space (last d)"
  unfolding hex_digest_def list_all_iff using hex_char(2) last_in_set by blast

lemma strip_none: "s \<noteq> [] \<Longrightarrow> \<not> is_space (hd s) \<Longrightarrow> \<not> is_space (last s) \<Longrightarrow> py_strip s = s"
proof -
  assume s: "s \<noteq> []" "\<not> is_space (hd s)" "\<not> is_space (last s)"
  have "dropWhile is_space s = s" using s(1,2) by (cases s) simp_all
  moreover have "dropWhile is_space (rev s) = rev s"
    using s(1,3) by (cases s rule: rev_cases) simp_all
  ultimately show ?thesis by (simp add: py_strip_def)
qed

lemma check_candidate_iff:
  "hex_digest d \<Longrightarrow> d = hmac body \<Longrightarrow> check_candidate hmac parse body c = Inr e \<longleftrightarrow> c = d \<and> parse body = Some e"
  using hex_ascii [of d] by (cases "c = d") (auto simp: check_candidate_def compare_digest_def split: option.splits)

lemma split_at_eq: "CHR ''='' \<in> set p \<Longrightarrow> p = takeWhile (\<lambda>c. c \<noteq> CHR ''='') p @ CHR ''='' # drop (length (takeWhile (\<lambda>c. c \<noteq> CHR ''='') p) + 1) p"
proof -
  let ?P = "\<lambda>c. c \<noteq> CHR ''=''"
  assume "CHR ''='' \<in> set p"
  then have "dropWhile ?P p \<noteq> []" by (auto simp: dropWhile_eq_Nil_conv)
  moreover from this have "hd (dropWhile ?P p) = CHR ''=''" using hd_dropWhile [of ?P p] by simp
  ultimately have "dropWhile ?P p = CHR ''='' # tl (dropWhile ?P p)" by (metis list.collapse)
  moreover have "drop (length (takeWhile ?P p) + 1) p = tl (dropWhile ?P p)"
    by (simp add: dropWhile_eq_drop drop_Suc tl_drop)
  ultimately show ?thesis by (metis takeWhile_dropWhile_id)
qed

lemma verify_iff:
  assumes "hex_digest d" "d = hmac body"
  shows "sdk_verify hmac parse scheme body header = Inr e \<longleftrightarrow> parse body = Some e \<and>
     (py_strip header = hmac body \<or> (\<exists>s. py_strip header = s @ CHR ''='' # hmac body \<and> CHR ''='' \<notin> set s \<and> py_lower s = py_lower scheme))"
proof -
  let ?p = "py_strip header" and ?P = "\<lambda>c. c \<noteq> CHR ''=''"
  have nil: "header = [] \<Longrightarrow> ?p = []" by (simp add: py_strip_def)
  have dig: "hmac body \<noteq> []" using assms by (simp add: hex_digest_def)
  note hx = assms(1) [unfolded assms(2)] and ci = check_candidate_iff [where hmac = hmac and body = body, OF assms, unfolded assms(2)]
  have cut: "takeWhile ?P (s @ CHR ''='' # d) = s" if "CHR ''='' \<notin> set s" for s d
    using that by (induction s) auto
  show ?thesis
  proof (cases "CHR ''='' \<in> set ?p")
    case True
    then have ne: "header \<noteq> []" using nil by auto
    have "?p \<noteq> hmac body" using True hex_no_eq [OF hx] by auto
    moreover have "(\<exists>s. ?p = s @ CHR ''='' # hmac body \<and> CHR ''='' \<notin> set s \<and> py_lower s = py_lower scheme)
      \<longleftrightarrow> drop (length (takeWhile ?P ?p) + 1) ?p = hmac body \<and> py_lower (takeWhile ?P ?p) = py_lower scheme" (is "?L \<longleftrightarrow> ?R")
    proof
      assume ?L
      then show ?R using cut by auto
    next
      assume ?R
      moreover have "CHR ''='' \<notin> set (takeWhile ?P ?p)" by (auto dest: set_takeWhileD)
      ultimately show ?L using split_at_eq [OF True] by metis
    qed
    ultimately show ?thesis
      using True ne by (simp add: sdk_verify_def Let_def ci) blast
  next
    case False
    then have "\<nexists>s. ?p = s @ CHR ''='' # hmac body" by auto
    with False show ?thesis using dig nil
      by (auto simp: sdk_verify_def Let_def ci)
  qed
qed

text \<open>C30: Only a header that is the digest, bare or after the scheme in any case, verifies, and the event is the one in
  the body; the header the publisher writes, whatever the caller's extra headers are, is such a header.\<close>

theorem delivery_verifies:
  assumes "hex_digest (hmac body)" "scheme \<noteq> []" "CHR ''='' \<notin> set scheme" "\<not> is_space (hd scheme)"
  shows "(sdk_verify hmac parse scheme body header = Inr e \<longleftrightarrow> parse body = Some e \<and>
      (py_strip header = hmac body \<or> (\<exists>s. py_strip header = s @ CHR ''='' # hmac body \<and> CHR ''='' \<notin> set s \<and> py_lower s = py_lower scheme)))
    \<and> (\<exists>sig. map_of (delivery_headers extra (Some (name, scheme)) (hmac body)) name = Some sig
        \<and> (parse body = Some e \<longrightarrow> sdk_verify hmac parse scheme body sig = Inr e))"
proof -
  let ?sig = "sdk_sign hmac scheme body"
  have "map_of (delivery_headers extra (Some (name, scheme)) (hmac body)) name = Some ?sig"
    by (simp add: delivery_headers_def sdk_sign_def Let_def update_conv')
  moreover have "py_strip ?sig = ?sig"
    using assms hex_last [OF assms(1)] by (intro strip_none) (auto simp: sdk_sign_def hex_digest_def)
  then have "parse body = Some e \<longrightarrow> sdk_verify hmac parse scheme body ?sig = Inr e"
    using assms(3) by (auto simp: verify_iff [where hmac = hmac and body = body, OF assms(1) refl] sdk_sign_def)
  moreover note verify_iff [where hmac = hmac and body = body and parse = parse and scheme = scheme and header = header and e = e, OF assms(1) refl]
  ultimately show ?thesis by blast
qed

theorem delivery_verifies_witness:
  "sdk_verify (\<lambda>b. if b = [1, 2] then ''ab2'' else ''ab0'') (\<lambda>b. Some (length b)) ''sha256'' [1, 2] ''SHA256=ab2'' = Inr 2"
proof -
  let ?h = "\<lambda>b :: nat list. if b = [1, 2] then ''ab2'' else ''ab0''"
  have h: "hex_digest (?h [1, 2])" "''sha256'' \<noteq> []" "CHR ''='' \<notin> set ''sha256''" "\<not> is_space (hd ''sha256'')" by code_simp+
  have "\<exists>s. py_strip ''SHA256=ab2'' = s @ CHR ''='' # ?h [1, 2] \<and> CHR ''='' \<notin> set s \<and> py_lower s = py_lower ''sha256''"
    by (rule exI [of _ "''SHA256''"]) code_simp
  then show ?thesis
    using delivery_verifies [where hmac = ?h and body = "[1, 2]" and parse = "\<lambda>b. Some (length b)" and header = "''SHA256=ab2''" and e = 2, OF h] by simp
qed

text \<open>A header with a character outside ASCII is not refused with the verifier's own error.\<close>

lemma non_ascii_header_raises:
  "sdk_verify (\<lambda>b. ''ab0'') (\<lambda>b. Some (length b)) ''sha256'' [1, 2] [CHR 0xE9] = Inl NotAsciiRaised"
  by code_simp

section \<open>Problem bodies decoded\<close>

lemma dump_sources: "dump_problem p = PDict kvs \<Longrightarrow> problem_sources kvs = [kvs]"
  by (cases "pb_detail p") (auto simp: dump_problem_def problem_sources_def dict_get_def opt_entry_def split: option.splits)

definition sayable :: "problem \<Rightarrow> bool" where
  "sayable p \<longleftrightarrow> pb_type p \<noteq> [] \<and> pb_detail p \<noteq> Some [] \<and> pb_instance p \<noteq> Some [] \<and> pb_code p \<noteq> Some [] \<and> pb_extensions p \<noteq> Some []"

lemma decode_dump:
  assumes "sayable p"
  shows "as_problem (decode_problem (pb_status p) (Some (dump_problem p)) raw) = p"
proof -
  obtain kvs where k: "dump_problem p = PDict kvs" by (simp add: dump_problem_def)
  have g: "dict_get kvs ''type'' = PStr (pb_type p)" "dict_get kvs ''title'' = PStr (pb_title p)"
    "dict_get kvs ''detail'' = (case pb_detail p of None \<Rightarrow> PNone | Some s \<Rightarrow> PStr s)"
    "dict_get kvs ''instance'' = (case pb_instance p of None \<Rightarrow> PNone | Some s \<Rightarrow> PStr s)"
    "dict_get kvs ''code'' = (case pb_code p of None \<Rightarrow> PNone | Some s \<Rightarrow> PStr s)"
    "dict_get kvs ''extensions'' = (case pb_extensions p of None \<Rightarrow> PNone | Some s \<Rightarrow> PDict s)"
    using k by (auto simp: dump_problem_def dict_get_def opt_entry_def split: option.splits)
  have t: "(case Some (pb_type p) of Some (c # cs) \<Rightarrow> c # cs | _ \<Rightarrow> ''about:blank'') = pb_type p"
    using assms by (cases "pb_type p") (auto simp: sayable_def)
  have o: "v \<noteq> Some [] \<Longrightarrow> non_empty (or_blank v) = v" for v
    by (cases v) (auto simp: non_empty_def or_blank_def)
  have blank: "or_blank (Some v) = v" for v by (simp add: or_blank_def)
  have e: "pb_extensions p \<noteq> Some [] \<Longrightarrow> (if (case pb_extensions p of None \<Rightarrow> [] | Some e \<Rightarrow> e) = [] then None
      else Some (case pb_extensions p of None \<Rightarrow> [] | Some e \<Rightarrow> e)) = pb_extensions p"
    by (cases "pb_extensions p") auto
  have f: "first_str [kvs] n = v" if "dict_get kvs n = (case v of None \<Rightarrow> PNone | Some s \<Rightarrow> PStr s)" for n v
    using that by (cases v) (auto simp: first_str_def)
  have f': "first_dict [kvs] n = v" if "dict_get kvs n = (case v of None \<Rightarrow> PNone | Some s \<Rightarrow> PDict s)" for n v
    using that by (cases v) (auto simp: first_dict_def)
  have strs: "first_str [kvs] ''type'' = Some (pb_type p)" "first_str [kvs] ''title'' = Some (pb_title p)"
    by (simp_all add: first_str_def g)
  have "decode_problem (pb_status p) (Some (dump_problem p)) raw = http_error (pb_status p) (pb_code p) (Some (pb_title p)) (pb_detail p)
      (Some (pb_type p)) (pb_instance p) (pb_extensions p) kvs raw"
    unfolding decode_problem_def k Let_def dump_sources [OF k] pyval.case option.case strs f [OF g(3)] f [OF g(4)] f [OF g(5)] f' [OF g(6)] ..
  then show ?thesis
    using assms t o e by (intro problem.equality) (auto simp: as_problem_def http_error_def sayable_def blank split: option.splits)
qed

lemma nested_decoded:
  "decode_problem status (Some (http_problem_with_payload code title detail [(''errors'', a), (''warnings'', b)])) raw
     = http_error status (Some code) (Some title) (Some detail) None None None [(''detail'', PDict [(''code'', PStr code), (''title'', PStr title),
         (''detail'', PStr detail), (''errors'', a), (''warnings'', b)])] raw"
  "decode_problem status (Some (http_problem code title detail)) raw
     = http_error status (Some code) (Some title) (Some detail) None None None
         [(''detail'', PDict [(''code'', PStr code), (''title'', PStr title), (''detail'', PStr detail)])] raw"
  by (simp_all add: decode_problem_def http_problem_with_payload_def http_problem_def problem_sources_def dict_get_def first_str_def first_dict_def Let_def)

text \<open>Nothing in it is an empty text.\<close>

definition domain_ok :: "domain_exn \<Rightarrow> bool" where
  "domain_ok e = (case e of NotReadyExn i st msg \<Rightarrow> msg \<noteq> [] | TimedOutExn t msg \<Rightarrow> msg \<noteq> [] | NotCancellableExn msg \<Rightarrow> msg \<noteq> []
     | BinaryExn status code name msg \<Rightarrow> 400 \<le> status \<and> code \<noteq> [] \<and> msg \<noteq> [] | ValueExn msg \<Rightarrow> msg \<noteq> [])"

lemma advice_sayable: "domain_ok e \<Longrightarrow> sayable (advice e) \<and> 400 \<le> pb_status (advice e)"
  by (cases e) (auto simp: domain_ok_def advice_def plain_problem_def sayable_def split: option.splits list.splits)

text \<open>C31: What the server's exception advice says reaches the caller of the SDK unchanged, when the framework
  answers with the status in the body: type, title, status, detail, code and extensions.\<close>

theorem advice_reaches_client:
  assumes "domain_ok e" "respond (advice e) = pb_status (advice e)"
  shows "\<exists>err. request_json (wire_of dump (advised respond e)) = Inl (HttpExn err) \<and> as_problem err = advice e"
  using assms(2) advice_sayable [OF assms(1)] decode_dump [of "advice e" "[]"]
  by (simp add: request_json_def wire_of_def advised_def)

theorem advice_reaches_client_witness:
  "\<exists>err. request_json (wire_of PStr (advised pb_status (BinaryExn 415 ''unsupported_file'' (Some ''a.bin'') ''unknown type''))) = Inl (HttpExn err)
     \<and> as_problem err = advice (BinaryExn 415 ''unsupported_file'' (Some ''a.bin'') ''unknown type'')"
  by (rule advice_reaches_client) (simp_all add: domain_ok_def)

text \<open>The headers of a call: the named ones win over the client's default headers, and only those can change the others.\<close>

theorem headers_sent:
  "(c # cs = key \<longrightarrow> map_of (sdk_headers agent extra api (Some key) corr) ''Idempotency-Key'' = Some key)
   \<and> (c # cs = key \<longrightarrow> map_of (sdk_headers agent extra api idem (Some key)) ''X-Correlation-Id'' = Some key)
   \<and> map_of (sdk_headers agent [] (Some (c # cs)) idem corr) ''Authorization'' = Some (''Bearer '' @ c # cs)
   \<and> map_of (sdk_headers agent [] api idem corr) ''Accept'' = Some ''application/json''"
  by (auto simp: sdk_headers_def Let_def update_conv' split: option.splits list.splits)

section \<open>Listing through the SDK\<close>

lemma enum_of_name: "inj_on name (set vs) \<Longrightarrow> v \<in> set vs \<Longrightarrow> enum_of name vs (name v) = Some v"
  unfolding enum_of_def by (induction vs) (auto simp: inj_on_def)

lemma pieces_join:
  "list_all (\<lambda>x. CHR '','' \<notin> set x) (x # xs) \<Longrightarrow> pieces acc (py_join '','' (x # xs)) = (rev acc @ x) # xs"
proof (induction xs arbitrary: x acc)
  case Nil
  have "CHR '','' \<notin> set y \<Longrightarrow> pieces a y = [rev a @ y]" for y a
    by (induction y arbitrary: a) auto
  with Nil show ?case by simp
next
  case (Cons y ys)
  have step: "CHR '','' \<notin> set z \<Longrightarrow> pieces a (z @ CHR '','' # t) = (rev a @ z) # pieces [] t" for z a t
    by (induction z arbitrary: a) auto
  from Cons step show ?case by simp
qed

definition plain_token :: "string \<Rightarrow> bool" where
  "plain_token s \<longleftrightarrow> s \<noteq> [] \<and> CHR '','' \<notin> set s \<and> py_strip s = s"

lemma join_empty: "py_join sep xs = [] \<Longrightarrow> list_all (\<lambda>x. x \<noteq> []) xs \<Longrightarrow> xs = []"
  by (cases xs rule: remdups_adj.cases) auto

lemma split_csv_join: "list_all plain_token xs \<Longrightarrow> split_csv (csv xs) = xs"
proof (cases xs)
  case (Cons x ys)
  assume a: "list_all plain_token xs"
  then have "pieces [] (py_join '','' (x # ys)) = x # ys"
    using pieces_join [of x ys "[]"] Cons by (auto simp: plain_token_def list_all_iff)
  moreover have "py_join '','' xs \<noteq> []"
    using a join_empty [of "'',''" xs] Cons by (auto simp: plain_token_def list_all_iff)
  moreover have "map py_strip xs = xs" "filter (\<lambda>p. p \<noteq> []) xs = xs"
    using a by (auto simp: plain_token_def list_all_iff intro!: map_idI filter_True)
  ultimately show ?thesis using Cons by (simp add: split_csv_def csv_def)
qed (simp add: split_csv_def csv_def)

lemma all_some_map: "all_some (map (\<lambda>x. Some (f x)) xs) = Some (map f xs)"
  by (induction xs) auto

lemma csv_enum:
  assumes "inj_on name (set vs)" "set xs \<subseteq> set vs" "list_all (\<lambda>v. plain_token (name v)) vs"
  shows "all_some (map (enum_of name vs) (split_csv (csv (map name xs)))) = Some xs"
proof -
  have "split_csv (csv (map name xs)) = map name xs"
    using assms(2,3) by (intro split_csv_join) (auto simp: list_all_iff)
  moreover have "map (enum_of name vs) (map name xs) = map (\<lambda>x. Some (id x)) xs"
    using assms(2) enum_of_name [OF assms(1)] by auto
  ultimately show ?thesis by (simp only: all_some_map list.map_id id_apply list.map_ident)
qed

lemma status_csv: "all_some (map (enum_of status_name all_statuses) (split_csv (csv (map status_name ss)))) = Some ss"
proof (rule csv_enum)
  show "set ss \<subseteq> set all_statuses" using estatus.exhaust by (auto simp: all_statuses_def)
  show "inj_on status_name (set all_statuses)" by (auto simp: inj_on_def status_name_def split: estatus.splits)
  show "list_all (\<lambda>v. plain_token (status_name v)) all_statuses" by code_simp
qed

lemma pp_csv: "all_some (map (enum_of pp_name all_pp) (split_csv (csv (map pp_name ps)))) = Some ps"
proof (rule csv_enum)
  show "set ps \<subseteq> set all_pp" using ppstatus.exhaust by (auto simp: all_pp_def)
  show "inj_on pp_name (set all_pp)" by (auto simp: inj_on_def pp_name_def split: ppstatus.splits)
  show "list_all (\<lambda>v. plain_token (pp_name v)) all_pp" by code_simp
qed


lemma str_of_nat_nonempty: "str_of_nat n \<noteq> []"
  by (subst str_of_nat.simps) simp

lemma digits_no_z: "list_all is_digit s \<Longrightarrow> replace_z s = s"
  by (induction s) (auto simp: replace_z_def is_digit_def code_point_def)

text \<open>A reader and a writer of times that keep the law.\<close>

definition stamp_of :: "time \<Rightarrow> string" where
  "stamp_of t = (if t < 0 then CHR ''-'' # str_of_nat (nat (- t)) else str_of_nat (nat t))"

definition read_stamp :: "string \<Rightarrow> time option" where
  "read_stamp s = (case s of [] \<Rightarrow> None | c # cs \<Rightarrow> Some (if c = CHR ''-'' then - int (int_of_str cs) else int (int_of_str (c # cs))))"

lemma stamp_law: "stamp_of t \<noteq> [] \<and> read_stamp (replace_z (stamp_of t)) = Some t"
proof (cases "t < 0")
  case True
  then have "replace_z (stamp_of t) = CHR ''-'' # str_of_nat (nat (- t))"
    using digits_no_z [OF str_of_nat_digits] by (simp add: stamp_of_def replace_z_def)
  with True show ?thesis by (simp add: read_stamp_def stamp_of_def)
next
  case False
  then have z: "replace_z (stamp_of t) = str_of_nat (nat t)"
    using digits_no_z [OF str_of_nat_digits] by (simp add: stamp_of_def)
  obtain c cs where c: "str_of_nat (nat t) = c # cs" "is_digit c"
    using str_of_nat_digits [of "nat t"] str_of_nat_nonempty [of "nat t"] by (cases "str_of_nat (nat t)") auto
  then have "c \<noteq> CHR ''-''" by (auto simp: is_digit_def code_point_def)
  then show ?thesis using False z c int_of_str_nat [of "nat t"] by (simp add: read_stamp_def stamp_of_def)
qed


section \<open>Waiting ends\<close>

definition wait_outcome :: "rat \<Rightarrow> (nat \<Rightarrow> client_exn + estatus) \<Rightarrow> (nat \<Rightarrow> rat) \<Rightarrow> wait_result \<Rightarrow> nat \<Rightarrow> bool" where
  "wait_outcome deadline obs clk r m = (case r of Terminal s \<Rightarrow> obs m = Inr s \<and> estatus_terminal s
     | WaitTimedOut s \<Rightarrow> obs m = Inr s \<and> \<not> estatus_terminal s \<and> deadline \<le> clk m | WaitRaised e \<Rightarrow> obs m = Inl e)"

definition keeps_waiting :: "rat \<Rightarrow> (nat \<Rightarrow> client_exn + estatus) \<Rightarrow> (nat \<Rightarrow> rat) \<Rightarrow> nat \<Rightarrow> bool" where
  "keeps_waiting deadline obs clk k = (case obs k of Inl _ \<Rightarrow> False | Inr s \<Rightarrow> \<not> estatus_terminal s \<and> clk k < deadline)"

lemma wait_loop_stops:
  "\<not> keeps_waiting deadline obs clk n \<Longrightarrow> \<exists>r. wait_loop fuel deadline obs clk n = Some (r, n) \<and> wait_outcome deadline obs clk r n"
  by (cases "obs n") (auto simp: keeps_waiting_def wait_outcome_def wait_loop.simps)

lemma wait_loop_goes_on:
  "keeps_waiting deadline obs clk n \<Longrightarrow> wait_loop (Suc k) deadline obs clk n = wait_loop k deadline obs clk (Suc n)"
  by (auto simp: keeps_waiting_def wait_loop.simps [of "Suc k"] split: sum.splits)

lemma wait_loop_ends:
  assumes "0 < poll" "\<And>m. clk m + sleep_time poll (deadline - clk m) \<le> clk (Suc m)"
  shows "deadline - clk n \<le> of_nat k * poll \<Longrightarrow> \<exists>r m. wait_loop k deadline obs clk n = Some (r, m) \<and> m \<le> n + k
     \<and> (\<forall>j. n \<le> j \<and> j < m \<longrightarrow> keeps_waiting deadline obs clk j) \<and> wait_outcome deadline obs clk r m \<and> n \<le> m"
proof (induction k arbitrary: n)
  case 0
  then have "\<not> keeps_waiting deadline obs clk n" by (auto simp: keeps_waiting_def split: sum.splits)
  from wait_loop_stops [OF this, of 0] show ?case by auto
next
  case (Suc k)
  show ?case
  proof (cases "keeps_waiting deadline obs clk n")
    case False
    from wait_loop_stops [OF this, of "Suc k"] show ?thesis by fastforce
  next
    case True
    have "deadline - clk (Suc n) \<le> of_nat k * poll"
    proof (cases "poll \<le> max (deadline - clk n) (1 / 100)")
      case True
      then show ?thesis using assms(2) [of n] Suc.prems by (simp add: sleep_time_def algebra_simps)
    next
      case False
      then have "deadline \<le> clk (Suc n)" using assms(2) [of n] by (simp add: sleep_time_def)
      moreover have "0 \<le> of_nat k * poll" using assms(1) by simp
      ultimately show ?thesis by linarith
    qed
    from Suc.IH [OF this] obtain r m where "wait_loop k deadline obs clk (Suc n) = Some (r, m)" "m \<le> Suc n + k"
      "\<forall>j. Suc n \<le> j \<and> j < m \<longrightarrow> keeps_waiting deadline obs clk j" "wait_outcome deadline obs clk r m" "Suc n \<le> m" by blast
    moreover have "keeps_waiting deadline obs clk j" if "n \<le> j \<and> j < m" for j
      using calculation(3) that True by (cases "j = n") auto
    ultimately show ?thesis using wait_loop_goes_on [OF True] by (intro exI [of _ r] exI [of _ m]) auto
  qed
qed

text \<open>C34: Waiting for an extraction ends: when every sleep lasts at least what was asked, the loop answers within one
  read more than the poll intervals that cover the timeout, with the first read that is terminal, fails, or comes after the deadline.\<close>

theorem waiting_ends:
  assumes "0 < poll" "\<And>m. clk m + sleep_time poll (start + max 0 timeout - clk m) \<le> clk (Suc m)" "start \<le> clk 0" "timeout \<le> of_nat k * poll"
  shows "\<exists>r m. wait_for_completion k start timeout obs clk = Some (r, m) \<and> m \<le> k
     \<and> (\<forall>j<m. keeps_waiting (start + max 0 timeout) obs clk j) \<and> wait_outcome (start + max 0 timeout) obs clk r m"
proof -
  have pos: "0 \<le> of_nat k * poll" using assms(1) by simp
  have "start + max 0 timeout - clk 0 \<le> of_nat k * poll"
    using assms(3) max.boundedI [OF pos assms(4)] by linarith
  from wait_loop_ends [OF assms(1,2) this] show ?thesis by (auto simp: wait_for_completion_def)
qed

theorem waiting_ends_witness:
  "\<exists>r m. wait_for_completion 4 0 7 (\<lambda>n. Inr (if n = 2 then SUCCEEDED else RUNNING)) (\<lambda>n. 2 * of_nat n) = Some (r, m) \<and> m \<le> 4"
proof -
  have "2 * of_nat m + sleep_time 2 (0 + max 0 7 - 2 * of_nat m) \<le> (2 * of_nat (Suc m) :: rat)" for m
    by (simp add: sleep_time_def)
  from waiting_ends [of 2 "\<lambda>n. 2 * of_nat n" 0 7 4 "\<lambda>n. Inr (if n = 2 then SUCCEEDED else RUNNING)", OF _ this] show ?thesis by auto
qed

end
