(* ===== verification/Migrations.thy ===== *)
theory Migrations
  imports WebApi
begin

text \<open>
  The Alembic migrations (\<open>migrations/versions\<close>) as functions on the state of the table: its name, columns,
  width of the status column, check constraints, indexes and rows. A statement the database refuses is
  \<open>None\<close>: an update or a new constraint that a row violates, a table or column that is not there. Types,
  defaults and the columns no migration touches are left out.
\<close>

section \<open>The table\<close>

datatype check = StatusIn "string list" | BboxIn "string list"

record mrow =
  m_id :: string
  m_idem :: "string option"
  m_status :: string
  m_bbox :: "string option"

record schema =
  db_table :: string
  db_columns :: "string list"
  db_width :: nat
  db_checks :: "(string \<times> check) list"
  db_indexes :: "string list"
  db_rows :: "mrow list"

fun check_holds :: "check \<Rightarrow> mrow \<Rightarrow> bool" where
  "check_holds (StatusIn vs) r = (m_status r \<in> set vs)"
| "check_holds (BboxIn vs) r = (case m_bbox r of None \<Rightarrow> True | Some b \<Rightarrow> b \<in> set vs)"

definition row_allowed :: "schema \<Rightarrow> mrow \<Rightarrow> bool" where
  "row_allowed db r \<longleftrightarrow> length (m_status r) \<le> db_width db \<and> list_all (\<lambda>(n, c). check_holds c r) (db_checks db)"

definition rename_table :: "string \<Rightarrow> string \<Rightarrow> schema \<Rightarrow> schema option" where
  "rename_table old new db = (if db_table db = old then Some (db\<lparr>db_table := new\<rparr>) else None)"

definition rename_column :: "string \<Rightarrow> string \<Rightarrow> schema \<Rightarrow> schema option" where
  "rename_column old new db = (if old \<in> set (db_columns db) \<and> new \<notin> set (db_columns db)
     then Some (db\<lparr>db_columns := map (\<lambda>c. if c = old then new else c) (db_columns db)\<rparr>) else None)"

text \<open>\<open>UPDATE ... SET status = new WHERE status = old\<close>: the rows written are checked.\<close>

definition set_status :: "string \<Rightarrow> string \<Rightarrow> schema \<Rightarrow> schema option" where
  "set_status old new db =
     (if list_all (\<lambda>r. m_status r = old \<longrightarrow> row_allowed db (r\<lparr>m_status := new\<rparr>)) (db_rows db)
      then Some (db\<lparr>db_rows := map (\<lambda>r. if m_status r = old then r\<lparr>m_status := new\<rparr> else r) (db_rows db)\<rparr>) else None)"

definition drop_check :: "string \<Rightarrow> schema \<Rightarrow> schema option" where
  "drop_check n db = Some (db\<lparr>db_checks := filter (\<lambda>(m, c). m \<noteq> n) (db_checks db)\<rparr>)"

definition create_check :: "string \<Rightarrow> check \<Rightarrow> schema \<Rightarrow> schema option" where
  "create_check n c db = (if n \<in> fst ` set (db_checks db) \<or> \<not> list_all (check_holds c) (db_rows db) then None
     else Some (db\<lparr>db_checks := db_checks db @ [(n, c)]\<rparr>))"

definition drop_index :: "string \<Rightarrow> schema \<Rightarrow> schema option" where
  "drop_index n db = Some (db\<lparr>db_indexes := filter (\<lambda>m. m \<noteq> n) (db_indexes db)\<rparr>)"

text \<open>The unique index on the keys that are not null.\<close>

definition keys_unique :: "mrow list \<Rightarrow> bool" where
  "keys_unique rs \<longleftrightarrow> distinct (map m_idem (filter (\<lambda>r. m_idem r \<noteq> None) rs))"

definition create_key_index :: "string \<Rightarrow> schema \<Rightarrow> schema option" where
  "create_key_index n db = (if n \<in> set (db_indexes db) \<or> \<not> keys_unique (db_rows db) then None else Some (db\<lparr>db_indexes := db_indexes db @ [n]\<rparr>))"

definition widen :: "nat \<Rightarrow> schema \<Rightarrow> schema option" where
  "widen w db = (if list_all (\<lambda>r. length (m_status r) \<le> w) (db_rows db) then Some (db\<lparr>db_width := w\<rparr>) else None)"

definition add_column :: "string \<Rightarrow> schema \<Rightarrow> schema option" where
  "add_column n db = (if n \<in> set (db_columns db) then None else Some (db\<lparr>db_columns := db_columns db @ [n]\<rparr>))"

fun steps :: "(schema \<Rightarrow> schema option) list \<Rightarrow> schema \<Rightarrow> schema option" where
  "steps [] db = Some db"
| "steps (f # fs) db = (case f db of None \<Rightarrow> None | Some db' \<Rightarrow> steps fs db')"

section \<open>The revisions\<close>

definition base_columns :: "string list" where
  "base_columns = [''id'', ''idempotency_key'', ''status'', ''filename'', ''content_sha256'', ''content_bytes'', ''schema_json'', ''options_json'',
     ''callback_url'', ''metadata_json'', ''result_json'', ''error_code'', ''error_message'', ''attempts'', ''created_at'', ''started_at'', ''finished_at'']"

definition upgrade_0001 :: schema where
  "upgrade_0001 = \<lparr>db_table = ''extraction_jobs'', db_columns = base_columns, db_width = 16, db_checks = [],
     db_indexes = [''uq_extraction_jobs_idempotency_key''], db_rows = []\<rparr>"

definition rename_pairs :: "(string \<times> string) list" where
  "rename_pairs = [(''bbox_refine_status'', ''post_processing_bbox_status''), (''bbox_refine_attempts'', ''post_processing_bbox_attempts''),
     (''bbox_refine_started_at'', ''post_processing_bbox_started_at''), (''bbox_refine_finished_at'', ''post_processing_bbox_finished_at''),
     (''bbox_refine_error_code'', ''post_processing_bbox_error_code''), (''bbox_refine_error_message'', ''post_processing_bbox_error_message'')]"

definition bbox_columns :: "string list" where
  "bbox_columns = [''bbox_refine_status'', ''bbox_refine_attempts'', ''bbox_refine_started_at'', ''bbox_refine_finished_at'', ''bbox_refine_error_code'', ''bbox_refine_error_message'']"

definition upgrade_0002 :: "schema \<Rightarrow> schema option" where
  "upgrade_0002 = steps (map add_column bbox_columns)"

definition upgrade_0003 :: "schema \<Rightarrow> schema option" where
  "upgrade_0003 = widen 24"

definition downgrade_0003 :: "schema \<Rightarrow> schema option" where
  "downgrade_0003 = widen 16"

definition status_map :: "(string \<times> string) list" where
  "status_map = [(''QUEUED'', ''queued''), (''RUNNING'', ''running''), (''SUCCEEDED'', ''succeeded''), (''FAILED'', ''failed''), (''CANCELLED'', ''cancelled''),
     (''PARTIAL_SUCCEEDED'', ''succeeded''), (''REFINING_BBOXES'', ''succeeded'')]"

definition new_statuses :: "string list" where
  "new_statuses = [''queued'', ''running'', ''succeeded'', ''failed'', ''cancelled'']"

definition new_bbox_statuses :: "string list" where
  "new_bbox_statuses = [''pending'', ''running'', ''succeeded'', ''failed'']"

definition old_statuses :: "string list" where
  "old_statuses = [''QUEUED'', ''RUNNING'', ''SUCCEEDED'', ''FAILED'', ''CANCELLED'', ''PARTIAL_SUCCEEDED'', ''REFINING_BBOXES'']"

text \<open>The flag is whether the database is Postgres; elsewhere the constraints are left alone.\<close>

definition upgrade_0004 :: "bool \<Rightarrow> schema \<Rightarrow> schema option" where
  "upgrade_0004 pg = steps ([rename_table ''extraction_jobs'' ''extractions'', rename_column ''created_at'' ''submitted_at'']
     @ map (\<lambda>(upper, lower). set_status upper lower) status_map
     @ map (\<lambda>(old, new). rename_column old new) rename_pairs
     @ (if pg then [drop_check ''ck_extraction_jobs_status'', drop_check ''ck_extractions_status'', drop_check ''ck_extraction_jobs_bbox_refine_status'',
          drop_check ''ck_extractions_post_processing_bbox_status'', create_check ''ck_extractions_status'' (StatusIn new_statuses),
          create_check ''ck_extractions_post_processing_bbox_status'' (BboxIn new_bbox_statuses)] else [])
     @ [drop_index ''uq_extraction_jobs_idempotency_key'', create_key_index ''uq_extractions_idempotency_key''])"

definition downgrade_0004 :: "bool \<Rightarrow> schema \<Rightarrow> schema option" where
  "downgrade_0004 pg = steps ((if pg then [drop_check ''ck_extractions_status'', drop_check ''ck_extractions_post_processing_bbox_status''] else [])
     @ map (\<lambda>(old, new). rename_column new old) rename_pairs
     @ map (\<lambda>(upper, lower). set_status lower upper) (filter (\<lambda>(upper, lower). upper \<notin> {''PARTIAL_SUCCEEDED'', ''REFINING_BBOXES''}) status_map)
     @ (if pg then [create_check ''ck_extraction_jobs_status'' (StatusIn old_statuses)] else [])
     @ [rename_column ''submitted_at'' ''created_at'', drop_index ''uq_extractions_idempotency_key'', create_key_index ''uq_extraction_jobs_idempotency_key'',
        rename_table ''extractions'' ''extraction_jobs''])"

section \<open>What an upgrade does\<close>

lemma steps_append: "steps (fs @ gs) db = (case steps fs db of None \<Rightarrow> None | Some db' \<Rightarrow> steps gs db')"
  by (induction fs arbitrary: db) (auto split: option.splits)

text \<open>The state the first three revisions and the old service leave.\<close>

definition legacy :: "schema \<Rightarrow> bool" where
  "legacy db \<longleftrightarrow> db_table db = ''extraction_jobs'' \<and> db_columns db = base_columns @ bbox_columns \<and> db_width db = 24 \<and> db_checks db = []
     \<and> db_indexes db = [''uq_extraction_jobs_idempotency_key''] \<and> keys_unique (db_rows db)
     \<and> list_all (\<lambda>r. m_status r \<in> set old_statuses \<and> (case m_bbox r of None \<Rightarrow> True | Some b \<Rightarrow> b \<in> set new_bbox_statuses)) (db_rows db)"

definition renamed :: "(string \<times> string) list \<Rightarrow> string \<Rightarrow> string" where
  "renamed m s = (case map_of m s of Some t \<Rightarrow> t | None \<Rightarrow> s)"

definition restatus :: "(string \<times> string) list \<Rightarrow> mrow \<Rightarrow> mrow" where
  "restatus m r = r\<lparr>m_status := renamed m (m_status r)\<rparr>"

text \<open>A chain of updates is one renaming when no status it writes is one it still looks for.\<close>

fun chained :: "(string \<times> string) list \<Rightarrow> bool" where
  "chained [] = True"
| "chained ((a, b) # m) = (a \<notin> fst ` set m \<and> b \<notin> fst ` set m \<and> chained m)"

lemma renamed_step: "chained ((a, b) # m) \<Longrightarrow> renamed m (if s = a then b else s) = renamed ((a, b) # m) s"
  by (auto simp: renamed_def map_of_eq_None_iff split: option.splits dest: map_of_SomeD) (metis fst_conv image_eqI map_of_SomeD)+

lemma status_steps:
  assumes "db_checks db = []" "\<forall>(a, b)\<in>set m. length b \<le> db_width db"
  shows "chained m \<Longrightarrow> steps (map (\<lambda>(a, b). set_status a b) m) db = Some (db\<lparr>db_rows := map (restatus m) (db_rows db)\<rparr>)"
  using assms
proof (induction m arbitrary: db)
  case Nil
  have "restatus [] r = r" for r by (simp add: restatus_def renamed_def)
  then have "map (restatus []) rs = rs" for rs by (simp add: map_idI)
  then show ?case by simp
next
  case (Cons x m)
  obtain a b where x: "x = (a, b)" by (cases x)
  let ?db = "db\<lparr>db_rows := map (\<lambda>r. if m_status r = a then r\<lparr>m_status := b\<rparr> else r) (db_rows db)\<rparr>"
  have one: "set_status a b db = Some ?db"
    using Cons.prems x by (auto simp: set_status_def row_allowed_def list_all_iff)
  have "restatus m (if m_status r = a then r\<lparr>m_status := b\<rparr> else r) = restatus (x # m) r" for r
    using renamed_step [of a b m "m_status r"] Cons.prems(1) x by (auto simp: restatus_def)
  then have "map (restatus m) (db_rows ?db) = map (restatus (x # m)) (db_rows db)" by (simp add: comp_def)
  with Cons.IH [of ?db] Cons.prems x one show ?case by simp
qed

text \<open>The renamings of columns, on the columns alone.\<close>

fun rename_all :: "(string \<times> string) list \<Rightarrow> string list \<Rightarrow> string list option" where
  "rename_all [] cs = Some cs"
| "rename_all ((old, new) # ps) cs = (if old \<in> set cs \<and> new \<notin> set cs then rename_all ps (map (\<lambda>c. if c = old then new else c) cs) else None)"

lemma rename_steps:
  "rename_all ps (db_columns db) = Some cs \<Longrightarrow> steps (map (\<lambda>(old, new). rename_column old new) ps) db = Some (db\<lparr>db_columns := cs\<rparr>)"
  by (induction ps "db_columns db" arbitrary: db rule: rename_all.induct) (simp_all add: rename_column_def split: if_splits)

definition new_columns :: "string list" where
  "new_columns = map (renamed ((''created_at'', ''submitted_at'') # rename_pairs)) (base_columns @ bbox_columns)"

lemma column_runs:
  "rename_all ((''created_at'', ''submitted_at'') # rename_pairs) (base_columns @ bbox_columns) = Some new_columns"
  "rename_all (map (\<lambda>(a, b). (b, a)) rename_pairs @ [(''submitted_at'', ''created_at'')]) new_columns = Some (base_columns @ bbox_columns)"
  by code_simp+

lemma rename_all_append: "rename_all (ps @ qs) cs = (case rename_all ps cs of None \<Rightarrow> None | Some ds \<Rightarrow> rename_all qs ds)"
  by (induction ps cs rule: rename_all.induct) simp_all

lemma upgraded_statuses: "\<forall>s\<in>set old_statuses. renamed status_map s \<in> set new_statuses" "chained status_map"
  "\<forall>(a, b)\<in>set status_map. length b \<le> 24"
  by code_simp+

definition new_checks :: "bool \<Rightarrow> (string \<times> check) list" where
  "new_checks pg = (if pg then [(''ck_extractions_status'', StatusIn new_statuses), (''ck_extractions_post_processing_bbox_status'', BboxIn new_bbox_statuses)] else [])"

lemma restatus_keys [simp]: "m_idem (restatus m r) = m_idem r" "m_id (restatus m r) = m_id r" "m_bbox (restatus m r) = m_bbox r"
  "m_status (restatus m r) = renamed m (m_status r)"
  by (simp_all add: restatus_def)

lemma keys_unique_restatus [simp]: "keys_unique (map (restatus m) rs) = keys_unique rs"
  by (simp add: keys_unique_def filter_map comp_def)

lemma upgrade_result:
  assumes "legacy db"
  shows "upgrade_0004 pg db = Some (db\<lparr>db_table := ''extractions'', db_columns := new_columns, db_checks := new_checks pg,
      db_indexes := [''uq_extractions_idempotency_key''], db_rows := map (restatus status_map) (db_rows db)\<rparr>)"
proof -
  let ?d1 = "db\<lparr>db_table := ''extractions''\<rparr>"
  obtain cs where cs: "rename_column ''created_at'' ''submitted_at'' ?d1 = Some (?d1\<lparr>db_columns := cs\<rparr>)" "rename_all rename_pairs cs = Some new_columns"
    using column_runs(1) assms by (auto simp: rename_column_def legacy_def split: if_splits)
  let ?d2 = "?d1\<lparr>db_columns := cs\<rparr>"
  let ?d3 = "?d2\<lparr>db_rows := map (restatus status_map) (db_rows db)\<rparr>"
  have s: "steps (map (\<lambda>(upper, lower). set_status upper lower) status_map) ?d2 = Some ?d3"
    using status_steps [of ?d2 status_map] upgraded_statuses(2,3) assms by (simp add: legacy_def)
  have c: "steps (map (\<lambda>(old, new). rename_column old new) rename_pairs) ?d3 = Some (?d3\<lparr>db_columns := new_columns\<rparr>)"
    using rename_steps [of rename_pairs ?d3] cs(2) by simp
  have ok: "list_all (check_holds (StatusIn new_statuses)) (map (restatus status_map) (db_rows db))"
    "list_all (check_holds (BboxIn new_bbox_statuses)) (map (restatus status_map) (db_rows db))"
    using assms upgraded_statuses(1) by (auto simp: legacy_def list_all_iff)
  show ?thesis unfolding upgrade_0004_def steps_append
    using assms ok by (cases pg) (simp_all add: rename_table_def cs(1) s c legacy_def drop_check_def create_check_def drop_index_def create_key_index_def new_checks_def)
qed

text \<open>The upgrade takes every table the old service can leave: each row keeps its key and gets a status the new
  service knows, the two intermediate ones become \<open>succeeded\<close>, and every row satisfies the constraints of the entity.\<close>

lemma upgraded_rows_known:
  assumes "legacy db" "upgrade_0004 pg db = Some db'" "r \<in> set (db_rows db')"
  shows "m_status r \<in> set (map status_name all_statuses) \<and> (case m_bbox r of None \<Rightarrow> True | Some b \<Rightarrow> b \<in> set (map pp_name all_pp))"
proof -
  have n: "set (map status_name all_statuses) = set new_statuses" "set (map pp_name all_pp) = set new_bbox_statuses" by code_simp+
  from assms obtain r0 where "r0 \<in> set (db_rows db)" "r = restatus status_map r0" by (auto simp: upgrade_result)
  with assms(1) upgraded_statuses(1) show ?thesis unfolding n by (auto simp: legacy_def list_all_iff)
qed

section \<open>Rolling back\<close>

definition back_map :: "(string \<times> string) list" where
  "back_map = map (\<lambda>(a, b). (b, a)) (filter (\<lambda>(upper, lower). upper \<notin> {''PARTIAL_SUCCEEDED'', ''REFINING_BBOXES''}) status_map)"

lemma back_statuses: "\<forall>s\<in>set old_statuses. renamed back_map (renamed status_map s) = (if s \<in> {''PARTIAL_SUCCEEDED'', ''REFINING_BBOXES''} then ''SUCCEEDED'' else s)"
  "chained back_map" "\<forall>(a, b)\<in>set back_map. length b \<le> 24"
  by code_simp+

definition collapsed :: "mrow \<Rightarrow> mrow" where
  "collapsed r = (if m_status r \<in> {''PARTIAL_SUCCEEDED'', ''REFINING_BBOXES''} then r\<lparr>m_status := ''SUCCEEDED''\<rparr> else r)"

lemma collapsed_idem [simp]: "m_idem (collapsed r) = m_idem r"
  by (simp add: collapsed_def)

lemma keys_unique_collapsed [simp]: "keys_unique (map collapsed rs) = keys_unique rs"
  by (simp add: keys_unique_def filter_map comp_def)

definition old_checks :: "bool \<Rightarrow> (string \<times> check) list" where
  "old_checks pg = (if pg then [(''ck_extraction_jobs_status'', StatusIn old_statuses)] else [])"

lemma restatus_back: "m_status r \<in> set old_statuses \<Longrightarrow> restatus back_map (restatus status_map r) = collapsed r"
  using back_statuses(1) by (auto simp: restatus_def collapsed_def)

text \<open>A downgrade takes the upgraded table back: names, columns, index and rows are those before, but for the
  intermediate states, and on Postgres there is a check constraint that was not there before.\<close>

lemma downgrade_result:
  assumes "legacy db" "upgrade_0004 pg db = Some db'"
  shows "downgrade_0004 pg db' = Some (db\<lparr>db_rows := map collapsed (db_rows db), db_checks := old_checks pg\<rparr>)"
proof -
  let ?d1 = "db'\<lparr>db_checks := []\<rparr>"
  have d': "db' = db\<lparr>db_table := ''extractions'', db_columns := new_columns, db_checks := new_checks pg,
      db_indexes := [''uq_extractions_idempotency_key''], db_rows := map (restatus status_map) (db_rows db)\<rparr>"
    using assms upgrade_result by simp
  obtain cs where cs: "rename_all (map (\<lambda>(a, b). (b, a)) rename_pairs) new_columns = Some cs"
      "rename_all [(''submitted_at'', ''created_at'')] cs = Some (base_columns @ bbox_columns)"
    using column_runs(2) by (auto simp: rename_all_append split: option.splits)
  have pairs: "map (\<lambda>(old, new). rename_column new old) rename_pairs = map (\<lambda>(old, new). rename_column old new) (map (\<lambda>(a, b). (b, a)) rename_pairs)"
    by (simp add: comp_def split_beta)
  have c: "steps (map (\<lambda>(old, new). rename_column new old) rename_pairs) ?d1 = Some (?d1\<lparr>db_columns := cs\<rparr>)"
    unfolding pairs using rename_steps [of "map (\<lambda>(a, b). (b, a)) rename_pairs" ?d1] cs(1) d' by simp
  let ?d2 = "?d1\<lparr>db_columns := cs\<rparr>"
  have rows: "map (restatus back_map) (db_rows db') = map collapsed (db_rows db)"
    using assms(1) restatus_back by (auto simp: d' legacy_def list_all_iff)
  have backs: "map (\<lambda>(upper, lower). set_status lower upper) (filter (\<lambda>(upper, lower). upper \<notin> {''PARTIAL_SUCCEEDED'', ''REFINING_BBOXES''}) status_map)
      = map (\<lambda>(a, b). set_status a b) back_map"
    unfolding back_map_def map_map by (rule arg_cong2 [of _ _ _ _ map]) (auto simp: fun_eq_iff)
  have s: "steps (map (\<lambda>(a, b). set_status a b) back_map) ?d2 = Some (?d2\<lparr>db_rows := map collapsed (db_rows db)\<rparr>)"
    using status_steps [of ?d2 back_map] back_statuses(2,3) assms(1) rows by (simp add: d' legacy_def)
  have ok: "list_all (check_holds (StatusIn old_statuses)) (map collapsed (db_rows db))"
    using assms(1) by (auto simp: legacy_def list_all_iff collapsed_def old_statuses_def)
  have keys: "keys_unique (map collapsed (db_rows db))"
    using assms(1) by (simp add: legacy_def)
  have col: "rename_column ''submitted_at'' ''created_at'' d = Some (d\<lparr>db_columns := base_columns @ bbox_columns\<rparr>)" if "db_columns d = cs" for d
    using cs(2) that by (auto simp: rename_column_def split: if_splits)
  have d: "steps (if pg then [drop_check ''ck_extractions_status'', drop_check ''ck_extractions_post_processing_bbox_status''] else []) db' = Some ?d1"
    by (cases pg) (simp_all add: d' drop_check_def new_checks_def)
  show ?thesis unfolding downgrade_0004_def steps_append backs d option.case c s
    using assms(1) ok keys by (cases pg)
      (simp_all add: col create_check_def drop_index_def create_key_index_def rename_table_def legacy_def old_checks_def d')
qed

lemma blocked_updates:
  assumes "(n, StatusIn vs) \<in> set (db_checks db)" "r \<in> set (db_rows db)"
  shows "\<forall>(a, b)\<in>set m. b \<notin> set vs \<Longrightarrow> m_status r \<in> fst ` set m \<Longrightarrow> steps (map (\<lambda>(a, b). set_status a b) m) db = None"
proof (induction m)
  case (Cons x m)
  obtain a b where x: "x = (a, b)" by (cases x)
  have bad: "\<not> row_allowed db (r'\<lparr>m_status := b\<rparr>)" for r'
    using assms(1) Cons.prems(1) x by (auto simp: row_allowed_def list_all_iff intro!: bexI [of _ "(n, StatusIn vs)"])
  show ?case
  proof (cases "\<exists>r'\<in>set (db_rows db). m_status r' = a")
    case True
    with bad x show ?thesis by (auto simp: set_status_def list_all_iff)
  next
    case False
    then have "map (\<lambda>r. if m_status r = a then r\<lparr>m_status := b\<rparr> else r) (db_rows db) = db_rows db"
      by (auto intro!: map_idI)
    with False have "set_status a b db = Some db" by (auto simp: set_status_def list_all_iff)
    moreover have "m_status r \<in> fst ` set m" using Cons.prems(2) False assms(2) x by auto
    ultimately show ?thesis using Cons x by simp
  qed
qed simp

lemma lower_not_old: "\<forall>(a, b)\<in>set status_map. b \<notin> set old_statuses" "fst ` set status_map = set old_statuses"
  by code_simp+

text \<open>C39: Rolling back is a one-way street. Every table of the old service is upgraded, with the statuses translated,
  and taken back by the downgrade, which restores names, columns, index and rows but for the intermediate states.
  On Postgres it also adds a check of the old statuses that the table did not have; the upgrade writes
  the new statuses before it drops that check, so a table with rows cannot be upgraded again.\<close>

theorem rollback_blocks_upgrade:
  assumes "legacy db" "db_rows db \<noteq> []"
  shows "\<exists>db'. upgrade_0004 pg db = Some db' \<and> map m_id (db_rows db') = map m_id (db_rows db)
     \<and> list_all (\<lambda>r. m_status r \<in> set (map status_name all_statuses) \<and> (case m_bbox r of None \<Rightarrow> True | Some b \<Rightarrow> b \<in> set (map pp_name all_pp))) (db_rows db')
     \<and> (\<exists>db''. downgrade_0004 pg db' = Some db'' \<and> db_rows db'' = map collapsed (db_rows db)
         \<and> db'' = db\<lparr>db_rows := db_rows db'', db_checks := old_checks pg\<rparr> \<and> (pg \<longrightarrow> upgrade_0004 pg db'' = None))"
proof -
  obtain db' where up: "upgrade_0004 pg db = Some db'" using upgrade_result [OF assms(1)] by blast
  let ?b = "db\<lparr>db_rows := map collapsed (db_rows db), db_checks := old_checks pg\<rparr>"
  have known: "list_all (\<lambda>r. m_status r \<in> set (map status_name all_statuses) \<and> (case m_bbox r of None \<Rightarrow> True | Some b \<Rightarrow> b \<in> set (map pp_name all_pp))) (db_rows db')"
    using upgraded_rows_known [OF assms(1) up] by (simp only: list_all_iff) blast
  have ids: "map m_id (db_rows db') = map m_id (db_rows db)" using upgrade_result [OF assms(1), of pg] up by auto
  have "upgrade_0004 pg ?b = None" if pg
  proof -
    let ?d1 = "?b\<lparr>db_table := ''extractions''\<rparr>"
    obtain cs where cs: "rename_column ''created_at'' ''submitted_at'' ?d1 = Some (?d1\<lparr>db_columns := cs\<rparr>)"
      using column_runs(1) assms(1) by (auto simp: rename_column_def legacy_def split: if_splits)
    let ?d2 = "?d1\<lparr>db_columns := cs\<rparr>"
    obtain r where r: "r \<in> set (map collapsed (db_rows db))" using assms(2) by (cases "db_rows db") auto
    then have "m_status r \<in> fst ` set status_map"
      unfolding lower_not_old(2) using assms(1) by (auto simp: legacy_def list_all_iff collapsed_def old_statuses_def)
    then have "steps (map (\<lambda>(a, b). set_status a b) status_map) ?d2 = None"
      using blocked_updates [of "''ck_extraction_jobs_status''" old_statuses ?d2 r status_map] r lower_not_old(1) that by (simp add: old_checks_def)
    then show ?thesis unfolding upgrade_0004_def steps_append using assms(1) cs by (simp add: rename_table_def legacy_def)
  qed
  with up known ids downgrade_result [OF assms(1) up] show ?thesis by fastforce
qed

definition legacy_sample :: schema where
  "legacy_sample = \<lparr>db_table = ''extraction_jobs'', db_columns = base_columns @ bbox_columns, db_width = 24, db_checks = [],
     db_indexes = [''uq_extraction_jobs_idempotency_key''],
     db_rows = [\<lparr>m_id = ''a'', m_idem = Some ''k'', m_status = ''REFINING_BBOXES'', m_bbox = Some ''running''\<rparr>, \<lparr>m_id = ''b'', m_idem = None, m_status = ''QUEUED'', m_bbox = None\<rparr>]\<rparr>"

theorem rollback_blocks_upgrade_witness:
  "\<exists>db' db''. upgrade_0004 True legacy_sample = Some db' \<and> downgrade_0004 True db' = Some db'' \<and> upgrade_0004 True db'' = None"
proof -
  have "legacy legacy_sample" "db_rows legacy_sample \<noteq> []"
    by (simp_all add: legacy_def legacy_sample_def keys_unique_def old_statuses_def new_bbox_statuses_def)
  from rollback_blocks_upgrade [OF this, of True] show ?thesis by blast
qed

text \<open>A fresh database reaches the upgraded state, with the status column as wide as the third revision made it.\<close>

lemma fresh_chain:
  "(case steps [upgrade_0002, upgrade_0003, upgrade_0004 True] upgrade_0001 of None \<Rightarrow> False | Some db \<Rightarrow>
      db_table db = ''extractions'' \<and> db_columns db = new_columns \<and> db_checks db = new_checks True \<and> db_width db = 24)"
  by code_simp

end
