(* ===== verification/WireModels.thy ===== *)
theory WireModels
  imports Domain
begin

text \<open>
  The two declarations of the wire format: the models of the server (\<open>interfaces/dtos\<close>, \<open>interfaces/enums\<close>) and
  their mirror in the SDK (\<open>flydocs_sdk/models.py\<close>), as data: the names of the fields of each model, whether a field is
  required, and the models its value may be. The server's models forbid fields they do not declare, the
  SDK's allow them; a dump (\<open>model_dump\<close> with \<open>exclude_none=False\<close>) has all the declared fields of its model, and keys a
  caller adds to an SDK model on top of them are left out. Leaf types and bounds are not compared.
\<close>

section \<open>Declarations\<close>

type_synonym field_decl = "string \<times> bool \<times> string list"
type_synonym models = "(string \<times> field_decl list) list"

abbreviation req :: "string \<Rightarrow> field_decl" where
  "req n \<equiv> (n, True, [])"

abbreviation opt :: "string \<Rightarrow> field_decl" where
  "opt n \<equiv> (n, False, [])"

definition sdk_field_models :: "models" where
  "sdk_field_models = [
     (''BoundingBox'', [req ''xmin'', req ''ymin'', req ''xmax'', req ''ymax'', opt ''quality'', opt ''quality_score'', opt ''source'',
        opt ''refinement_confidence'']),
     (''ValidatorSpec'', [req ''name'', opt ''params'', opt ''severity'']),
     (''Field'', [req ''name'', opt ''description'', opt ''type'', opt ''required'', opt ''pattern'', opt ''format'', opt ''enum'',
        opt ''minimum'', opt ''maximum'', (''items'', False, [''Field'']), (''fields'', False, [''Field'']),
        (''validators'', False, [''ValidatorSpec''])]),
     (''FieldGroup'', [req ''name'', opt ''description'', (''fields'', True, [''Field''])])]"

definition sdk_type_models :: "models" where
  "sdk_type_models = [
     (''VisualCheck'', [req ''name'', req ''description'']),
     (''DocumentTypeSpec'', [req ''id'', opt ''description'', opt ''country'', (''field_groups'', True, [''FieldGroup'']),
        (''visual_checks'', False, [''VisualCheck''])]),
     (''RuleFieldParent'', [opt ''kind'', req ''document_type'', req ''fields'']),
     (''RuleValidatorParent'', [opt ''kind'', req ''document_type'', req ''validator'']),
     (''RuleRuleParent'', [opt ''kind'', req ''rule'']),
     (''RuleOutputSpec'', [opt ''type'', opt ''valid_outputs'']),
     (''RuleSpec'', [req ''id'', req ''predicate'',
        (''parents'', False, [''RuleFieldParent'', ''RuleValidatorParent'', ''RuleRuleParent'']),
        (''output'', False, [''RuleOutputSpec''])]),
     (''EntityResolutionTransformation'', [opt ''id'', req ''target_group'', opt ''output_group'', opt ''scope'', opt ''type'', req ''match_by'',
        opt ''min_shared_tokens'']),
     (''PartsOfWholeInvariant'', [req ''share_field'', opt ''total'', opt ''tolerance'', opt ''on_violation'']),
     (''LlmTransformation'', [opt ''id'', req ''target_group'', opt ''output_group'', opt ''scope'', opt ''type'', req ''intention'',
        opt ''prompt_id'', opt ''include_provenance'', (''invariant'', False, [''PartsOfWholeInvariant''])])]"

definition sdk_request_models :: "models" where
  "sdk_request_models = [
     (''StageToggles'', [opt ''splitter'', opt ''classifier'', opt ''field_validation'', opt ''visual_authenticity'',
        opt ''content_authenticity'', opt ''judge'', opt ''judge_escalation'', opt ''bbox_refine'', opt ''transform'',
        opt ''rule_engine'']),
     (''EscalationConfig'', [req ''threshold'', req ''model'']),
     (''ExtractionOptions'', [opt ''model'', opt ''language_hint'', opt ''return_bboxes'', opt ''declared_media_type'',
        (''stages'', False, [''StageToggles'']), (''escalation'', False, [''EscalationConfig'']),
        (''transformations'', False, [''EntityResolutionTransformation'', ''LlmTransformation''])]),
     (''FileInput'', [req ''filename'', opt ''content_base64'', opt ''content_type'', opt ''expected_type'']),
     (''ExtractionRequest'', [opt ''intention'', (''files'', True, [''FileInput'']), (''document_types'', True, [''DocumentTypeSpec'']),
        (''rules'', False, [''RuleSpec'']), (''options'', False, [''ExtractionOptions''])]),
     (''SubmitExtractionRequest'', [opt ''intention'', (''files'', True, [''FileInput'']), (''document_types'', True, [''DocumentTypeSpec'']),
        (''rules'', False, [''RuleSpec'']), (''options'', False, [''ExtractionOptions'']), opt ''callback_url'',
        opt ''metadata''])]"

definition sdk_field_result_models :: "models" where
  "sdk_field_result_models = [
     (''FieldValidationError'', [req ''rule'', req ''message'']),
     (''FieldValidation'', [opt ''valid'', (''errors'', False, [''FieldValidationError''])]),
     (''JudgeOutcome'', [opt ''status'', opt ''confidence'', opt ''evidence'', opt ''notes'', opt ''flag_for_review'']),
     (''ExtractedField'', [req ''name'', (''value'', False, [''ExtractedField'']), opt ''pages'', opt ''confidence'',
        (''bbox'', False, [''BoundingBox'']), (''validation'', False, [''FieldValidation'']),
        (''judge'', False, [''JudgeOutcome'']), opt ''notes'', opt ''source'']),
     (''ExtractedFieldGroup'', [req ''name'', (''fields'', True, [''ExtractedField''])]),
     (''VisualCheckResult'', [req ''name'', req ''passed'', opt ''confidence'', opt ''notes'']),
     (''ContentCoherenceCheck'', [req ''name'', req ''description'', req ''status'', opt ''evidence'', opt ''reasoning'']),
     (''ContentAuthenticity'', [opt ''overall_integrity_status'', (''checks'', False, [''ContentCoherenceCheck''])]),
     (''DocumentAuthenticity'', [(''visual'', False, [''VisualCheckResult'']), (''content'', False, [''ContentAuthenticity''])])]"

definition sdk_result_models :: "models" where
  "sdk_result_models = [
     (''ClassificationInfo'', [req ''document_type'', opt ''matched'', opt ''confidence'', opt ''description'', opt ''notes'']),
     (''FileSummary'', [req ''filename'', req ''media_type'', req ''page_count'', req ''bytes'', opt ''matched_type'',
        (''classification'', False, [''ClassificationInfo''])]),
     (''Document'', [req ''type'', opt ''source_file'', opt ''missing'', opt ''pages'', opt ''confidence'', opt ''description'',
        opt ''notes'', (''field_groups'', False, [''ExtractedFieldGroup'']),
        (''authenticity'', False, [''DocumentAuthenticity''])]),
     (''TraceEntry'', [req ''node'', req ''started_at'', req ''completed_at'', req ''latency_ms'', req ''status'']),
     (''PipelineError'', [req ''node'', req ''code'', req ''message'']),
     (''EscalationInfo'', [opt ''triggered'', opt ''primary_model'', opt ''escalation_model'', opt ''primary_fail_rate'',
        opt ''escalation_fail_rate'', opt ''accepted'']),
     (''UsageBreakdown'', [opt ''total_input_tokens'', opt ''total_output_tokens'', opt ''total_tokens'', opt ''total_cost_usd'',
        opt ''total_requests'', opt ''total_latency_ms'', opt ''record_count'', opt ''cache_creation_tokens'',
        opt ''cache_read_tokens'', opt ''by_agent'', opt ''by_model'']),
     (''PipelineMeta'', [req ''model'', req ''latency_ms'', (''trace'', False, [''TraceEntry'']), (''errors'', False, [''PipelineError'']),
        (''escalation'', False, [''EscalationInfo'']), (''usage'', False, [''UsageBreakdown''])]),
     (''RuleResult'', [req ''rule_id'', req ''predicate'', opt ''output'', opt ''summary'', opt ''notes'', opt ''human_revision'']),
     (''ExtractionResult'', [req ''id'', opt ''status'', (''files'', False, [''FileSummary'']), (''documents'', False, [''Document'']),
        (''discovered_documents'', False, [''Document'']), (''rule_results'', False, [''RuleResult'']),
        (''request_transformations'', False, [''ExtractedFieldGroup'']), (''pipeline'', True, [''PipelineMeta''])])]"

definition sdk_lifecycle_models :: "models" where
  "sdk_lifecycle_models = [
     (''ExtractionError'', [req ''code'', req ''message'']),
     (''BboxRefinementInfo'', [req ''status'', opt ''started_at'', opt ''finished_at'', opt ''attempts'', (''error'', False, [''ExtractionError''])]),
     (''PostProcessing'', [(''bbox_refinement'', False, [''BboxRefinementInfo''])]),
     (''Extraction'', [req ''id'', req ''status'', req ''submitted_at'', opt ''started_at'', opt ''finished_at'', opt ''attempts'',
        (''error'', False, [''ExtractionError'']), (''post_processing'', False, [''PostProcessing''])]),
     (''ExtractionResultEnvelope'', [req ''id'', (''result'', True, [''ExtractionResult''])]),
     (''ExtractionListQuery'', [opt ''statuses'', opt ''post_processing_statuses'', opt ''created_after'', opt ''created_before'',
        opt ''idempotency_key'', opt ''limit'', opt ''offset'']),
     (''ExtractionListResponse'', [(''items'', True, [''Extraction'']), req ''total'', req ''limit'', req ''offset'']),
     (''ValidationResponse'', [req ''ok'', opt ''error_count'', opt ''warning_count'', opt ''errors'', opt ''warnings'']),
     (''VersionInfo'', [req ''service'', req ''version'', req ''model'', opt ''fallback_model'', req ''eda_adapter'']),
     (''EventEnvelope'', [opt ''event_id'', req ''event_type'', opt ''version'', opt ''occurred_at'', opt ''correlation_id'', opt ''tenant_id'',
        (''extraction'', True, [''Extraction'']), (''result'', False, [''ExtractionResult'']), opt ''metadata''])]"

definition server_bbox_models :: "models" where
  "server_bbox_models = [
     (''BoundingBox'', [req ''xmin'', req ''ymin'', req ''xmax'', req ''ymax'', opt ''quality'', opt ''quality_score'', opt ''source'',
        opt ''refinement_confidence''])]"

definition server_validator_models :: "models" where
  "server_validator_models = [
     (''ValidatorSpec'', [req ''name'', opt ''params'', opt ''severity''])]"

definition server_field_models :: "models" where
  "server_field_models = [
     (''Field'', [req ''name'', opt ''description'', opt ''type'', opt ''required'', opt ''pattern'', opt ''format'', opt ''enum'',
        opt ''minimum'', opt ''maximum'', (''items'', False, [''Field'']), (''fields'', False, [''Field'']),
        (''validators'', False, [''ValidatorSpec''])]),
     (''FieldGroup'', [req ''name'', opt ''description'', (''fields'', True, [''Field''])]),
     (''FieldValidationError'', [req ''rule'', req ''message'']),
     (''FieldValidation'', [opt ''valid'', (''errors'', False, [''FieldValidationError''])]),
     (''JudgeOutcome'', [opt ''status'', opt ''confidence'', opt ''evidence'', opt ''notes'', opt ''flag_for_review'']),
     (''ExtractedField'', [req ''name'', (''value'', False, [''ExtractedField'']), opt ''pages'', opt ''confidence'',
        (''bbox'', False, [''BoundingBox'']), (''validation'', False, [''FieldValidation'']),
        (''judge'', False, [''JudgeOutcome'']), opt ''notes'', opt ''source'']),
     (''ExtractedFieldGroup'', [req ''name'', (''fields'', True, [''ExtractedField''])])]"

definition server_document_type_models :: "models" where
  "server_document_type_models = [
     (''VisualCheck'', [req ''name'', req ''description'']),
     (''DocumentTypeSpec'', [req ''id'', opt ''description'', opt ''country'', (''field_groups'', True, [''FieldGroup'']),
        (''visual_checks'', False, [''VisualCheck''])])]"

definition server_rule_models :: "models" where
  "server_rule_models = [
     (''RuleFieldParent'', [opt ''kind'', req ''document_type'', req ''fields'']),
     (''RuleValidatorParent'', [opt ''kind'', req ''document_type'', req ''validator'']),
     (''RuleRuleParent'', [opt ''kind'', req ''rule'']),
     (''RuleOutputSpec'', [opt ''type'', opt ''valid_outputs'']),
     (''RuleSpec'', [req ''id'', req ''predicate'',
        (''parents'', False, [''RuleFieldParent'', ''RuleValidatorParent'', ''RuleRuleParent'']),
        (''output'', False, [''RuleOutputSpec''])]),
     (''RuleResult'', [req ''rule_id'', req ''predicate'', opt ''output'', opt ''summary'', opt ''notes'', opt ''human_revision''])]"

definition server_transformation_models :: "models" where
  "server_transformation_models = [
     (''EntityResolutionTransformation'', [opt ''id'', req ''target_group'', opt ''output_group'', opt ''scope'', opt ''type'', req ''match_by'',
        opt ''min_shared_tokens'']),
     (''PartsOfWholeInvariant'', [req ''share_field'', opt ''total'', opt ''tolerance'', opt ''on_violation'']),
     (''LlmTransformation'', [opt ''id'', req ''target_group'', opt ''output_group'', opt ''scope'', opt ''type'', req ''intention'',
        opt ''prompt_id'', opt ''include_provenance'', (''invariant'', False, [''PartsOfWholeInvariant''])])]"

definition server_authenticity_models :: "models" where
  "server_authenticity_models = [
     (''VisualCheckResult'', [req ''name'', req ''passed'', opt ''confidence'', opt ''notes'']),
     (''ContentCoherenceCheck'', [req ''name'', req ''description'', req ''status'', opt ''evidence'', opt ''reasoning'']),
     (''ContentAuthenticity'', [opt ''overall_integrity_status'', (''checks'', False, [''ContentCoherenceCheck''])]),
     (''DocumentAuthenticity'', [(''visual'', False, [''VisualCheckResult'']), (''content'', False, [''ContentAuthenticity''])])]"

definition server_extract_models :: "models" where
  "server_extract_models = [
     (''FileInput'', [req ''filename'', opt ''content_base64'', opt ''content_type'', opt ''expected_type'']),
     (''StageToggles'', [opt ''splitter'', opt ''classifier'', opt ''field_validation'', opt ''visual_authenticity'',
        opt ''content_authenticity'', opt ''judge'', opt ''judge_escalation'', opt ''repair'', opt ''bbox_refine'',
        opt ''transform'', opt ''rule_engine'']),
     (''EscalationConfig'', [req ''threshold'', req ''model'']),
     (''ExtractionOptions'', [opt ''model'', opt ''language_hint'', opt ''return_bboxes'', opt ''declared_media_type'',
        (''stages'', False, [''StageToggles'']), (''escalation'', False, [''EscalationConfig'']),
        (''transformations'', False, [''EntityResolutionTransformation'', ''LlmTransformation''])]),
     (''ExtractionRequest'', [opt ''intention'', (''files'', True, [''FileInput'']), (''document_types'', True, [''DocumentTypeSpec'']),
        (''rules'', False, [''RuleSpec'']), (''options'', False, [''ExtractionOptions''])])]"

definition server_result_models :: "models" where
  "server_result_models = [
     (''ClassificationInfo'', [req ''document_type'', opt ''matched'', opt ''confidence'', opt ''description'', opt ''notes'']),
     (''FileSummary'', [req ''filename'', req ''media_type'', req ''page_count'', req ''bytes'', opt ''matched_type'',
        (''classification'', False, [''ClassificationInfo''])]),
     (''Document'', [req ''type'', opt ''source_file'', opt ''missing'', opt ''pages'', opt ''confidence'', opt ''description'',
        opt ''notes'', (''field_groups'', False, [''ExtractedFieldGroup'']),
        (''authenticity'', False, [''DocumentAuthenticity''])]),
     (''TraceEntry'', [req ''node'', req ''started_at'', req ''completed_at'', req ''latency_ms'', req ''status'']),
     (''PipelineError'', [req ''node'', req ''code'', req ''message'']),
     (''EscalationInfo'', [opt ''triggered'', opt ''primary_model'', opt ''escalation_model'', opt ''primary_fail_rate'',
        opt ''escalation_fail_rate'', opt ''accepted'']),
     (''RepairInfo'', [opt ''triggered'', opt ''model'', opt ''fields_flagged'', opt ''fields_repaired'', opt ''repaired_fields'',
        opt ''tasks_skipped'', opt ''rows_changed'']),
     (''UsageBreakdown'', [opt ''total_input_tokens'', opt ''total_output_tokens'', opt ''total_tokens'', opt ''total_cost_usd'',
        opt ''total_requests'', opt ''total_latency_ms'', opt ''record_count'', opt ''cache_creation_tokens'',
        opt ''cache_read_tokens'', opt ''by_agent'', opt ''by_model'']),
     (''PipelineMeta'', [req ''model'', req ''latency_ms'', (''trace'', False, [''TraceEntry'']), (''errors'', False, [''PipelineError'']),
        (''escalation'', False, [''EscalationInfo'']), (''repair'', False, [''RepairInfo'']),
        (''usage'', False, [''UsageBreakdown''])]),
     (''ExtractionResult'', [req ''id'', opt ''status'', (''files'', False, [''FileSummary'']), (''documents'', False, [''Document'']),
        (''discovered_documents'', False, [''Document'']), (''rule_results'', False, [''RuleResult'']),
        (''request_transformations'', False, [''ExtractedFieldGroup'']), (''pipeline'', True, [''PipelineMeta''])])]"

definition server_extraction_models :: "models" where
  "server_extraction_models = [
     (''SubmitExtractionRequest'', [opt ''intention'', (''files'', True, [''FileInput'']), (''document_types'', True, [''DocumentTypeSpec'']),
        (''rules'', False, [''RuleSpec'']), (''options'', False, [''ExtractionOptions'']), opt ''callback_url'',
        opt ''metadata'']),
     (''ExtractionError'', [req ''code'', req ''message'']),
     (''BboxRefinementInfo'', [req ''status'', opt ''started_at'', opt ''finished_at'', opt ''attempts'', (''error'', False, [''ExtractionError''])]),
     (''PostProcessing'', [(''bbox_refinement'', False, [''BboxRefinementInfo''])]),
     (''Extraction'', [req ''id'', req ''status'', req ''submitted_at'', opt ''started_at'', opt ''finished_at'', opt ''attempts'',
        (''error'', False, [''ExtractionError'']), (''post_processing'', False, [''PostProcessing''])]),
     (''ExtractionResultEnvelope'', [req ''id'', (''result'', True, [''ExtractionResult''])]),
     (''ExtractionListQuery'', [opt ''statuses'', opt ''post_processing_statuses'', opt ''created_after'', opt ''created_before'',
        opt ''idempotency_key'', opt ''limit'', opt ''offset'']),
     (''ExtractionListResponse'', [(''items'', True, [''Extraction'']), req ''total'', req ''limit'', req ''offset''])]"

definition server_event_models :: "models" where
  "server_event_models = [
     (''EventEnvelope'', [opt ''event_id'', req ''event_type'', opt ''version'', opt ''occurred_at'', opt ''correlation_id'', opt ''tenant_id'',
        (''extraction'', True, [''Extraction'']), (''result'', False, [''ExtractionResult'']), opt ''metadata''])]"

definition sdk_enums :: "(string \<times> string list) list" where
  "sdk_enums = [
     (''ExtractionStatus'', [''queued'', ''running'', ''succeeded'', ''failed'', ''cancelled'']),
     (''PostProcessingStatus'', [''pending'', ''running'', ''succeeded'', ''failed'']),
     (''FieldType'', [''string'', ''number'', ''integer'', ''boolean'', ''array'', ''object'']),
     (''StandardFormat'', [''date'', ''date-time'', ''time'', ''email'', ''uri'', ''uuid'', ''currency'']),
     (''ValidatorType'', [''email'', ''uri'', ''url'', ''domain'', ''slug'', ''ipv4'', ''ipv6'', ''date'', ''datetime'', ''time'', ''iso_8601'', ''uuid'', ''json'', ''hex_color'', ''iban'', ''bic'', ''credit_card'', ''currency_code'', ''amount'', ''phone_e164'', ''country_code'', ''language_code'', ''postal_code'', ''latitude'', ''longitude'', ''nif'', ''nie'', ''cif'', ''vat_id'', ''ssn'', ''passport_number'']),
     (''ValidationRule'', [''type'', ''pattern'', ''format'', ''enum'', ''minimum'', ''maximum'', ''validator'']),
     (''JudgeStatus'', [''pass'', ''fail'', ''uncertain'']),
     (''ContentIntegrityStatus'', [''valid'', ''invalid'', ''uncertain'']),
     (''CheckStatus'', [''pass'', ''fail'', ''uncertain'']),
     (''BboxQuality'', [''good'', ''poor'', ''suspicious'', ''invalid'']),
     (''BboxSource'', [''llm'', ''pdf_text'', ''ocr'']),
     (''TransformationScope'', [''task'', ''request''])]"

definition server_enums_bbox :: "(string \<times> string list) list" where
  "server_enums_bbox = [
     (''BboxQuality'', [''good'', ''poor'', ''suspicious'', ''invalid'']),
     (''BboxSource'', [''llm'', ''pdf_text'', ''ocr''])]"

definition server_enums_transformation :: "(string \<times> string list) list" where
  "server_enums_transformation = [
     (''TransformationScope'', [''task'', ''request''])]"

definition server_enums_extraction_status :: "(string \<times> string list) list" where
  "server_enums_extraction_status = [
     (''ExtractionStatus'', [''queued'', ''running'', ''succeeded'', ''failed'', ''cancelled'']),
     (''PostProcessingStatus'', [''pending'', ''running'', ''succeeded'', ''failed''])]"

definition server_enums_field_type :: "(string \<times> string list) list" where
  "server_enums_field_type = [
     (''FieldType'', [''string'', ''number'', ''integer'', ''boolean'', ''array'', ''object'']),
     (''StandardFormat'', [''date'', ''date-time'', ''time'', ''email'', ''uri'', ''uuid'', ''currency''])]"

definition server_enums_status :: "(string \<times> string list) list" where
  "server_enums_status = [
     (''ValidationRule'', [''type'', ''pattern'', ''format'', ''enum'', ''minimum'', ''maximum'', ''validator'']),
     (''JudgeStatus'', [''pass'', ''fail'', ''uncertain'']),
     (''ContentIntegrityStatus'', [''valid'', ''invalid'', ''uncertain'']),
     (''CheckStatus'', [''pass'', ''fail'', ''uncertain''])]"

definition server_enums_validator :: "(string \<times> string list) list" where
  "server_enums_validator = [
     (''ValidatorType'', [''email'', ''uri'', ''url'', ''domain'', ''slug'', ''ipv4'', ''ipv6'', ''date'', ''datetime'', ''time'', ''iso_8601'', ''uuid'', ''json'', ''hex_color'', ''iban'', ''bic'', ''credit_card'', ''currency_code'', ''amount'', ''phone_e164'', ''country_code'', ''language_code'', ''postal_code'', ''latitude'', ''longitude'', ''nif'', ''nie'', ''cif'', ''vat_id'', ''ssn'', ''passport_number''])]"

definition sdk_models :: models where
  "sdk_models = sdk_field_models @ sdk_type_models @ sdk_request_models @ sdk_field_result_models @ sdk_result_models @ sdk_lifecycle_models"

definition server_models :: models where
  "server_models = server_bbox_models @ server_validator_models @ server_field_models @ server_document_type_models @ server_rule_models
     @ server_transformation_models @ server_authenticity_models @ server_extract_models @ server_result_models @ server_extraction_models @ server_event_models"

definition server_enums :: "(string \<times> string list) list" where
  "server_enums = server_enums_bbox @ server_enums_transformation @ server_enums_extraction_status @ server_enums_field_type @ server_enums_status @ server_enums_validator"

section \<open>Values on the wire\<close>

text \<open>A nested value is a model, a list of them, or a leaf. The number bounds the depth of nesting looked at.\<close>

definition value_in :: "(string \<Rightarrow> pyval \<Rightarrow> bool) \<Rightarrow> string list \<Rightarrow> pyval \<Rightarrow> bool" where
  "value_in P ms v = (case v of
     PDict _ \<Rightarrow> ms = [] \<or> list_ex (\<lambda>m. P m v) ms
   | PList vs \<Rightarrow> ms = [] \<or> list_all (\<lambda>w. case w of PDict _ \<Rightarrow> list_ex (\<lambda>m. P m w) ms | _ \<Rightarrow> True) vs
   | _ \<Rightarrow> True)"

definition nested_of :: "field_decl list \<Rightarrow> string \<Rightarrow> string list" where
  "nested_of fs k = (case map_of fs k of None \<Rightarrow> [] | Some (r, ms) \<Rightarrow> ms)"

fun dumped :: "models \<Rightarrow> nat \<Rightarrow> string \<Rightarrow> pyval \<Rightarrow> bool" where
  "dumped M 0 n v = False"
| "dumped M (Suc d) n v = (case (v, map_of M n) of
     (PDict kvs, Some fs) \<Rightarrow> set (map fst kvs) = set (map fst fs) \<and> list_all (\<lambda>(k, w). value_in (dumped M d) (nested_of fs k) w) kvs
   | _ \<Rightarrow> False)"

fun taken :: "bool \<Rightarrow> models \<Rightarrow> nat \<Rightarrow> string \<Rightarrow> pyval \<Rightarrow> bool" where
  "taken forbid M 0 n v = False"
| "taken forbid M (Suc d) n v = (case (v, map_of M n) of
     (PDict kvs, Some fs) \<Rightarrow> (forbid \<longrightarrow> set (map fst kvs) \<subseteq> set (map fst fs))
       \<and> list_all (\<lambda>(k, r, ms). r \<longrightarrow> k \<in> set (map fst kvs)) fs \<and> list_all (\<lambda>(k, w). value_in (taken forbid M d) (nested_of fs k) w) kvs
   | _ \<Rightarrow> False)"

text \<open>What the declarations of one side have to have for the other side to take its dumps.\<close>

definition fields_compatible :: "bool \<Rightarrow> field_decl list \<Rightarrow> field_decl list \<Rightarrow> bool" where
  "fields_compatible forbid fs gs \<longleftrightarrow> (forbid \<longrightarrow> list_all (\<lambda>(k, _). k \<in> set (map fst gs)) fs)
     \<and> list_all (\<lambda>(k, r, ms). r \<longrightarrow> k \<in> set (map fst fs)) gs
     \<and> list_all (\<lambda>(k, r, ms). let ns = nested_of gs k in ns = [] \<or> (nested_of fs k \<noteq> [] \<and> list_all (\<lambda>m. m \<in> set ns) (nested_of fs k))) fs"

definition compatible :: "bool \<Rightarrow> models \<Rightarrow> models \<Rightarrow> bool" where
  "compatible forbid M N \<longleftrightarrow> list_all (\<lambda>(n, fs). case map_of N n of Some gs \<Rightarrow> fields_compatible forbid fs gs | None \<Rightarrow> True) M"

text \<open>Every model named in a declaration is declared.\<close>

definition names_closed :: "models \<Rightarrow> bool" where
  "names_closed N \<longleftrightarrow> list_all (\<lambda>(n, fs). list_all (\<lambda>(k, r, ms). list_all (\<lambda>m. m \<in> set (map fst N)) ms) fs) N"

lemma value_in_mono:
  assumes "value_in P ms v" "\<And>m w. m \<in> set ms \<Longrightarrow> m \<in> set ns \<Longrightarrow> P m w \<Longrightarrow> Q m w" "ns = [] \<or> (ms \<noteq> [] \<and> list_all (\<lambda>m. m \<in> set ns) ms)"
  shows "value_in Q ns v"
  using assms unfolding value_in_def list_ex_iff list_all_iff by (cases v) (simp_all split: pyval.splits, blast+)

lemma dump_taken:
  assumes c: "compatible forbid M N" "names_closed N"
  shows "dumped M d n v \<Longrightarrow> n \<in> set (map fst N) \<Longrightarrow> taken forbid N d n v"
proof (induction d arbitrary: n v)
  case (Suc d)
  from Suc.prems(1) obtain kvs fs where v: "v = PDict kvs" "map_of M n = Some fs" "set (map fst kvs) = set (map fst fs)"
    "\<forall>(k, w)\<in>set kvs. value_in (dumped M d) (nested_of fs k) w"
    by (auto simp: list_all_iff split: pyval.splits option.splits)
  from Suc.prems(2) obtain gs where g: "map_of N n = Some gs"
    by (metis list.set_map map_of_eq_None_iff not_None_eq)
  have "(n, fs) \<in> set M" "(n, gs) \<in> set N" using v(2) g by (auto dest: map_of_SomeD)
  then have fc: "fields_compatible forbid fs gs"
    using c(1) g unfolding compatible_def list_all_iff by fastforce
  have nested: "m \<in> set (map fst N)" if "m \<in> set (nested_of gs k)" for m k
  proof -
    from that obtain r ms where m: "map_of gs k = Some (r, ms)" "m \<in> set ms"
      by (cases "map_of gs k") (auto simp: nested_of_def)
    from map_of_SomeD [OF m(1)] \<open>(n, gs) \<in> set N\<close> m(2) c(2) show ?thesis
      unfolding names_closed_def list_all_iff by fast
  qed
  have "value_in (taken forbid N d) (nested_of gs k) w" if kw: "(k, w) \<in> set kvs" for k w
  proof (rule value_in_mono)
    show "value_in (\<lambda>m w. dumped M d m w) (nested_of fs k) w" using v(4) kw by auto
    have "k \<in> fst ` set fs" using v(3) kw by (force simp: image_iff)
    then show sub: "nested_of gs k = [] \<or> (nested_of fs k \<noteq> [] \<and> list_all (\<lambda>m. m \<in> set (nested_of gs k)) (nested_of fs k))"
      using fc by (force simp: fields_compatible_def list_all_iff Let_def)
    show "taken forbid N d m w'" if "m \<in> set (nested_of fs k)" "m \<in> set (nested_of gs k)" "dumped M d m w'" for m w'
      using Suc.IH that(3) nested [OF that(2)] by blast
  qed
  moreover have "forbid \<Longrightarrow> set (map fst kvs) \<subseteq> set (map fst gs)" "list_all (\<lambda>(k, r, ms). r \<longrightarrow> k \<in> set (map fst kvs)) gs"
    using fc v(3) by (force simp: fields_compatible_def list_all_iff)+
  ultimately show ?case using v(1) g by (auto simp: list_all_iff)
qed simp

section \<open>The two sides fit\<close>

lemma compatible_append [simp]: "compatible forbid (A @ B) N \<longleftrightarrow> compatible forbid A N \<and> compatible forbid B N"
  by (simp add: compatible_def)

lemma closed_server: "names_closed server_models"
  by code_simp

lemma closed_sdk: "names_closed sdk_models"
  by code_simp

lemma sdk_requests_fit:
  "compatible True sdk_field_models server_models" "compatible True sdk_type_models server_models"
  "compatible True sdk_request_models server_models"
  by code_simp+

lemma server_types_fit:
  "compatible False server_bbox_models sdk_models" "compatible False server_validator_models sdk_models"
  "compatible False server_field_models sdk_models" "compatible False server_document_type_models sdk_models"
  by code_simp+

lemma server_rules_fit:
  "compatible False server_rule_models sdk_models" "compatible False server_transformation_models sdk_models"
  "compatible False server_authenticity_models sdk_models" "compatible False server_extract_models sdk_models"
  by code_simp+

lemma server_results_fit:
  "compatible False server_result_models sdk_models" "compatible False server_extraction_models sdk_models"
  "compatible False server_event_models sdk_models"
  by code_simp+

text \<open>The models a request is built from.\<close>

definition sdk_request_side :: models where
  "sdk_request_side = sdk_field_models @ sdk_type_models @ sdk_request_models"

lemma requests_compatible: "compatible True sdk_request_side server_models"
  by (simp add: sdk_request_side_def sdk_requests_fit)

lemma responses_compatible: "compatible False server_models sdk_models"
  by (simp only: server_models_def compatible_append server_types_fit server_rules_fit server_results_fit simp_thms)

text \<open>An undeclared key is refused, as is a body without a required one.\<close>

lemma undeclared_key_refused:
  "map_of M n = Some fs \<Longrightarrow> k \<in> set (map fst kvs) \<Longrightarrow> k \<notin> set (map fst fs) \<Longrightarrow> \<not> taken True M d n (PDict kvs)"
  by (cases d) auto

lemma required_key_missing:
  "map_of M n = Some fs \<Longrightarrow> (k, True, ms) \<in> set fs \<Longrightarrow> k \<notin> set (map fst kvs) \<Longrightarrow> \<not> taken f M d n (PDict kvs)"
  by (cases d) (auto simp: list_all_iff)

text \<open>The repair stage is out of the SDK's reach: its toggle is not declared there, and the server would take it.\<close>

lemma repair_toggle_one_sided:
  "''repair'' \<in> set (map fst (the (map_of server_models ''StageToggles'')))"
  "''repair'' \<notin> set (map fst (the (map_of sdk_models ''StageToggles'')))"
  by code_simp+

lemma enums_agree: "list_all (\<lambda>(n, ms). map_of server_enums n = Some ms) sdk_enums \<and> length sdk_enums = length server_enums"
  by code_simp

text \<open>A request with a file and stages in it, as the SDK dumps it.\<close>

definition sample_request :: pyval where
  "sample_request = PDict [(''intention'', PNone), (''files'', PList [PDict [(''filename'', PStr ''a.pdf''), (''content_base64'', PStr ''AA''),
       (''content_type'', PNone), (''expected_type'', PNone)]]),
     (''document_types'', PList []), (''rules'', PList []), (''options'', PDict [(''model'', PNone), (''language_hint'', PNone), (''return_bboxes'', PBool True), (''declared_media_type'', PNone),
       (''stages'', PDict [(k, PBool True). k \<leftarrow> [''splitter'', ''classifier'', ''field_validation'', ''visual_authenticity'',
          ''content_authenticity'', ''judge'', ''judge_escalation'', ''bbox_refine'', ''transform'', ''rule_engine'']]),
       (''escalation'', PNone), (''transformations'', PList [])])]"

lemma sample_request_dumped: "dumped sdk_request_side 3 ''ExtractionRequest'' sample_request"
  by code_simp

definition sample_error :: pyval where
  "sample_error = PDict [(''code'', PStr ''timeout''), (''message'', PStr ''late'')]"

definition sample_extraction :: pyval where
  "sample_extraction = PDict [(''id'', PStr ''e1''), (''status'', PStr ''failed''), (''submitted_at'', PStr ''t''), (''started_at'', PNone),
     (''finished_at'', PNone), (''attempts'', PInt 1), (''error'', sample_error), (''post_processing'', PNone)]"

lemma sample_extraction_dumped: "dumped server_models 2 ''Extraction'' sample_extraction"
  by code_simp



text \<open>What the server answers, the SDK reads.\<close>

lemma server_response_taken:
  "n \<in> {''ExtractionResult'', ''Extraction'', ''ExtractionResultEnvelope'', ''ExtractionListResponse'', ''EventEnvelope''}
     \<Longrightarrow> dumped server_models d n v \<Longrightarrow> taken False sdk_models d n v"
  by (rule dump_taken [OF responses_compatible closed_sdk])
    (assumption, auto simp: sdk_models_def sdk_result_models_def sdk_lifecycle_models_def)

lemma server_response_taken_witness: "taken False sdk_models 2 ''Extraction'' sample_extraction"
  using server_response_taken [of "''Extraction''" 2 sample_extraction] sample_extraction_dumped by simp

end
