(* ===== verification/Spec2Isabelle.thy ===== *)
theory Spec2Isabelle
  imports CheckDigits PipelineRuns Operations Extractor SdkClient Migrations WireModels
begin

text \<open>
  flydocs: a document-extraction service. This development models its core in Isabelle/HOL.
\<close>

end
